(* ===== verification/Prelude.thy ===== *)
theory Prelude
  imports Main "HOL-Library.Word"
begin

unbundle bit_operations_syntax

text \<open>
  What every component of the sandbox shares: the result of running a piece of C
  (\<open>outcome\<close>), sequencing of such pieces over an explicit state (\<open>bnd\<close>), C strings,
  little-endian integers in byte buffers, bounded buffer writes, and the constants of
  the Linux headers the sources use.
\<close>

section \<open>Lemma collections\<close>

named_theorems prog_simps \<open>unfolding rules for sequenced programs\<close>
named_theorems buf_simps \<open>rules for byte buffers\<close>

section \<open>The result of running C code\<close>

text \<open>
  A C function returns a value, ends the process by \<open>exit\<close>, or does something the
  language gives no meaning to: it follows a null pointer, leaves the bounds of an object
  or uses a variable that was never assigned. The last three are kept apart from ordinary
  results, so that a theorem that the code returns excludes them.
\<close>

datatype fault = Null_Deref | Out_Of_Bounds | Uninitialised

datatype 'a outcome = Ret 'a | Exit int | Fault fault

type_synonym ('s, 'a) prog = "'s \<Rightarrow> 'a outcome \<times> 's"

definition ret :: "'a \<Rightarrow> ('s, 'a) prog" where
  "ret a = (\<lambda>s. (Ret a, s))"

definition exit_with :: "int \<Rightarrow> ('s, 'a) prog" where
  "exit_with n = (\<lambda>s. (Exit n, s))"

definition fault_with :: "fault \<Rightarrow> ('s, 'a) prog" where
  "fault_with e = (\<lambda>s. (Fault e, s))"

definition bnd :: "('s, 'a) prog \<Rightarrow> ('a \<Rightarrow> ('s, 'b) prog) \<Rightarrow> ('s, 'b) prog" where
  "bnd m f = (\<lambda>s. case m s of
      (Ret a, s') \<Rightarrow> f a s'
    | (Exit n, s') \<Rightarrow> (Exit n, s')
    | (Fault e, s') \<Rightarrow> (Fault e, s'))"

text \<open>A value or, where it is missing, a way to stop.\<close>

definition need :: "'a option \<Rightarrow> ('s, 'a) prog \<Rightarrow> ('s, 'a) prog" where
  "need v stop = (case v of Some a \<Rightarrow> ret a | None \<Rightarrow> stop)"

definition check :: "bool \<Rightarrow> ('s, unit) prog \<Rightarrow> ('s, unit) prog" where
  "check b stop = (if b then ret () else stop)"

lemma ret_run [prog_simps, simp]: "ret a s = (Ret a, s)"
  by (simp add: ret_def)

lemma exit_with_run [prog_simps, simp]: "exit_with n s = (Exit n, s)"
  by (simp add: exit_with_def)

lemma fault_with_run [prog_simps, simp]: "fault_with e s = (Fault e, s)"
  by (simp add: fault_with_def)

lemma bnd_Ret [prog_simps, simp]: "m s = (Ret a, s') \<Longrightarrow> bnd m f s = f a s'"
  by (simp add: bnd_def)

lemma bnd_Exit [prog_simps, simp]: "m s = (Exit n, s') \<Longrightarrow> bnd m f s = (Exit n, s')"
  by (simp add: bnd_def)

lemma bnd_Fault [prog_simps, simp]: "m s = (Fault e, s') \<Longrightarrow> bnd m f s = (Fault e, s')"
  by (simp add: bnd_def)

lemma bnd_fst_Fault: "fst (m s) = Fault e \<Longrightarrow> fst (bnd m f s) = Fault e"
  by (cases "m s") (simp add: bnd_def)

lemma bnd_Ret_iff:
  "bnd m f s = (Ret b, s'') \<longleftrightarrow> (\<exists>a s'. m s = (Ret a, s') \<and> f a s' = (Ret b, s''))"
  by (auto simp: bnd_def split: prod.splits outcome.splits)

lemma need_run [prog_simps, simp]: "need (Some a) stop = ret a" "need None stop = stop"
  by (simp_all add: need_def)

lemma need_Ret_iff:
  "need v (exit_with n) s = (Ret a, s') \<longleftrightarrow> v = Some a \<and> s' = s"
  "need v (fault_with e) s = (Ret a, s') \<longleftrightarrow> v = Some a \<and> s' = s"
  by (auto simp: need_def split: option.splits)

lemma check_run [prog_simps, simp]: "check True stop = ret ()" "check False stop = stop"
  by (simp_all add: check_def)

lemma check_Ret_iff:
  "check b (exit_with n) s = (Ret u, s') \<longleftrightarrow> b \<and> s' = s"
  "check b (fault_with e) s = (Ret u, s') \<longleftrightarrow> b \<and> s' = s"
  by (auto simp: check_def)

lemmas ret_iffs = bnd_Ret_iff need_Ret_iff check_Ret_iff

text \<open>A piece of code that never runs into the fault \<open>e\<close>, in whatever state it starts.\<close>

named_theorems never_intros \<open>absence of a fault, by the structure of the program\<close>

definition never :: "fault \<Rightarrow> ('s, 'a) prog \<Rightarrow> bool" where
  "never e m \<longleftrightarrow> (\<forall>s. fst (m s) \<noteq> Fault e)"

lemma neverD: "never e m \<Longrightarrow> m s \<noteq> (Fault e, s')"
  by (metis never_def fst_conv)

lemma never_run: "never e m \<Longrightarrow> fst (m s) \<noteq> Fault e"
  by (simp add: never_def)

lemma never_ret [never_intros]: "never e (ret a)" "never e (exit_with n)"
  by (simp_all add: never_def)

lemma never_fault [never_intros]: "e \<noteq> e' \<Longrightarrow> never e (fault_with e')"
  by (simp add: never_def)

lemma never_bnd [never_intros]:
  "never e m \<Longrightarrow> (\<And>a s s'. m s = (Ret a, s') \<Longrightarrow> never e (f a)) \<Longrightarrow> never e (bnd m f)"
  unfolding never_def [of _ "bnd m f"]
  by (auto simp: bnd_def split: prod.split outcome.split dest: neverD) (metis never_run)

lemma never_need [never_intros]: "(v = None \<Longrightarrow> never e stop) \<Longrightarrow> never e (need v stop)"
  by (cases v) (auto simp: never_def need_def)

lemma never_check [never_intros]: "(\<not> b \<Longrightarrow> never e stop) \<Longrightarrow> never e (check b stop)"
  by (auto simp: never_def check_def)

lemma never_if [never_intros]:
  "(b \<Longrightarrow> never e m) \<Longrightarrow> (\<not> b \<Longrightarrow> never e m') \<Longrightarrow> never e (if b then m else m')"
  by simp

text \<open>
  A piece of code that, however it ends, leads only to states related to the one it starts in. For a
  reflexive and transitive relation this follows the structure of the program.
\<close>

definition within :: "('s \<Rightarrow> 's \<Rightarrow> bool) \<Rightarrow> ('s, 'a) prog \<Rightarrow> bool" where
  "within R m \<longleftrightarrow> (\<forall>s. R s (snd (m s)))"

lemma withinD: "within R m \<Longrightarrow> m s = (r, t) \<Longrightarrow> R s t"
  by (metis within_def snd_conv)

locale frame =
  fixes R :: "'s \<Rightarrow> 's \<Rightarrow> bool"
  assumes same: "R s s" and further: "R s t \<Longrightarrow> R t u \<Longrightarrow> R s u"
begin

lemma bnd:
  assumes "within R m" and "\<And>a. within R (f a)"
  shows "within R (bnd m f)"
  unfolding within_def
proof
  fix s
  obtain r t where m: "m s = (r, t)" by (cases "m s")
  then have "R s t" by (rule withinD [OF assms(1)])
  moreover have "R t (snd (f a t))" for a using assms(2) by (simp add: within_def)
  ultimately show "R s (snd (bnd m f s))"
    using m by (auto simp: bnd_def split: outcome.split intro: further)
qed

lemma basic: "within R (ret a)" "within R (exit_with n)" "within R (fault_with e)" "within R (Pair r)"
  by (simp_all add: within_def same)

lemma need: "within R stop \<Longrightarrow> within R (need v stop)"
  by (cases v) (simp_all add: basic)

end

section \<open>C strings\<close>

text \<open>
  A \<open>char\<close> of HOL is a byte. A C string is what a pointer shows up to the first NUL
  byte: \<open>cstr\<close> cuts a byte sequence there, and \<open>strlen\<close> is the length of that.
\<close>

definition cstr :: "string \<Rightarrow> string" where
  "cstr s = takeWhile (\<lambda>c. c \<noteq> CHR 0x00) s"

definition strlen :: "string \<Rightarrow> nat" where
  "strlen s = length (cstr s)"

lemma cstr_no_nul: "CHR 0x00 \<notin> set (cstr s)"
  unfolding cstr_def by (metis (mono_tags, lifting) set_takeWhileD)

lemma cstr_id [simp]: "CHR 0x00 \<notin> set s \<Longrightarrow> cstr s = s"
  unfolding cstr_def by (subst takeWhile_eq_all_conv) blast

lemma cstr_append_nul [simp]:
  "CHR 0x00 \<notin> set s \<Longrightarrow> cstr (s @ CHR 0x00 # t) = s"
  unfolding cstr_def by (induction s) auto

lemma strlen_le: "strlen s \<le> length s"
  by (simp add: strlen_def cstr_def length_takeWhile_le)

section \<open>Bytes and little-endian integers\<close>

type_synonym byte = "8 word"

lemma byte_bound [buf_simps]: "unat (b :: byte) < 256"
  using unsigned_less [of b] by simp

definition byte_of_char :: "char \<Rightarrow> byte" where
  "byte_of_char c = word_of_nat (of_char c)"

definition char_of_byte :: "byte \<Rightarrow> char" where
  "char_of_byte b = char_of (unat b)"

lemma char_of_byte_of_char [buf_simps, simp]: "char_of_byte (byte_of_char c) = c"
proof -
  have "(of_char c :: nat) < 256" by simp
  then have "unat (word_of_nat (of_char c) :: byte) = of_char c"
    by (simp add: unat_of_nat)
  then show ?thesis by (simp add: char_of_byte_def byte_of_char_def)
qed

lemma byte_of_char_of_byte [buf_simps, simp]: "byte_of_char (char_of_byte b) = b"
proof -
  have "unat b < 256" by (rule byte_bound)
  then have "(of_char (char_of (unat b)) :: nat) = unat b" by (simp add: of_char_of)
  then show ?thesis by (simp add: char_of_byte_def byte_of_char_def)
qed

lemma byte_of_char_zero [buf_simps, simp]: "byte_of_char c = 0 \<longleftrightarrow> c = CHR 0x00"
proof
  assume "byte_of_char c = 0"
  then have "char_of_byte (byte_of_char c) = char_of_byte 0" by simp
  then have "c = char_of_byte 0" by simp
  then show "c = CHR 0x00" by (simp add: char_of_byte_def char_of_def)
qed (simp add: byte_of_char_def)

fun le_bytes :: "nat \<Rightarrow> int \<Rightarrow> byte list" where
  "le_bytes 0 v = []"
| "le_bytes (Suc n) v = word_of_int v # le_bytes n (v div 256)"

fun le_nat :: "byte list \<Rightarrow> nat" where
  "le_nat [] = 0"
| "le_nat (b # bs) = unat b + 256 * le_nat bs"

lemma length_le_bytes [buf_simps, simp]: "length (le_bytes n v) = n"
  by (induction n arbitrary: v) auto

lemma le_nat_le_bytes: "int (le_nat (le_bytes n v)) = v mod 256 ^ n"
proof (induction n arbitrary: v)
  case 0
  show ?case by simp
next
  case (Suc n)
  have "int (unat (word_of_int v :: byte)) = v mod 256"
    by (simp add: take_bit_eq_mod uint_word_of_int)
  with Suc [of "v div 256"]
  have "int (le_nat (le_bytes (Suc n) v)) = v mod 256 + 256 * (v div 256 mod 256 ^ n)"
    by simp
  also have "\<dots> = v mod (256 * 256 ^ n)"
    by (simp add: zmod_zmult2_eq)
  finally show ?case by simp
qed

lemma le_nat_of_nat [buf_simps]: "k < 256 ^ n \<Longrightarrow> le_nat (le_bytes n (int k)) = k"
proof -
  assume "k < 256 ^ n"
  then have "int k mod 256 ^ n = int k" by (simp flip: of_nat_power)
  then have "int (le_nat (le_bytes n (int k))) = int k" by (simp add: le_nat_le_bytes)
  then show ?thesis by (simp only: of_nat_eq_iff)
qed

lemma le_nat_bound: "le_nat bs < 256 ^ length bs"
proof (induction bs)
  case (Cons b bs)
  have "unat b < 256" by (rule byte_bound)
  with Cons show ?case by simp
qed simp

lemma le_bytes_le_nat [buf_simps]: "le_bytes (length bs) (int (le_nat bs)) = bs"
proof (induction bs)
  case (Cons b bs)
  have b: "uint b < 256" "0 \<le> uint b" using unsigned_less [of b] by simp_all
  have "uint (word_of_int (uint b + 256 * int (le_nat bs)) :: byte) = (uint b + 256 * int (le_nat bs)) mod 256"
    by (subst uint_word_of_int) simp
  also have "\<dots> = uint b" using b by simp
  finally have "(word_of_int (uint b + 256 * int (le_nat bs)) :: byte) = b"
    by (simp only: word_uint_eq_iff)
  moreover have "(uint b + 256 * int (le_nat bs)) div 256 = int (le_nat bs)" using b by simp
  ultimately show ?case using Cons by (simp del: of_int_add of_int_mult)
qed simp

lemma list4: "length xs = 4 \<Longrightarrow> \<exists>a b c d. xs = [a, b, c, d]"
  by (auto simp: numeral_eq_Suc length_Suc_conv)

section \<open>Buffers\<close>

text \<open>A write into an object of known size: \<open>None\<close> when it would leave the object.\<close>

definition write_at :: "nat \<Rightarrow> 'b list \<Rightarrow> 'b list \<Rightarrow> 'b list option" where
  "write_at off bs buf =
     (if off + length bs \<le> length buf
      then Some (take off buf @ bs @ drop (off + length bs) buf) else None)"

lemma write_at_None [buf_simps]:
  "write_at off bs buf = None \<longleftrightarrow> length buf < off + length bs"
  by (auto simp: write_at_def)

lemma write_at_length [buf_simps]:
  "write_at off bs buf = Some buf' \<Longrightarrow> length buf' = length buf"
  by (auto simp: write_at_def split: if_splits)

lemma write_at_keeps:
  "write_at off bs buf = Some buf' \<Longrightarrow> off + length bs \<le> k \<Longrightarrow> drop k buf' = drop k buf"
  by (auto simp: write_at_def split: if_splits)

lemma write_at_append [buf_simps]:
  "length p = off \<Longrightarrow> length bs = length m \<Longrightarrow>
   write_at off bs (p @ m @ r) = Some (p @ bs @ r)"
  by (simp add: write_at_def)

section \<open>Constants of the Linux headers\<close>

text \<open>
  The values of \<open>errno.h\<close>, \<open>fcntl.h\<close>, \<open>sys/mman.h\<close> and \<open>signal.h\<close> on
  Linux for x86, for the names the sources use.
\<close>

abbreviation (input) "EPERM \<equiv> (1::int)"
abbreviation (input) "ENOENT \<equiv> (2::int)"
abbreviation (input) "EIO \<equiv> (5::int)"
abbreviation (input) "EEXIST \<equiv> (17::int)"
abbreviation (input) "ENOTDIR \<equiv> (20::int)"
abbreviation (input) "EISDIR \<equiv> (21::int)"
abbreviation (input) "EINVAL \<equiv> (22::int)"
abbreviation (input) "EMFILE \<equiv> (24::int)"
abbreviation (input) "ENOTTY \<equiv> (25::int)"
abbreviation (input) "EROFS \<equiv> (30::int)"
abbreviation (input) "ERANGE \<equiv> (34::int)"
abbreviation (input) "EPROTO \<equiv> (71::int)"

abbreviation (input) "O_WRONLY \<equiv> (0x1 :: 32 word)"
abbreviation (input) "O_RDWR \<equiv> (0x2 :: 32 word)"
abbreviation (input) "O_CREAT \<equiv> (0x40 :: 32 word)"
abbreviation (input) "O_EXCL \<equiv> (0x80 :: 32 word)"
abbreviation (input) "O_DIRECTORY \<equiv> (0x10000 :: 32 word)"
abbreviation (input) "O_CLOEXEC \<equiv> (0x80000 :: 32 word)"
abbreviation (input) "O_TMPFILE \<equiv> (0x410000 :: 32 word)"

end
