(* ===== verification/Base64.thy ===== *)
theory Base64
  imports Prelude
begin

text \<open>
  The base64 decoder of \<open>sblibc.c\<close> (\<open>base64decode\<close>, lines 211 to 277), the routine
  that turns the text an overall parent sends into the bytes a system call hands to the
  sandboxed program. The model keeps the decoder's loop, its bit buffer of machine width and
  the two places where it checks the output size. Against it stands a specification at the
  level of bits: the six-bit groups of the input, read as one stream and cut into bytes.
\<close>

section \<open>The decoder\<close>

abbreviation (input) "WHITESPACE \<equiv> (64::nat)"
abbreviation (input) "EQUALS \<equiv> (65::nat)"
abbreviation (input) "INVALID \<equiv> (66::nat)"

text \<open>The table \<open>d\<close>: the class or the six-bit value of every byte.\<close>

definition b64_table :: "nat list" where
  "b64_table = [
    66, 66, 66, 66, 66, 66, 66, 66, 66, 66, 64, 66, 66, 66, 66, 66, 66, 66, 66, 66, 66, 66, 66, 66, 66,
    66, 66, 66, 66, 66, 66, 66, 66, 66, 66, 66, 66, 66, 66, 66, 66, 66, 66, 62, 66, 66, 66, 63, 52, 53,
    54, 55, 56, 57, 58, 59, 60, 61, 66, 66, 66, 65, 66, 66, 66, 0, 1, 2, 3, 4, 5, 6, 7, 8, 9,
    10, 11, 12, 13, 14, 15, 16, 17, 18, 19, 20, 21, 22, 23, 24, 25, 66, 66, 66, 66, 66, 66, 26, 27, 28,
    29, 30, 31, 32, 33, 34, 35, 36, 37, 38, 39, 40, 41, 42, 43, 44, 45, 46, 47, 48, 49, 50, 51, 66, 66,
    66, 66, 66, 66, 66, 66, 66, 66, 66, 66, 66, 66, 66, 66, 66, 66, 66, 66, 66, 66, 66, 66, 66, 66, 66,
    66, 66, 66, 66, 66, 66, 66, 66, 66, 66, 66, 66, 66, 66, 66, 66, 66, 66, 66, 66, 66, 66, 66, 66, 66,
    66, 66, 66, 66, 66, 66, 66, 66, 66, 66, 66, 66, 66, 66, 66, 66, 66, 66, 66, 66, 66, 66, 66, 66, 66,
    66, 66, 66, 66, 66, 66, 66, 66, 66, 66, 66, 66, 66, 66, 66, 66, 66, 66, 66, 66, 66, 66, 66, 66, 66,
    66, 66, 66, 66, 66, 66, 66, 66, 66, 66, 66, 66, 66, 66, 66, 66, 66, 66, 66, 66, 66, 66, 66, 66, 66,
    66, 66, 66, 66, 66, 66]"

definition b64_d :: "char \<Rightarrow> nat" where
  "b64_d ch = b64_table ! of_char ch"

text \<open>
  The locals of the loop: \<open>iter\<close>, \<open>buf\<close> (a \<open>size_t\<close>), \<open>len\<close> and what has been
  written through \<open>out\<close>. \<open>len\<close> never exceeds the size of an object, so it is a natural
  number.
\<close>

record b64 =
  iter :: nat
  bbuf :: "64 word"
  blen :: nat
  bout :: "byte list"

definition b64_start :: b64 where
  "b64_start = \<lparr>iter = 0, bbuf = 0, blen = 0, bout = []\<rparr>"

text \<open>\<open>*(out++) = (buf >> n) & 255\<close>\<close>

definition b64_byte :: "64 word \<Rightarrow> nat \<Rightarrow> byte" where
  "b64_byte buf n = ucast (drop_bit n buf AND 255)"

text \<open>\<open>None\<close> is the early \<open>return 1\<close>.\<close>

fun b64_loop :: "nat \<Rightarrow> char list \<Rightarrow> b64 \<Rightarrow> b64 option" where
  "b64_loop cap [] st = Some st"
| "b64_loop cap (ch # rest) st =
    (let c = b64_d ch in
     if c = WHITESPACE then b64_loop cap rest st
     else if c = INVALID then None
     else if c = EQUALS then Some st
     else
       let buf = push_bit 6 (bbuf st) OR word_of_nat c; it = iter st + 1 in
       if it = 4 then
         if blen st + 3 > cap then None
         else b64_loop cap rest
                \<lparr>iter = 0, bbuf = 0, blen = blen st + 3,
                 bout = bout st @ [b64_byte buf 16, b64_byte buf 8, b64_byte buf 0]\<rparr>
       else b64_loop cap rest (st\<lparr>iter := it, bbuf := buf\<rparr>))"

text \<open>\<open>base64decode(in, inLen, out, outLen)\<close>: the bytes written and the new \<open>*outLen\<close>.\<close>

definition base64decode :: "char list \<Rightarrow> nat \<Rightarrow> (byte list \<times> nat) option" where
  "base64decode inp cap =
    (case b64_loop cap inp b64_start of
      None \<Rightarrow> None
    | Some st \<Rightarrow>
        if iter st = 3 then
          if blen st + 2 > cap then None
          else Some (bout st @ [b64_byte (bbuf st) 10, b64_byte (bbuf st) 2], blen st + 2)
        else if iter st = 2 then
          if blen st + 1 > cap then None
          else Some (bout st @ [b64_byte (bbuf st) 4], blen st + 1)
        else Some (bout st, blen st))"

section \<open>The specification\<close>

text \<open>
  The sextets of an input: whitespace is skipped, the first \<open>=\<close> ends the data, and a
  byte outside the alphabet before that makes the input invalid.
\<close>

fun sextets :: "char list \<Rightarrow> nat list option" where
  "sextets [] = Some []"
| "sextets (ch # rest) =
    (let c = b64_d ch in
     if c = WHITESPACE then sextets rest
     else if c = INVALID then None
     else if c = EQUALS then Some []
     else map_option ((#) c) (sextets rest))"

definition sextet_bits :: "nat \<Rightarrow> bool list" where
  "sextet_bits n = map (bit n) [5, 4, 3, 2, 1, 0]"

definition byte_of_bits :: "bool list \<Rightarrow> byte" where
  "byte_of_bits bs = foldl (\<lambda>w b. 2 * w + of_bool b) 0 bs"

text \<open>Whole bytes of a bit stream, most significant bit first; a last partial byte is dropped.\<close>

fun bytes_of_bits :: "bool list \<Rightarrow> byte list" where
  "bytes_of_bits (b7 # b6 # b5 # b4 # b3 # b2 # b1 # b0 # rest) =
     byte_of_bits [b7, b6, b5, b4, b3, b2, b1, b0] # bytes_of_bits rest"
| "bytes_of_bits _ = []"

definition b64_spec :: "nat list \<Rightarrow> byte list" where
  "b64_spec ss = bytes_of_bits (concat (map sextet_bits ss))"

section \<open>The table\<close>

lemma b64_table_bound: "list_all (\<lambda>c. c \<le> 66) b64_table"
  by (simp add: b64_table_def)

lemma length_b64_table: "length b64_table = 256"
  by (simp add: b64_table_def)

lemma b64_d_cases:
  "b64_d ch < 64 \<or> b64_d ch = WHITESPACE \<or> b64_d ch = EQUALS \<or> b64_d ch = INVALID"
proof -
  have "of_char ch < length b64_table" by (simp add: length_b64_table)
  then have "b64_table ! of_char ch \<le> 66"
    using b64_table_bound by (simp add: list_all_length)
  then show ?thesis unfolding b64_d_def by linarith
qed

lemma sextets_bound: "sextets inp = Some ss \<Longrightarrow> \<forall>s \<in> set ss. s < 64"
proof (induction inp arbitrary: ss rule: sextets.induct)
  case (2 ch rest)
  then show ?case using b64_d_cases [of ch] by (auto simp: Let_def split: if_splits)
qed simp

section \<open>Bits\<close>

text \<open>What the buffer holds after \<open>k\<close> sextets, and that its bytes are those of the stream.\<close>

definition b64_push :: "64 word \<Rightarrow> nat \<Rightarrow> 64 word" where
  "b64_push w s = push_bit 6 w OR word_of_nat s"

lemma less_8_cases: "(n::nat) < 8 \<longleftrightarrow> n \<in> {0, 1, 2, 3, 4, 5, 6, 7}"
  by auto

lemma byte_of_bits_horner:
  "byte_of_bits [b7, b6, b5, b4, b3, b2, b1, b0] =
     horner_sum of_bool 2 [b0, b1, b2, b3, b4, b5, b6, b7]"
  unfolding byte_of_bits_def by (simp only: foldl.simps horner_sum_simps) (simp add: algebra_simps)

lemma bit_byte_of_bits:
  assumes "n < 8"
  shows "bit (byte_of_bits [b7, b6, b5, b4, b3, b2, b1, b0]) n =
     [b0, b1, b2, b3, b4, b5, b6, b7] ! n"
  using assms unfolding byte_of_bits_horner by (subst bit_horner_sum_bit_word_iff) simp

lemma bit_less_64: "(s::nat) < 64 \<Longrightarrow> bit s n \<Longrightarrow> n < 6"
proof (rule ccontr)
  assume "s < 64" "bit s n" "\<not> n < 6"
  moreover from \<open>s < 64\<close> have "s = take_bit 6 s" by (simp add: take_bit_eq_mod)
  ultimately show False by (metis bit_take_bit_iff)
qed

lemma bit_b64_byte: "bit (b64_byte w k) n \<longleftrightarrow> n < 8 \<and> bit w (n + k)"
proof -
  have "(255 :: 64 word) = mask 8" by (simp add: mask_eq_exp_minus_1)
  then have "b64_byte w k = ucast (drop_bit k w AND mask 8)" by (simp add: b64_byte_def)
  then show ?thesis by (auto simp: bit_simps ac_simps dest: bit_imp_le_length)
qed

lemma bit_b64_push:
  assumes "s < 64" and "m < 64"
  shows "bit (b64_push w s) m \<longleftrightarrow> (if m < 6 then bit s m else bit w (m - 6))"
  using assms bit_less_64 [of s m]
  by (auto simp: b64_push_def bit_simps dest: bit_imp_le_length)

text \<open>A byte of the stream is a byte of the buffer when their eight bits agree.\<close>

lemma byte_of_bits_eqI:
  assumes "b0 = bit w k" "b1 = bit w (k + 1)" "b2 = bit w (k + 2)" "b3 = bit w (k + 3)"
    and "b4 = bit w (k + 4)" "b5 = bit w (k + 5)" "b6 = bit w (k + 6)" "b7 = bit w (k + 7)"
  shows "byte_of_bits [b7, b6, b5, b4, b3, b2, b1, b0] = b64_byte w k"
proof (rule bit_word_eqI)
  fix n assume "n < LENGTH(8)"
  then have n: "n < 8" by simp
  then have "[b0, b1, b2, b3, b4, b5, b6, b7] ! n = bit w (k + n)"
    unfolding less_8_cases by (elim insertE emptyE) (simp_all add: assms)
  with n show "bit (byte_of_bits [b7, b6, b5, b4, b3, b2, b1, b0]) n = bit (b64_byte w k) n"
    by (simp add: bit_byte_of_bits bit_b64_byte add.commute)
qed

lemma small_numerals:
  "(2::nat) = Suc (Suc 0)" "(3::nat) = Suc (Suc (Suc 0))" "(4::nat) = Suc (Suc (Suc (Suc 0)))"
  "(5::nat) = Suc (Suc (Suc (Suc (Suc 0))))"
  by simp_all

text \<open>Four, three and two sextets give the bytes the decoder stores.\<close>

lemma group4:
  assumes "s0 < 64" "s1 < 64" "s2 < 64" "s3 < 64"
  defines "buf \<equiv> b64_push (b64_push (b64_push (b64_push 0 s0) s1) s2) s3"
  shows "bytes_of_bits (sextet_bits s0 @ sextet_bits s1 @ sextet_bits s2 @ sextet_bits s3 @ bs) =
    b64_byte buf 16 # b64_byte buf 8 # b64_byte buf 0 # bytes_of_bits bs"
proof -
  have
    "byte_of_bits [bit s0 5, bit s0 4, bit s0 3, bit s0 2, bit s0 1, bit s0 0, bit s1 5, bit s1 4] = b64_byte buf 16"
    "byte_of_bits [bit s1 3, bit s1 2, bit s1 1, bit s1 0, bit s2 5, bit s2 4, bit s2 3, bit s2 2] = b64_byte buf 8"
    "byte_of_bits [bit s2 1, bit s2 0, bit s3 5, bit s3 4, bit s3 3, bit s3 2, bit s3 1, bit s3 0] = b64_byte buf 0"
    by (rule byte_of_bits_eqI, use assms(1-4) in \<open>simp_all add: buf_def bit_b64_push small_numerals\<close>)+
  then show ?thesis by (simp add: sextet_bits_def)
qed

lemma group3:
  assumes "s0 < 64" "s1 < 64" "s2 < 64"
  defines "buf \<equiv> b64_push (b64_push (b64_push 0 s0) s1) s2"
  shows "bytes_of_bits (sextet_bits s0 @ sextet_bits s1 @ sextet_bits s2) =
    [b64_byte buf 10, b64_byte buf 2]"
proof -
  have
    "byte_of_bits [bit s0 5, bit s0 4, bit s0 3, bit s0 2, bit s0 1, bit s0 0, bit s1 5, bit s1 4] = b64_byte buf 10"
    "byte_of_bits [bit s1 3, bit s1 2, bit s1 1, bit s1 0, bit s2 5, bit s2 4, bit s2 3, bit s2 2] = b64_byte buf 2"
    by (rule byte_of_bits_eqI, use assms(1-3) in \<open>simp_all add: buf_def bit_b64_push small_numerals\<close>)+
  then show ?thesis by (simp add: sextet_bits_def)
qed

lemma group2:
  assumes "s0 < 64" "s1 < 64"
  defines "buf \<equiv> b64_push (b64_push 0 s0) s1"
  shows "bytes_of_bits (sextet_bits s0 @ sextet_bits s1) = [b64_byte buf 4]"
proof -
  have
    "byte_of_bits [bit s0 5, bit s0 4, bit s0 3, bit s0 2, bit s0 1, bit s0 0, bit s1 5, bit s1 4] = b64_byte buf 4"
    by (rule byte_of_bits_eqI) (use assms(1,2) in \<open>simp_all add: buf_def bit_b64_push small_numerals\<close>)
  then show ?thesis by (simp add: sextet_bits_def)
qed

section \<open>The loop\<close>

text \<open>
  The loop invariant: \<open>pend\<close> are the sextets pushed since the last flush (at most three),
  \<open>bout\<close> and \<open>blen\<close> agree, and the buffer is what pushing \<open>pend\<close> leaves.
\<close>

definition b64_inv :: "nat \<Rightarrow> nat list \<Rightarrow> b64 \<Rightarrow> bool" where
  "b64_inv cap pend st \<longleftrightarrow>
     iter st = length pend \<and> length pend < 4 \<and> (\<forall>s \<in> set pend. s < 64) \<and>
     bbuf st = foldl b64_push 0 pend \<and> blen st = length (bout st) \<and> blen st \<le> cap"

definition b64_finish :: "nat \<Rightarrow> b64 \<Rightarrow> (byte list \<times> nat) option" where
  "b64_finish cap st =
    (if iter st = 3 then
       if blen st + 2 > cap then None
       else Some (bout st @ [b64_byte (bbuf st) 10, b64_byte (bbuf st) 2], blen st + 2)
     else if iter st = 2 then
       if blen st + 1 > cap then None
       else Some (bout st @ [b64_byte (bbuf st) 4], blen st + 1)
     else Some (bout st, blen st))"

lemma base64decode_alt:
  "base64decode inp cap = Option.bind (b64_loop cap inp b64_start) (b64_finish cap)"
  by (simp add: base64decode_def b64_finish_def split: option.split)

text \<open>The result the specification gives: the stream's bytes, if they fit.\<close>

definition fits :: "nat \<Rightarrow> byte list \<Rightarrow> (byte list \<times> nat) option" where
  "fits cap bs = (if length bs \<le> cap then Some (bs, length bs) else None)"

lemma b64_spec_Nil [simp]: "b64_spec [] = []"
  by (simp add: b64_spec_def)

lemma finish_spec:
  assumes "b64_inv cap pend st"
  shows "b64_finish cap st = fits cap (bout st @ b64_spec pend)"
proof -
  consider "pend = []" | s0 where "pend = [s0]" | s0 s1 where "pend = [s0, s1]"
    | s0 s1 s2 where "pend = [s0, s1, s2]"
  proof -
    have "length pend < 4" using assms by (simp add: b64_inv_def)
    then show thesis using that
      by (cases pend rule: list.exhaust; simp; cases "tl pend"; simp; cases "tl (tl pend)"; simp;
          cases "tl (tl (tl pend))"; simp)
  qed
  then show ?thesis
  proof cases
    case 1 with assms show ?thesis by (simp add: b64_inv_def b64_finish_def fits_def)
  next
    case 2 with assms show ?thesis
      by (simp add: b64_inv_def b64_finish_def fits_def b64_spec_def sextet_bits_def)
  next
    case 3 with assms show ?thesis
      by (simp add: b64_inv_def b64_finish_def fits_def b64_spec_def group2)
  next
    case 4 with assms show ?thesis
      by (simp add: b64_inv_def b64_finish_def fits_def b64_spec_def group3)
  qed
qed


lemma b64_spec_group:
  assumes "\<forall>s \<in> set pend. s < 64" "length pend = 3" "c < 64"
  defines "buf \<equiv> b64_push (foldl b64_push 0 pend) c"
  shows "b64_spec (pend @ c # ss) =
    [b64_byte buf 16, b64_byte buf 8, b64_byte buf 0] @ b64_spec ss"
proof -
  from assms(2) obtain s0 s1 s2 where "pend = [s0, s1, s2]"
    by (auto simp: length_Suc_conv numeral_3_eq_3)
  with assms show ?thesis by (simp add: b64_spec_def group4)
qed

text \<open>One step of the loop on a data byte, in terms of the pending sextets.\<close>

lemma loop_data:
  assumes inv: "b64_inv cap pend st" and c: "b64_d ch < 64"
  defines "buf \<equiv> b64_push (bbuf st) (b64_d ch)"
  shows "b64_loop cap (ch # rest) st =
    (if length pend = 3 then
       if blen st + 3 > cap then None
       else b64_loop cap rest \<lparr>iter = 0, bbuf = 0, blen = blen st + 3,
              bout = bout st @ [b64_byte buf 16, b64_byte buf 8, b64_byte buf 0]\<rparr>
     else b64_loop cap rest (st\<lparr>iter := iter st + 1, bbuf := buf\<rparr>))"
  using inv c by (simp add: b64_inv_def buf_def b64_push_def Let_def)

lemma loop_spec:
  "b64_inv cap pend st \<Longrightarrow>
   Option.bind (b64_loop cap inp st) (b64_finish cap) =
   (case sextets inp of None \<Rightarrow> None
    | Some ss \<Rightarrow> fits cap (bout st @ b64_spec (pend @ ss)))"
proof (induction inp arbitrary: pend st)
  case Nil
  then show ?case by (simp add: finish_spec)
next
  case (Cons ch rest)
  let ?c = "b64_d ch" and ?buf = "b64_push (bbuf st) (b64_d ch)"
  have pend: "\<forall>s \<in> set pend. s < 64" "bbuf st = foldl b64_push 0 pend"
    using Cons.prems by (simp_all add: b64_inv_def)
  consider "?c = 64" | "?c = 66" | "?c = 65" | (data) "?c < 64"
    using b64_d_cases [of ch] by blast
  then show ?case
  proof cases
    case data
    note step = loop_data [OF Cons.prems data]
    show ?thesis
    proof (cases "length pend = 3")
      case True
      note grp = b64_spec_group [OF pend(1) True data, folded pend(2)]
      let ?st = "\<lparr>iter = 0, bbuf = 0, blen = blen st + 3,
              bout = bout st @ [b64_byte ?buf 16, b64_byte ?buf 8, b64_byte ?buf 0]\<rparr>"
      have len: "blen st = length (bout st)" using Cons.prems by (simp add: b64_inv_def)
      show ?thesis
      proof (cases "blen st + 3 > cap")
        case True
        with data \<open>length pend = 3\<close> len grp step show ?thesis
          by (simp add: fits_def Let_def split: option.split)
      next
        case False
        then have "b64_inv cap [] ?st" using len by (simp add: b64_inv_def)
        from Cons.IH [OF this] False True data grp step show ?thesis
          by (simp add: Let_def split: option.split)
      qed
    next
      case False
      have "b64_inv cap (pend @ [?c]) (st\<lparr>iter := iter st + 1, bbuf := ?buf\<rparr>)"
        using Cons.prems False data by (auto simp: b64_inv_def)
      from Cons.IH [OF this] False data step show ?thesis
        by (simp add: Let_def split: option.split)
    qed
  qed (use Cons.prems in \<open>simp_all add: Cons.IH Let_def finish_spec\<close>)
qed

section \<open>A reference encoder\<close>

text \<open>
  Base64 as RFC 4648 defines it, the encoding the overall parent applies (\<open>base64_encode\<close>
  in PHP): three bytes give four characters, a shorter last group is padded with \<open>=\<close>.
\<close>

definition b64_alphabet :: string where
  "b64_alphabet = ''ABCDEFGHIJKLMNOPQRSTUVWXYZabcdefghijklmnopqrstuvwxyz0123456789+/''"

definition b64_char :: "byte \<Rightarrow> char" where
  "b64_char s = b64_alphabet ! unat s"

definition enc0 :: "byte \<Rightarrow> byte" where "enc0 a = drop_bit 2 a"

definition enc1 :: "byte \<Rightarrow> byte \<Rightarrow> byte" where
  "enc1 a b = push_bit 4 (take_bit 2 a) OR drop_bit 4 b"

definition enc2 :: "byte \<Rightarrow> byte \<Rightarrow> byte" where
  "enc2 b c = push_bit 2 (take_bit 4 b) OR drop_bit 6 c"

definition enc3 :: "byte \<Rightarrow> byte" where "enc3 c = take_bit 6 c"

fun b64_encode :: "byte list \<Rightarrow> char list" where
  "b64_encode [] = []"
| "b64_encode [a] = [b64_char (enc0 a), b64_char (enc1 a 0), CHR ''='', CHR ''='']"
| "b64_encode [a, b] =
     [b64_char (enc0 a), b64_char (enc1 a b), b64_char (enc2 b 0), CHR ''='']"
| "b64_encode (a # b # c # rest) =
     [b64_char (enc0 a), b64_char (enc1 a b), b64_char (enc2 b c), b64_char (enc3 c)]
     @ b64_encode rest"

text \<open>The table inverts the alphabet: a look at its five runs of data bytes.\<close>

lemma map_nth_slice:
  "j \<le> length xs \<Longrightarrow> map ((!) xs) [i..<j] = take (j - i) (drop i xs)"
  by (rule nth_equalityI) auto

lemma b64_table_runs:
  "take 26 (drop 65 b64_table) = [0..<26]" "take 26 (drop 97 b64_table) = [26..<52]"
  "take 10 (drop 48 b64_table) = [52..<62]" "take (Suc 0) (drop 43 b64_table) = [62]"
  "take (Suc 0) (drop 47 b64_table) = [63]" "take (Suc 0) (drop 61 b64_table) = [65]"
  by (simp_all add: b64_table_def upt_rec)

lemma b64_alphabet_codes:
  "map of_char b64_alphabet = [65..<91] @ [97..<123] @ [48..<58] @ [43..<44] @ [47..<(48::nat)]"
  by (simp add: b64_alphabet_def upt_rec)

lemma b64_d_alphabet: "map b64_d b64_alphabet = [0..<64]"
proof -
  have "map b64_d b64_alphabet = map ((!) b64_table) (map of_char b64_alphabet)"
    by (simp add: b64_d_def)
  also have "\<dots> = [0..<26] @ [26..<52] @ [52..<62] @ [62] @ [63]"
    unfolding b64_alphabet_codes map_append
    by (simp only: map_nth_slice length_b64_table) (simp add: map_nth_slice length_b64_table b64_table_runs)
  also have "\<dots> = [0..<64]" by (simp add: upt_rec)
  finally show ?thesis .
qed

lemma b64_d_char: "unat s < 64 \<Longrightarrow> b64_d (b64_char s) = unat s"
proof -
  assume "unat s < 64"
  moreover have "length b64_alphabet = 64" by (simp add: b64_alphabet_def)
  ultimately have "b64_d (b64_alphabet ! unat s) = map b64_d b64_alphabet ! unat s" by simp
  also have "\<dots> = unat s" using \<open>unat s < 64\<close> by (simp add: b64_d_alphabet)
  finally show ?thesis by (simp add: b64_char_def)
qed

lemma b64_d_equals: "b64_d (CHR ''='') = 65"
  using map_nth_slice [of 62 b64_table 61] b64_table_runs(6)
  by (simp add: length_b64_table b64_d_def)

lemma sextet_word_bound: "unat (w :: byte) < 64 \<longleftrightarrow> \<not> bit w 6 \<and> \<not> bit w 7"
proof
  assume "unat w < 64"
  then show "\<not> bit w 6 \<and> \<not> bit w 7"
    using bit_less_64 [of "unat w" 6] bit_less_64 [of "unat w" 7] by (auto simp: bit_unsigned_iff)
next
  assume nb: "\<not> bit w 6 \<and> \<not> bit w 7"
  have "take_bit 6 w = w"
  proof (rule bit_word_eqI)
    fix n assume "n < LENGTH(8)"
    then have "n < 6 \<or> n = 6 \<or> n = 7" by auto
    with nb show "bit (take_bit 6 w) n = bit w n" by (auto simp: bit_take_bit_iff)
  qed
  then have "take_bit 6 (unat w) = unat w" by (metis unsigned_take_bit_eq)
  then show "unat w < 64" by (simp add: take_bit_nat_eq_self_iff)
qed

lemma byte_bit_high [simp]: "8 \<le> n \<Longrightarrow> \<not> bit (a :: byte) n"
  using bit_imp_le_length [of a n] by auto

lemmas enc_defs = enc0_def enc1_def enc2_def enc3_def

lemma enc_bound [simp]:
  "unat (enc0 a) < 64" "unat (enc1 a b) < 64" "unat (enc2 b c) < 64" "unat (enc3 c) < 64"
  by (simp_all add: sextet_word_bound enc_defs bit_simps)

lemma byte_bits_eq:
  "byte_of_bits [bit a 7, bit a 6, bit a 5, bit a 4, bit a 3, bit a 2, bit a 1, bit a 0] = a"
proof (rule bit_word_eqI)
  fix n assume "n < LENGTH(8)"
  then have n: "n < 8" by simp
  then have "[bit a 0, bit a 1, bit a 2, bit a 3, bit a 4, bit a 5, bit a 6, bit a 7] ! n = bit a n"
    unfolding less_8_cases by (elim insertE emptyE) simp_all
  with n show "bit (byte_of_bits [bit a 7, bit a 6, bit a 5, bit a 4, bit a 3, bit a 2,
      bit a 1, bit a 0]) n = bit a n" by (simp add: bit_byte_of_bits)
qed

lemma spec_enc:
  "b64_spec (unat (enc0 a) # unat (enc1 a b) # unat (enc2 b c) # unat (enc3 c) # ss) =
     a # b # c # b64_spec ss"
  "b64_spec [unat (enc0 a), unat (enc1 a b), unat (enc2 b 0)] = [a, b]"
  "b64_spec [unat (enc0 a), unat (enc1 a 0)] = [a]"
  by (simp_all add: b64_spec_def sextet_bits_def enc_defs bit_simps byte_bits_eq [unfolded One_nat_def])

lemma sextets_data:
  "unat s < 64 \<Longrightarrow> sextets (b64_char s # rest) = map_option ((#) (unat s)) (sextets rest)"
  by (simp add: b64_d_char)

lemma sextets_pad: "sextets (CHR ''='' # rest) = Some []"
  by (simp add: b64_d_equals)

lemma sextets_encode: "\<exists>ss. sextets (b64_encode bs) = Some ss \<and> b64_spec ss = bs"
proof (induction bs rule: b64_encode.induct)
  case (4 a b c rest)
  then show ?case by (auto simp: sextets_data spec_enc simp del: sextets.simps(2))
qed (auto simp: sextets_data sextets_pad spec_enc simp del: sextets.simps(2))

section \<open>Properties\<close>

text \<open>
  C1. The decoder implements its specification: for every input and every output size the
  result is the byte sequence of the input's six-bit groups, provided the input is valid up to
  its end mark and the bytes fit the output, and an error otherwise. In particular no byte
  beyond the stated size is ever produced, and the reported length is the number of bytes.
\<close>

theorem base64decode_refines_spec:
  "base64decode inp cap =
    (case sextets inp of
       None \<Rightarrow> None
     | Some ss \<Rightarrow>
         if length (b64_spec ss) \<le> cap then Some (b64_spec ss, length (b64_spec ss)) else None)"
proof -
  have inv: "b64_inv cap [] b64_start" by (simp add: b64_inv_def b64_start_def)
  show ?thesis
    unfolding base64decode_alt
    by (subst loop_spec [OF inv]) (simp add: b64_start_def fits_def split: option.split)
qed

text \<open>
  C2. Round trip: whatever bytes the overall parent encodes with the RFC 4648 encoder, the
  decoder gives back exactly those bytes and their number, as soon as the output has room for
  them.
\<close>

theorem base64decode_encode:
  assumes "length bs \<le> cap"
  shows "base64decode (b64_encode bs) cap = Some (bs, length bs)"
proof -
  from sextets_encode obtain ss where "sextets (b64_encode bs) = Some ss" and "b64_spec ss = bs"
    by blast
  with assms show ?thesis by (simp add: base64decode_refines_spec)
qed

theorem base64decode_encode_witness:
  "length [104, 105, 33, 0 :: byte] \<le> 4 \<and>
   base64decode (b64_encode [104, 105, 33, 0]) 4 = Some ([104, 105, 33, 0], 4)"
  using base64decode_encode [of "[104, 105, 33, 0]" 4] by simp

text \<open>How long the decoded data can be: three quarters of the input, rounded up.\<close>

lemma length_bytes_of_bits: "8 * length (bytes_of_bits bs) \<le> length bs"
  by (induction bs rule: bytes_of_bits.induct) auto

lemma length_concat_sextets: "length (concat (map sextet_bits ss)) = 6 * length ss"
  by (induction ss) (auto simp: sextet_bits_def)

lemma length_b64_spec: "4 * length (b64_spec ss) \<le> 3 * length ss"
  using length_bytes_of_bits [of "concat (map sextet_bits ss)"]
  by (simp add: b64_spec_def length_concat_sextets)

lemma length_sextets: "sextets inp = Some ss \<Longrightarrow> length ss \<le> length inp"
proof (induction inp arbitrary: ss rule: sextets.induct)
  case (2 ch rest)
  then show ?case by (fastforce simp: Let_def split: if_splits)
qed simp

lemma decode_room:
  assumes "length inp \<le> cap"
  shows "base64decode inp cap = map_option (\<lambda>ss. (b64_spec ss, length (b64_spec ss))) (sextets inp)"
proof (cases "sextets inp")
  case None
  then show ?thesis by (simp add: base64decode_refines_spec)
next
  case (Some ss)
  from length_b64_spec [of ss] length_sextets [OF Some] assms
  have "length (b64_spec ss) \<le> cap" by linarith
  with Some show ?thesis by (simp add: base64decode_refines_spec)
qed

end
