(* ===== verification/Json.thy ===== *)
theory Json
  imports Prelude
begin

text \<open>
  JSON values and the json-c library. The values are the ones json-c tells apart
  (\<open>enum json_type\<close>); a \<open>json_object *\<close> that is \<open>NULL\<close> is also how json-c
  represents the JSON null, hence \<open>JNull\<close>. What json-c computes is not part of this
  repository: its functions are a parameter of every definition that calls them, and what
  the proofs rely on is collected in \<open>json_c_ok\<close>, from the documentation of
  \<open>json_object.h\<close> and \<open>json_tokener.h\<close>.
\<close>

section \<open>Values\<close>

datatype json =
    JNull
  | JBoolean bool
  | JDouble string
  | JInt int
  | JObject "(string \<times> json) list"
  | JArray "json list"
  | JString string

definition is_object :: "json \<Rightarrow> bool" where
  "is_object j = (case j of JObject _ \<Rightarrow> True | _ \<Rightarrow> False)"

definition is_array :: "json \<Rightarrow> bool" where
  "is_array j = (case j of JArray _ \<Rightarrow> True | _ \<Rightarrow> False)"

definition is_int :: "json \<Rightarrow> bool" where
  "is_int j = (case j of JInt _ \<Rightarrow> True | _ \<Rightarrow> False)"

definition is_string :: "json \<Rightarrow> bool" where
  "is_string j = (case j of JString _ \<Rightarrow> True | _ \<Rightarrow> False)"

lemma is_type_simps [simp]:
  "is_object (JObject kvs)" "is_array (JArray xs)" "is_int (JInt n)" "is_string (JString s)"
  by (simp_all add: is_object_def is_array_def is_int_def is_string_def)

lemma is_typeE:
  "is_object j \<Longrightarrow> (\<And>kvs. j = JObject kvs \<Longrightarrow> P) \<Longrightarrow> P"
  "is_array j \<Longrightarrow> (\<And>xs. j = JArray xs \<Longrightarrow> P) \<Longrightarrow> P"
  "is_int j \<Longrightarrow> (\<And>n. j = JInt n \<Longrightarrow> P) \<Longrightarrow> P"
  "is_string j \<Longrightarrow> (\<And>s. j = JString s \<Longrightarrow> P) \<Longrightarrow> P"
  by (cases j; simp add: is_object_def is_array_def is_int_def is_string_def)+

section \<open>The library\<close>

text \<open>
  The functions of json-c the sources call. \<open>tokener_parse\<close> gives \<open>JNull\<close> for a text
  that is not JSON; \<open>get_ex\<close> is \<open>json_object_object_get_ex\<close>, \<open>None\<close> where it returns
  false (it then stores \<open>NULL\<close>); \<open>get_string\<close> gives \<open>None\<close> for a null pointer.
\<close>

record json_c =
  tokener_parse :: "string \<Rightarrow> json"
  to_json_string :: "json \<Rightarrow> string"
  get_ex :: "json \<Rightarrow> string \<Rightarrow> json option"
  get_int :: "json \<Rightarrow> int"
  get_int64 :: "json \<Rightarrow> int"
  get_boolean :: "json \<Rightarrow> bool"
  get_string :: "json \<Rightarrow> string option"
  get_string_len :: "json \<Rightarrow> nat"
  array_length :: "json \<Rightarrow> nat"
  array_get_idx :: "json \<Rightarrow> nat \<Rightarrow> json"

text \<open>\<open>json_object_get_int\<close> cuts off at the bounds of \<open>int32_t\<close>, the 64-bit one at its own.\<close>

definition clamp :: "nat \<Rightarrow> int \<Rightarrow> int" where
  "clamp w n = max (- (2 ^ (w - 1))) (min (2 ^ (w - 1) - 1) n)"

lemma clamp_id: "- (2 ^ (w - 1)) \<le> n \<Longrightarrow> n < 2 ^ (w - 1) \<Longrightarrow> clamp w n = n"
  by (simp add: clamp_def)

lemma clamp_bounds: "- (2 ^ (w - 1)) \<le> clamp w n" "clamp w n < 2 ^ (w - 1)"
  by (auto simp: clamp_def)

text \<open>
  The documented behaviour: lookups in an object find its members and nothing elsewhere, the
  accessors give the value of the type they are named for, and arrays are indexed from 0.
  Nothing is said of the parser, nor of accessors applied to values of another type except
  that a null pointer has no members, no text and the number 0.
\<close>

definition json_c_ok :: "json_c \<Rightarrow> bool" where
  "json_c_ok jc \<longleftrightarrow>
     (\<forall>kvs k. get_ex jc (JObject kvs) k = map_of kvs k) \<and>
     (\<forall>j k. \<not> is_object j \<longrightarrow> get_ex jc j k = None) \<and>
     (\<forall>n. get_int jc (JInt n) = clamp 32 n) \<and>
     (\<forall>n. get_int64 jc (JInt n) = clamp 64 n) \<and>
     get_int jc JNull = 0 \<and>
     (\<forall>b. get_boolean jc (JBoolean b) = b) \<and>
     (\<forall>s. get_string jc (JString s) = Some s) \<and>
     get_string jc JNull = None \<and>
     (\<forall>s. get_string_len jc (JString s) = length s) \<and>
     (\<forall>xs. array_length jc (JArray xs) = length xs) \<and>
     (\<forall>xs i. array_get_idx jc (JArray xs) i = (if i < length xs then xs ! i else JNull))"

lemma json_c_okD [simp]:
  assumes "json_c_ok jc"
  shows "get_ex jc (JObject kvs) k = map_of kvs k"
    and "get_int jc (JInt n) = clamp 32 n" and "get_int64 jc (JInt n) = clamp 64 n"
    and "get_int jc JNull = 0"
    and "get_boolean jc (JBoolean b) = b" and "get_string jc (JString s) = Some s"
    and "get_string jc JNull = None" and "get_string_len jc (JString s) = length s"
    and "array_length jc (JArray xs) = length xs"
    and "array_get_idx jc (JArray xs) i = (if i < length xs then xs ! i else JNull)"
  using assms unfolding json_c_ok_def by blast+

lemma get_ex_no_object: "json_c_ok jc \<Longrightarrow> \<not> is_object j \<Longrightarrow> get_ex jc j k = None"
  unfolding json_c_ok_def by blast

lemma get_ex_simps [simp]:
  assumes "json_c_ok jc"
  shows "get_ex jc JNull k = None" "get_ex jc (JString s) k = None"
    "get_ex jc (JArray xs) k = None" "get_ex jc (JInt n) k = None"
    "get_ex jc (JBoolean b) k = None"
  using assms by (simp_all add: get_ex_no_object is_object_def)

section \<open>A json-c to run the model with\<close>

text \<open>
  An instance with the documented behaviour and a given parser, for evaluating the model on
  concrete inputs.
\<close>

definition json_c_with :: "(string \<Rightarrow> json) \<Rightarrow> json_c" where
  "json_c_with p = \<lparr>
     tokener_parse = p,
     to_json_string = (\<lambda>_. ''{}''),
     get_ex = (\<lambda>j k. case j of JObject kvs \<Rightarrow> map_of kvs k | _ \<Rightarrow> None),
     get_int = (\<lambda>j. case j of JInt n \<Rightarrow> clamp 32 n | _ \<Rightarrow> 0),
     get_int64 = (\<lambda>j. case j of JInt n \<Rightarrow> clamp 64 n | _ \<Rightarrow> 0),
     get_boolean = (\<lambda>j. case j of JBoolean b \<Rightarrow> b | _ \<Rightarrow> False),
     get_string = (\<lambda>j. case j of JString s \<Rightarrow> Some s | _ \<Rightarrow> None),
     get_string_len = (\<lambda>j. case j of JString s \<Rightarrow> length s | _ \<Rightarrow> 0),
     array_length = (\<lambda>j. case j of JArray xs \<Rightarrow> length xs | _ \<Rightarrow> 0),
     array_get_idx = (\<lambda>j i. case j of JArray xs \<Rightarrow> if i < length xs then xs ! i else JNull
                              | _ \<Rightarrow> JNull)\<rparr>"

lemma json_c_with_ok [simp]: "json_c_ok (json_c_with p)"
  unfolding json_c_ok_def json_c_with_def
  by (intro conjI allI impI) (simp_all add: is_object_def split: json.splits)

lemma json_c_with_sel [simp]:
  "tokener_parse (json_c_with p) = p" "to_json_string (json_c_with p) j = ''{}''"
  by (simp_all add: json_c_with_def)

end
