(* ===== verification/Rpc.thy ===== *)
theory Rpc
  imports Base64 Json
begin

text \<open>
  The remote procedure calls of the parent process to the program that started it
  (\<open>sblibc.c\<close>): one JSON text per line out through \<open>PIPEOUT\<close>, one line back in through
  \<open>PIPEIN\<close>, and \<open>trampoline\<close>, which frames a request, waits for the reply and takes it
  apart. Every virtualised system call goes through it.
\<close>

section \<open>The two pipes\<close>

text \<open>
  \<open>pipe_in\<close> is what the overall parent writes and this process has not read yet, up to the
  point where it closes its end; \<open>pipe_out\<close> is what this process has written.
  \<open>out_error\<close> is set when a write to \<open>PIPEOUT\<close> fails, with the errno it fails with;
  \<open>out_eof\<close> is the stream's end-of-file flag. \<open>errno\<close> is the C variable.
\<close>

record rpc =
  pipe_in :: string
  pipe_out :: string
  out_error :: "int option"
  out_eof :: bool
  errno :: int

abbreviation (input) "newline \<equiv> CHR 0x0A"

text \<open>\<open>fprintf(pipeout, "%s\n", json)\<close> followed by the flush and the \<open>feof\<close> test.\<close>

definition writejson :: "string \<Rightarrow> 'a rpc_scheme \<Rightarrow> int \<times> 'a rpc_scheme" where
  "writejson txt s =
    (let (r, s1) = (case out_error s of
           None \<Rightarrow> (int (strlen txt) + 1, s\<lparr>pipe_out := pipe_out s @ cstr txt @ [newline]\<rparr>)
         | Some e \<Rightarrow> (-1, s\<lparr>errno := e\<rparr>))
     in if out_eof s1 then (-1, s1\<lparr>errno := EIO\<rparr>) else (r, s1))"

text \<open>
  \<open>fgets\<close> with room for \<open>n\<close> characters: the line with its newline, or \<open>n\<close> characters of
  a longer one, or what is left before the end of file; the rest; and whether the end of file
  was met.
\<close>

definition fgets :: "nat \<Rightarrow> string \<Rightarrow> string \<times> string \<times> bool" where
  "fgets n inp =
    (let line = takeWhile (\<lambda>c. c \<noteq> newline) inp; k = length line in
     if k < n \<and> k < length inp then (line @ [newline], drop (k + 1) inp, False)
     else if length inp < n then (inp, [], True)
     else (take n inp, drop n inp, False))"

text \<open>
  \<open>readjson\<close> with a buffer of 65536 bytes: the return code and what is stored through
  \<open>out\<close>. A line cut short by the end of file is an error; the text parsed is a C string.
\<close>

definition readjson :: "json_c \<Rightarrow> 'a rpc_scheme \<Rightarrow> (int \<times> json) \<times> 'a rpc_scheme" where
  "readjson jc s =
    (let (line, rest, eof) = fgets 65535 (pipe_in s); s1 = s\<lparr>pipe_in := rest\<rparr> in
     if line = [] \<and> eof then ((-1, JNull), s1)
     else if eof then ((-1, JNull), s1\<lparr>errno := EIO\<rparr>)
     else ((0, tokener_parse jc (cstr line)), s1))"

section \<open>The trampoline\<close>

abbreviation (input) "NS_SYS \<equiv> (0::int)"
abbreviation (input) "NS_SB \<equiv> (1::int)"
abbreviation (input) "NS_APP \<equiv> (2::int)"

text \<open>
  The prefix the \<open>switch\<close> copies into the fresh buffer. For any other namespace the buffer
  is used without having been written.
\<close>

definition ns_prefix :: "int \<Rightarrow> string option" where
  "ns_prefix ns =
    (if ns = NS_SYS then Some ''sys.''
     else if ns = NS_SB then Some ''sb.''
     else if ns = NS_APP then Some ''app.''
     else None)"

text \<open>The static \<open>id\<close>: initialised to 0, and nothing assigns it afterwards.\<close>

definition request_id :: int where "request_id = 0"

definition callinfo :: "string \<Rightarrow> json \<Rightarrow> json" where
  "callinfo name args =
     JObject [(''jsonrpc'', JString ''2.0''), (''method'', JString name),
              (''params'', args), (''id'', JInt request_id)]"

text \<open>
  The variable arguments: all of them with \<open>numargs\<close> = -1, where there is one, an array;
  otherwise the first \<open>numargs\<close>. Fetching more than were passed is undefined.
\<close>

definition call_args :: "int \<Rightarrow> json list \<Rightarrow> json option" where
  "call_args numargs vargs =
    (if numargs = -1 then (case vargs of [] \<Rightarrow> None | a # _ \<Rightarrow> Some a)
     else if nat numargs \<le> length vargs then Some (JArray (take (nat numargs) vargs))
     else None)"

definition opt_json :: "json option \<Rightarrow> json" where
  "opt_json v = (case v of Some j \<Rightarrow> j | None \<Rightarrow> JNull)"

text \<open>
  What is done with a response: an \<open>error\<close> member sets errno and returns -1, with the error
  object as output; a \<open>result\<close> member gives the code and, when output is wanted, the data,
  decoded when it is marked as base64; anything else ends the process.
\<close>

definition decode_data :: "json_c \<Rightarrow> json \<Rightarrow> json \<Rightarrow> ('s, json) prog" where
  "decode_data jc json_data out =
    (case get_ex jc json_data ''base64'' of
       Some flag \<Rightarrow>
         if get_boolean jc flag then
           bnd (need (get_string jc out) (fault_with Null_Deref)) (\<lambda>b64.
           case base64decode (cstr b64) (get_string_len jc out + 1) of
             None \<Rightarrow> exit_with EPROTO
           | Some (buf, len) \<Rightarrow> ret (JString (map char_of_byte buf)))
         else ret out
     | None \<Rightarrow> ret out)"

definition handle_response ::
  "json_c \<Rightarrow> bool \<Rightarrow> json \<Rightarrow> ('a rpc_scheme, int \<times> json) prog" where
  "handle_response jc want response s =
    (case get_ex jc response ''error'' of
       Some json_data \<Rightarrow>
         let e = get_int jc (opt_json (get_ex jc json_data ''code'')); s1 = s\<lparr>errno := e\<rparr> in
         if -32768 \<le> e \<and> e \<le> -32000 then (Exit EPROTO, s1)
         else (Ret (-1, if want then json_data else JNull), s1)
     | None \<Rightarrow>
        (case get_ex jc response ''result'' of
           Some json_data \<Rightarrow>
             let s1 = s\<lparr>errno := 0\<rparr>; r = get_int jc (opt_json (get_ex jc json_data ''code'')) in
             if want then
               bnd (decode_data jc json_data (opt_json (get_ex jc json_data ''data'')))
                   (\<lambda>out. ret (r, out)) s1
             else (Ret (r, JNull), s1)
         | None \<Rightarrow> (Exit EPROTO, s)))"

text \<open>
  \<open>trampoline(out, ns, fname, numargs, ...)\<close>: \<open>want\<close> says that \<open>out\<close> is not null. The
  result is the return value and what \<open>*out\<close> holds.
\<close>

definition trampoline ::
  "json_c \<Rightarrow> bool \<Rightarrow> int \<Rightarrow> string \<Rightarrow> int \<Rightarrow> json list \<Rightarrow> ('a rpc_scheme, int \<times> json) prog" where
  "trampoline jc want ns fname numargs vargs =
    bnd (need (ns_prefix ns) (fault_with Uninitialised)) (\<lambda>prefix.
    bnd (need (call_args numargs vargs) (fault_with Uninitialised)) (\<lambda>args s.
    let (w, s1) = writejson (to_json_string jc (callinfo (prefix @ fname) args)) s in
    if w < 0 then (Exit (- errno s1), s1)
    else
      let ((r, response), s2) = readjson jc s1 in
      if r < 0 then (Exit (- errno s2), s2)
      else handle_response jc want response s2))"

section \<open>Reading a line\<close>

lemma fgets_line [simp]:
  assumes "newline \<notin> set l" and "length l < n"
  shows "fgets n (l @ newline # rest) = (l @ [newline], rest, False)"
proof -
  have "takeWhile (\<lambda>c. c \<noteq> newline) (l @ newline # rest) = l"
    using assms(1) by (induction l) auto
  with assms(2) show ?thesis by (simp add: fgets_def)
qed

lemma fgets_split:
  assumes "fgets n inp = (line, rest, eof)"
  shows "inp = line @ rest \<and> length line \<le> n \<and> (eof \<longrightarrow> rest = []) \<and> (\<not> eof \<and> 0 < n \<longrightarrow> line \<noteq> [])"
proof -
  let ?l = "takeWhile (\<lambda>c. c \<noteq> newline) inp"
  have nl: "length ?l < length inp \<Longrightarrow> inp = ?l @ [newline] @ drop (length ?l + 1) inp"
    using takeWhile_eq_take [of "\<lambda>c. c \<noteq> newline" inp] nth_length_takeWhile [of "\<lambda>c. c \<noteq> newline" inp]
    by (metis append_Cons append_Nil append_take_drop_id Cons_nth_drop_Suc Suc_eq_plus1)
  show ?thesis
    using assms nl by (auto simp: fgets_def Let_def split: if_splits)
qed

lemma writejson_ok:
  assumes "out_error s = None" and "\<not> out_eof s"
  shows "writejson txt s =
    (int (strlen txt) + 1, s\<lparr>pipe_out := pipe_out s @ cstr txt @ [newline]\<rparr>)"
  using assms by (simp add: writejson_def)

lemma writejson_fails: "fst (writejson txt s) < 0 \<longleftrightarrow> out_error s \<noteq> None \<or> out_eof s"
  by (auto simp: writejson_def Let_def split: option.splits prod.splits if_splits)

text \<open>
  One call, when the request can be written: the request line goes out, one line comes in,
  and the response it holds is handled.
\<close>

lemma trampoline_run:
  assumes "ns_prefix ns = Some prefix" and "call_args numargs vargs = Some args"
    and "out_error s = None" and "\<not> out_eof s"
    and "fgets 65535 (pipe_in s) = (line, rest, False)"
  shows "trampoline jc want ns fname numargs vargs s =
    handle_response jc want (tokener_parse jc (cstr line))
      (s\<lparr>pipe_out := pipe_out s @ cstr (to_json_string jc (callinfo (prefix @ fname) args)) @ [newline],
         pipe_in := rest\<rparr>)"
  using assms by (simp add: trampoline_def writejson_ok readjson_def)

text \<open>
  The overall parent answers: the request can be written, and the next line, of less than
  65535 bytes, parses to \<open>reply\<close>; \<open>rest\<close> is what follows it. \<open>sent\<close> is the state after the
  exchange.
\<close>

definition peer_answers :: "json_c \<Rightarrow> 'a rpc_scheme \<Rightarrow> json \<Rightarrow> string \<Rightarrow> bool" where
  "peer_answers jc s reply rest \<longleftrightarrow>
     out_error s = None \<and> \<not> out_eof s \<and>
     (let line = takeWhile (\<lambda>c. c \<noteq> newline) (pipe_in s) in
      pipe_in s = line @ newline # rest \<and> length line < 65535 \<and>
      tokener_parse jc (cstr (line @ [newline])) = reply)"

definition sent :: "json_c \<Rightarrow> string \<Rightarrow> json \<Rightarrow> string \<Rightarrow> 'a rpc_scheme \<Rightarrow> 'a rpc_scheme" where
  "sent jc name args rest s =
     s\<lparr>pipe_out := pipe_out s @ cstr (to_json_string jc (callinfo name args)) @ [newline],
       pipe_in := rest\<rparr>"

lemma sent_sel [simp]:
  fixes s :: "'a rpc_scheme"
  shows "pipe_in (sent jc name args rest s) = rest"
    "pipe_out (sent jc name args rest s) =
      pipe_out s @ cstr (to_json_string jc (callinfo name args)) @ [newline]"
    "out_error (sent jc name args rest s) = out_error s" "out_eof (sent jc name args rest s) = out_eof s"
    "errno (sent jc name args rest s) = errno s"
    "rpc.more (sent jc name args rest s) = rpc.more s"
  by (simp_all add: sent_def)

lemma trampoline_answered:
  assumes "peer_answers jc s reply rest"
    and "ns_prefix ns = Some prefix" and "call_args numargs vargs = Some args"
  shows "trampoline jc want ns fname numargs vargs s =
    handle_response jc want reply (sent jc (prefix @ fname) args rest s)"
proof -
  let ?line = "takeWhile (\<lambda>c. c \<noteq> newline) (pipe_in s)"
  have "newline \<notin> set ?line" by (metis (mono_tags, lifting) set_takeWhileD)
  moreover have "pipe_in s = ?line @ newline # rest" "length ?line < 65535"
    using assms(1) by (simp_all add: peer_answers_def Let_def)
  ultimately have "fgets 65535 (pipe_in s) = (?line @ [newline], rest, False)"
    by (metis fgets_line)
  from trampoline_run [OF assms(2,3) _ _ this] assms(1) show ?thesis
    by (simp add: peer_answers_def sent_def Let_def)
qed

text \<open>The members of a result object and of an error object.\<close>

definition result_of :: "json \<Rightarrow> (string \<times> json) list option" where
  "result_of reply =
    (case reply of
       JObject mem \<Rightarrow>
         (case (map_of mem ''error'', map_of mem ''result'') of
            (None, Some (JObject res)) \<Rightarrow> Some res
          | _ \<Rightarrow> None)
     | _ \<Rightarrow> None)"

definition error_of :: "json \<Rightarrow> (string \<times> json) list option" where
  "error_of reply =
    (case reply of
       JObject mem \<Rightarrow> (case map_of mem ''error'' of Some (JObject err) \<Rightarrow> Some err | _ \<Rightarrow> None)
     | _ \<Rightarrow> None)"

lemma result_ofE:
  assumes "result_of reply = Some res"
  obtains mem where "reply = JObject mem" "map_of mem ''error'' = None"
    "map_of mem ''result'' = Some (JObject res)"
  using assms unfolding result_of_def
  by (cases reply) (simp_all split: option.splits json.splits)

lemma error_ofE:
  assumes "error_of reply = Some err"
  obtains mem where "reply = JObject mem" "map_of mem ''error'' = Some (JObject err)"
  using assms unfolding error_of_def
  by (cases reply) (simp_all split: option.splits json.splits)

lemma handle_result:
  assumes "json_c_ok jc" and "result_of reply = Some res" and "map_of res ''code'' = Some (JInt c)"
  shows "handle_response jc want reply s =
    (if want then
       bnd (decode_data jc (JObject res) (opt_json (map_of res ''data'')))
         (\<lambda>out. ret (clamp 32 c, out)) (s\<lparr>errno := 0\<rparr>)
     else (Ret (clamp 32 c, JNull), s\<lparr>errno := 0\<rparr>))"
  using assms by (elim result_ofE) (simp add: handle_response_def opt_json_def Let_def)

lemma handle_error:
  assumes "json_c_ok jc" and "error_of reply = Some err" and "map_of err ''code'' = Some (JInt e)"
  shows "handle_response jc want reply s =
    (if -32768 \<le> e \<and> e \<le> -32000 then Exit EPROTO
     else Ret (-1, if want then JObject err else JNull), s\<lparr>errno := clamp 32 e\<rparr>)"
proof -
  have "-32768 \<le> clamp 32 e \<and> clamp 32 e \<le> -32000 \<longleftrightarrow> -32768 \<le> e \<and> e \<le> -32000"
    by (auto simp: clamp_def)
  with assms show ?thesis
    by (elim error_ofE) (simp add: handle_response_def opt_json_def Let_def)
qed

text \<open>Handling a response touches errno and nothing else.\<close>

lemma decode_data_frame: "decode_data jc d out s = (r, s') \<Longrightarrow> s' = s"
  by (auto simp: decode_data_def bnd_def need_def split: option.splits if_splits prod.splits outcome.splits)

lemma handle_response_frame:
  fixes s :: "'a rpc_scheme"
  assumes "handle_response jc want response s = (r, s')"
  shows "pipe_in s' = pipe_in s \<and> pipe_out s' = pipe_out s \<and> out_error s' = out_error s \<and>
    out_eof s' = out_eof s \<and> rpc.more s' = rpc.more s"
  using assms
  by (auto simp: handle_response_def bnd_def Let_def dest!: decode_data_frame
      split: option.splits if_splits prod.splits outcome.splits)

text \<open>A call that returns has written its request and read one non-empty line.\<close>

lemma trampoline_RetD:
  assumes "trampoline jc want ns fname numargs vargs s = (Ret v, s')"
  obtains prefix args line rest where
    "ns_prefix ns = Some prefix" "call_args numargs vargs = Some args"
    "out_error s = None" "\<not> out_eof s"
    "fgets 65535 (pipe_in s) = (line, rest, False)"
    "handle_response jc want (tokener_parse jc (cstr line))
      (s\<lparr>pipe_out := pipe_out s @ cstr (to_json_string jc (callinfo (prefix @ fname) args)) @ [newline],
         pipe_in := rest\<rparr>) = (Ret v, s')"
proof -
  obtain prefix args where p: "ns_prefix ns = Some prefix" and a: "call_args numargs vargs = Some args"
    using assms by (auto simp: trampoline_def ret_iffs)
  have w: "\<not> fst (writejson (to_json_string jc (callinfo (prefix @ fname) args)) s) < 0"
    using assms p a by (auto simp: trampoline_def Let_def split: prod.splits if_splits)
  then have o: "out_error s = None" "\<not> out_eof s" by (simp_all add: writejson_fails)
  obtain line rest eof where f: "fgets 65535 (pipe_in s) = (line, rest, eof)"
    by (metis prod_cases3)
  have "\<not> eof"
    using assms p a o f
    by (auto simp: trampoline_def writejson_ok readjson_def Let_def split: if_splits)
  with f have f': "fgets 65535 (pipe_in s) = (line, rest, False)" by simp
  show thesis
    using assms that [OF p a o f'] trampoline_run [OF p a o f'] by simp
qed

text \<open>Fields added to this state by other components are never touched, however a call ends.\<close>

lemma writejson_more: "rpc.more (snd (writejson txt s)) = rpc.more s"
  by (simp add: writejson_def Let_def split: option.split)

lemma readjson_more: "rpc.more (snd (readjson jc s)) = rpc.more s"
  by (simp add: readjson_def Let_def split: prod.split)

lemma trampoline_more:
  fixes s :: "'a rpc_scheme"
  shows "rpc.more (snd (trampoline jc want ns fname numargs vargs s)) = rpc.more s"
proof -
  have h: "rpc.more (snd (handle_response jc want r t)) = rpc.more t" for r and t :: "'a rpc_scheme"
    using handle_response_frame [of jc want r t] by (metis prod.collapse)
  show ?thesis
  proof (cases "ns_prefix ns"; cases "call_args numargs vargs")
    fix prefix args
    assume p: "ns_prefix ns = Some prefix" "call_args numargs vargs = Some args"
    let ?txt = "to_json_string jc (callinfo (prefix @ fname) args)"
    obtain w s1 where w: "writejson ?txt s = (w, s1)" by (metis surj_pair)
    obtain r response s2 where r: "readjson jc s1 = ((r, response), s2)" by (metis surj_pair)
    have "rpc.more s1 = rpc.more s" "rpc.more s2 = rpc.more s1"
      using writejson_more [of ?txt s] readjson_more [of jc s1] by (simp_all add: w r)
    then show ?thesis by (simp add: trampoline_def p w r h)
  qed (simp_all add: trampoline_def)
qed

text \<open>What a call that returns leaves behind, in one place.\<close>

lemma trampoline_frame:
  fixes s :: "'a rpc_scheme"
  assumes "trampoline jc want ns fname numargs vargs s = (Ret v, s')"
  obtains prefix args line where
    "ns_prefix ns = Some prefix" "call_args numargs vargs = Some args"
    "pipe_out s' = pipe_out s @ cstr (to_json_string jc (callinfo (prefix @ fname) args)) @ [newline]"
    "pipe_in s = line @ pipe_in s'" "line \<noteq> []" "length line \<le> 65535"
    "rpc.more s' = rpc.more s" "out_error s' = None" "\<not> out_eof s'"
proof -
  from assms obtain prefix args line rest where
    *: "ns_prefix ns = Some prefix" "call_args numargs vargs = Some args"
       "out_error s = None" "\<not> out_eof s" and
    f: "fgets 65535 (pipe_in s) = (line, rest, False)" and
    h: "handle_response jc want (tokener_parse jc (cstr line))
      (s\<lparr>pipe_out := pipe_out s @ cstr (to_json_string jc (callinfo (prefix @ fname) args)) @ [newline],
         pipe_in := rest\<rparr>) = (Ret v, s')"
    by (rule trampoline_RetD)
  show thesis
    using handle_response_frame [OF h] fgets_split [OF f] * by (intro that [OF *(1,2)]) auto
qed

lemma trampoline_progress:
  "trampoline jc want ns fname numargs vargs s = (Ret v, s') \<Longrightarrow>
   length (pipe_in s') < length (pipe_in s)"
  by (erule trampoline_frame) auto

text \<open>Whatever the peer sends, no buffer of the trampoline is overrun.\<close>

lemma decode_data_never: "never Out_Of_Bounds (decode_data jc d out)"
  by (auto simp: decode_data_def intro!: never_intros split: option.split)

lemma trampoline_never:
  "never Out_Of_Bounds (trampoline jc want ns fname numargs vargs :: ('a rpc_scheme, int \<times> json) prog)"
proof -
  have d: "never Out_Of_Bounds
      (bnd (decode_data jc d out) (\<lambda>out. ret (c, out)) :: ('a rpc_scheme, int \<times> json) prog)" for d out and c :: int
    by (intro never_bnd never_ret decode_data_never)
  have "never Out_Of_Bounds (handle_response jc want r :: ('a rpc_scheme, int \<times> json) prog)" for r
    unfolding never_def [of _ "handle_response jc want r"]
    by (auto simp: handle_response_def Let_def never_run [OF d] split: option.split)
  then show ?thesis
    unfolding trampoline_def
    by (intro never_intros fault.distinct) (auto simp: never_def Let_def split: prod.split)
qed

lemma cstr_newline: "CHR 0x00 \<notin> set l \<Longrightarrow> cstr (l @ [newline]) = l @ [newline]"
  by (intro cstr_id) auto

section \<open>Encoded data\<close>

lemma b64_char_no_nul: "unat s < 64 \<Longrightarrow> b64_char s \<noteq> CHR 0x00"
proof
  assume "unat s < 64" and z: "b64_char s = CHR 0x00"
  have "b64_alphabet ! unat s \<in> set b64_alphabet"
    using \<open>unat s < 64\<close> by (intro nth_mem) (simp add: b64_alphabet_def)
  then have "CHR 0x00 \<in> set b64_alphabet" using z by (simp add: b64_char_def)
  then show False by (simp add: b64_alphabet_def)
qed

lemma b64_encode_no_nul: "CHR 0x00 \<notin> set (b64_encode bs)"
  by (induction bs rule: b64_encode.induct)
     (auto simp: b64_char_no_nul dest: sym [THEN b64_char_no_nul [THEN notE, rotated]])

text \<open>
  The buffer \<open>trampoline\<close> allocates for the decoded data has one byte more than the text; the
  decoder can therefore only refuse a text that is not base64.
\<close>

lemma decode_data_text:
  assumes "json_c_ok jc" and "get_ex jc d ''base64'' = Some (JBoolean True)"
  shows "decode_data jc d (JString t) s =
    (case sextets (cstr t) of
       None \<Rightarrow> (Exit EPROTO, s)
     | Some ss \<Rightarrow> (Ret (JString (map char_of_byte (b64_spec ss))), s))"
proof -
  have "length (cstr t) \<le> length t + 1"
    using strlen_le [of t] by (simp add: strlen_def)
  from decode_room [OF this] assms show ?thesis
    by (simp add: decode_data_def split: option.split)
qed

lemma decode_data_plain:
  assumes "get_ex jc d ''base64'' = None"
  shows "decode_data jc d out s = (Ret out, s)"
  using assms by (simp add: decode_data_def)

section \<open>Properties\<close>


text \<open>A state whose next line is \<open>{1}\<close>, to run calls with; the parser decides what it says.\<close>

definition demo_state :: rpc where
  "demo_state = \<lparr>pipe_in = ''{1}'' @ newline # ''x'', pipe_out = [], out_error = None,
     out_eof = False, errno = 5\<rparr>"

definition demo_reply :: json where
  "demo_reply = JObject [(''result'', JObject [(''code'', JInt 2),
     (''data'', JString ''aGk=''), (''base64'', JBoolean True)])]"

lemma demo_answers: "peer_answers (json_c_with (\<lambda>_. reply)) demo_state reply ''x''"
  by (simp add: peer_answers_def demo_state_def)

lemmas demo_run = trampoline_answered [OF demo_answers, of NS_SYS "''sys.''"]


text \<open>
  C4. Binary data survives the way from the overall parent: when the answer is a result whose
  data is the base64 text of some bytes, the call returns the result's code and exactly those
  bytes, errno is 0 and the rest of the input is untouched.
\<close>

theorem trampoline_base64:
  assumes ok: "json_c_ok jc"
    and call: "ns_prefix ns = Some prefix" "call_args numargs vargs = Some args"
    and answer: "peer_answers jc s reply rest" "result_of reply = Some res"
    and res: "map_of res ''code'' = Some (JInt c)" "- (2 ^ 31) \<le> c" "c < 2 ^ 31"
      "map_of res ''data'' = Some (JString (b64_encode bs))"
      "map_of res ''base64'' = Some (JBoolean True)"
  shows "trampoline jc True ns fname numargs vargs s =
    (Ret (c, JString (map char_of_byte bs)), (sent jc (prefix @ fname) args rest s)\<lparr>errno := 0\<rparr>)"
proof -
  obtain ss where ss: "sextets (b64_encode bs) = Some ss" "b64_spec ss = bs"
    using sextets_encode by blast
  have "cstr (b64_encode bs) = b64_encode bs" by (simp add: b64_encode_no_nul)
  with ss ok res(5) have "decode_data jc (JObject res) (JString (b64_encode bs)) st =
      (Ret (JString (map char_of_byte bs)), st)" for st :: "'a rpc_scheme"
    by (simp add: decode_data_text)
  moreover have "clamp 32 c = c" using res(2,3) by (simp add: clamp_def)
  ultimately show ?thesis
    using res by (simp add: trampoline_answered [OF answer(1) call]
        handle_result [OF ok answer(2) res(1)] opt_json_def)
qed

theorem trampoline_base64_witness:
  "trampoline (json_c_with (\<lambda>_. demo_reply)) True NS_SYS ''read'' 1 [JInt 7] demo_state =
    (Ret (2, JString ''hi''),
     (sent (json_c_with (\<lambda>_. demo_reply)) ''sys.read'' (JArray [JInt 7]) ''x'' demo_state)\<lparr>errno := 0\<rparr>)"
proof -
  have b: "b64_encode [104, 105] = ''aGk=''"
    by (simp add: b64_char_def enc_defs b64_alphabet_def)
  have h: "map char_of_byte [104, 105] = ''hi''" by code_simp
  let ?res = "[(''code'', JInt 2), (''data'', JString ''aGk=''), (''base64'', JBoolean True)]"
  show ?thesis
    using trampoline_base64 [where bs = "[104, 105]" and res = ?res and fname = "''read''",
        OF json_c_with_ok _ _ demo_answers, of NS_SYS "''sys.''" 1 "[JInt 7]" "JArray [JInt 7]"
          demo_reply 2, unfolded b h]
    by (simp add: ns_prefix_def call_args_def demo_reply_def result_of_def)
qed

text \<open>
  C17. An answer with an error object never looks like success: a code in the range JSON-RPC
  reserves ends the process with EPROTO, any other code becomes errno and the call returns -1
  with the error object as its output. The code is cut off at the bounds of a 32-bit integer.
\<close>

theorem trampoline_error:
  assumes "json_c_ok jc" and "ns_prefix ns = Some prefix" and "call_args numargs vargs = Some args"
    and "peer_answers jc s reply rest" and "error_of reply = Some err"
    and "map_of err ''code'' = Some (JInt e)"
  shows "trampoline jc want ns fname numargs vargs s =
    (if -32768 \<le> e \<and> e \<le> -32000 then Exit EPROTO
     else Ret (-1, if want then JObject err else JNull),
     (sent jc (prefix @ fname) args rest s)\<lparr>errno := clamp 32 e\<rparr>)"
  by (simp add: trampoline_answered [OF assms(4,2,3)] handle_error [OF assms(1,5,6)])

definition demo_error :: json where
  "demo_error = JObject [(''error'', JObject [(''code'', JInt 2), (''message'', JString ''no'')])]"

theorem trampoline_error_witness:
  "\<exists>s'. trampoline (json_c_with (\<lambda>_. demo_error)) False NS_SYS ''stat'' 1 [JString ''/x'']
      demo_state = (Ret (-1, JNull), s') \<and> errno s' = 2 \<and> pipe_in s' = ''x''"
  using trampoline_error [OF json_c_with_ok _ _ demo_answers, of NS_SYS "''sys.''" 1 "[JString ''/x'']"
      "JArray [JString ''/x'']" demo_error
      "[(''code'', JInt 2), (''message'', JString ''no'')]" 2 False "''stat''"]
  by (simp add: ns_prefix_def call_args_def demo_error_def error_of_def clamp_def)



end
