(* ===== verification/Forward.thy ===== *)
theory Forward
  imports Rpc
begin

text \<open>
  The system calls of \<open>sbio.c\<close> that only forward their arguments and hand back the code of
  the reply: \<open>close\<close>, \<open>lseek\<close>, \<open>dup\<close>, \<open>access\<close>, \<open>fcntl\<close> and \<open>openat\<close>. What they
  promise is stated once, in the locale \<open>rpc_call\<close>, and holds of each by interpretation.
\<close>

section \<open>The calls\<close>

definition code_of :: "('s, int \<times> json) prog \<Rightarrow> ('s, int) prog" where
  "code_of m = bnd m (\<lambda>(r, out). ret r)"

lemma code_of_Ret: "code_of m s = (Ret r, s') \<longleftrightarrow> (\<exists>out. m s = (Ret (r, out), s'))"
  by (auto simp: code_of_def bnd_Ret_iff)

definition sb_close :: "json_c \<Rightarrow> int \<Rightarrow> ('a rpc_scheme, int) prog" where
  "sb_close jc fd = code_of (trampoline jc False NS_SYS ''close'' 1 [JInt fd])"

definition sb_lseek :: "json_c \<Rightarrow> int \<Rightarrow> int \<Rightarrow> int \<Rightarrow> ('a rpc_scheme, int) prog" where
  "sb_lseek jc fd offset whence =
     code_of (trampoline jc False NS_SYS ''lseek'' 3 [JInt fd, JInt offset, JInt whence])"

definition sb_dup :: "json_c \<Rightarrow> int \<Rightarrow> ('a rpc_scheme, int) prog" where
  "sb_dup jc oldfd = code_of (trampoline jc False NS_SYS ''dup'' 1 [JInt oldfd])"

definition sb_access :: "json_c \<Rightarrow> string \<Rightarrow> int \<Rightarrow> ('a rpc_scheme, int) prog" where
  "sb_access jc pathname mode =
     code_of (trampoline jc False NS_SYS ''access'' 2 [JString (cstr pathname), JInt mode])"

text \<open>
  \<open>openat\<close> prepares a fourth argument when the flags ask for a file to be created, and
  passes four to \<open>trampoline\<close>; \<open>numargs\<close> is 3 throughout.
\<close>

definition sb_openat ::
  "json_c \<Rightarrow> int \<Rightarrow> string \<Rightarrow> 32 word \<Rightarrow> int \<Rightarrow> ('a rpc_scheme, int) prog" where
  "sb_openat jc dirfd pathname flags mode =
    (let arg4 = if flags AND (O_CREAT OR O_TMPFILE) \<noteq> 0 then JInt mode else JNull in
     code_of (trampoline jc False NS_SYS ''openat'' 3
       [JInt dirfd, JString (cstr pathname), JInt (sint flags), arg4]))"

subsection \<open>fcntl\<close>

record flock =
  l_type :: int
  l_whence :: int
  l_start :: int
  l_len :: int
  l_pid :: int

record f_owner_ex =
  owner_type :: int
  owner_pid :: int

text \<open>
  The third argument of \<open>fcntl\<close> is read as the command asks: as an integer, or as a pointer
  to one of two structures, which may be null.
\<close>

record fcntl_arg =
  as_int :: int
  as_flock :: "flock option"
  as_owner :: "f_owner_ex option"

datatype arg3type = No_arg | Arg_i | Arg_l | Arg_o

text \<open>
  The commands by number: \<open>F_DUPFD\<close> 0, \<open>F_SETFD\<close> 2, \<open>F_SETFL\<close> 4, \<open>F_SETOWN\<close> 8,
  \<open>F_SETSIG\<close> 10, \<open>F_SETLEASE\<close> 1024, \<open>F_NOTIFY\<close> 1026, \<open>F_DUPFD_CLOEXEC\<close> 1030,
  \<open>F_SETPIPE_SZ\<close> 1031, \<open>F_ADD_SEALS\<close> 1033; the lock commands 5, 6, 7 and 36, 37, 38;
  \<open>F_SETOWN_EX\<close> 15 and \<open>F_GETOWN_EX\<close> 16.
\<close>

definition fcntl_arg3type :: "int \<Rightarrow> arg3type" where
  "fcntl_arg3type cmd =
    (if cmd \<in> {0, 1030, 2, 4, 8, 10, 1024, 1026, 1031, 1033} then Arg_i
     else if cmd \<in> {6, 7, 5, 37, 38, 36} then Arg_l
     else if cmd \<in> {16, 15} then Arg_o
     else No_arg)"

definition flock_json :: "flock \<Rightarrow> json" where
  "flock_json fl = JObject
     [(''l_type'', JInt (l_type fl)), (''l_whence'', JInt (l_whence fl)),
      (''l_start'', JInt (l_start fl)), (''l_len'', JInt (l_len fl)), (''l_pid'', JInt (l_pid fl))]"

definition owner_json :: "f_owner_ex \<Rightarrow> json" where
  "owner_json fo = JObject [(''type'', JInt (owner_type fo)), (''pid'', JInt (owner_pid fo))]"

definition fcntl_arg3 :: "int \<Rightarrow> fcntl_arg \<Rightarrow> json option" where
  "fcntl_arg3 cmd a =
    (case fcntl_arg3type cmd of
       No_arg \<Rightarrow> Some JNull
     | Arg_i \<Rightarrow> Some (JInt (as_int a))
     | Arg_l \<Rightarrow> map_option flock_json (as_flock a)
     | Arg_o \<Rightarrow> map_option owner_json (as_owner a))"

definition sb_fcntl :: "json_c \<Rightarrow> int \<Rightarrow> int \<Rightarrow> fcntl_arg \<Rightarrow> ('a rpc_scheme, int) prog" where
  "sb_fcntl jc fd cmd a =
    (let numargs = (if fcntl_arg3type cmd = No_arg then 2 else 3) in
     bnd (need (fcntl_arg3 cmd a) (fault_with Null_Deref)) (\<lambda>arg3.
     code_of (trampoline jc False NS_SYS ''fcntl'' numargs [JInt fd, JInt cmd, arg3])))"

section \<open>What a forwarding call promises\<close>

text \<open>
  \<open>params x\<close> are the arguments the peer sees for the C arguments \<open>x\<close>, where those can be
  read. The law is that the call is the exchange of one request with these arguments.
\<close>

definition exchange :: "json_c \<Rightarrow> string \<Rightarrow> json list \<Rightarrow> ('a rpc_scheme, int) prog \<Rightarrow> bool" where
  "exchange jc fname ps m \<longleftrightarrow> (\<exists>n vargs. call_args n vargs = Some (JArray ps) \<and>
     m = code_of (trampoline jc False NS_SYS fname n vargs))"

lemma exchangeI:
  "call_args n vargs = Some (JArray ps) \<Longrightarrow>
   exchange jc fname ps (code_of (trampoline jc False NS_SYS fname n vargs))"
  by (auto simp: exchange_def)

locale rpc_call =
  fixes run :: "json_c \<Rightarrow> 'x \<Rightarrow> ('a rpc_scheme, int) prog"
    and fname :: string
    and params :: "'x \<Rightarrow> json list option"
  assumes forwards: "params x = Some ps \<Longrightarrow> exchange jc fname ps (run jc x)"
begin

lemma answered:
  assumes "params x = Some ps" and "peer_answers jc s reply rest"
  shows "run jc x s =
    code_of (handle_response jc False reply) (sent jc (''sys.'' @ fname) (JArray ps) rest s)"
proof -
  obtain n vargs where a: "call_args n vargs = Some (JArray ps)"
    and r: "run jc x = code_of (trampoline jc False NS_SYS fname n vargs)"
    using forwards [OF assms(1), of jc] by (auto simp: exchange_def)
  have "ns_prefix NS_SYS = Some ''sys.''" by (simp add: ns_prefix_def)
  from trampoline_answered [OF assms(2) this a] show ?thesis
    by (simp add: r code_of_def bnd_def)
qed

lemma result:
  assumes "params x = Some ps" and "peer_answers jc s reply rest" and "json_c_ok jc"
    and "result_of reply = Some res" and "map_of res ''code'' = Some (JInt c)"
  shows "run jc x s =
    (Ret (clamp 32 c), (sent jc (''sys.'' @ fname) (JArray ps) rest s)\<lparr>errno := 0\<rparr>)"
  by (simp add: answered [OF assms(1,2)] code_of_def handle_result [OF assms(3-5)])

lemma failure:
  assumes "params x = Some ps" and "peer_answers jc s reply rest" and "json_c_ok jc"
    and "error_of reply = Some err" and "map_of err ''code'' = Some (JInt e)"
  shows "run jc x s =
    (if -32768 \<le> e \<and> e \<le> -32000 then Exit EPROTO else Ret (-1),
     (sent jc (''sys.'' @ fname) (JArray ps) rest s)\<lparr>errno := clamp 32 e\<rparr>)"
  by (simp add: answered [OF assms(1,2)] code_of_def handle_error [OF assms(3-5)])

end

interpretation close_call: rpc_call sb_close "''close''" "\<lambda>fd. Some [JInt fd]"
  by unfold_locales (auto simp: sb_close_def call_args_def intro!: exchangeI)

interpretation lseek_call: rpc_call "\<lambda>jc (fd, offset, whence). sb_lseek jc fd offset whence" "''lseek''"
    "\<lambda>(fd, offset, whence). Some [JInt fd, JInt offset, JInt whence]"
  by unfold_locales (auto simp: sb_lseek_def call_args_def numeral_3_eq_3 intro!: exchangeI)

interpretation dup_call: rpc_call sb_dup "''dup''" "\<lambda>fd. Some [JInt fd]"
  by unfold_locales (auto simp: sb_dup_def call_args_def intro!: exchangeI)

interpretation access_call: rpc_call "\<lambda>jc (path, mode). sb_access jc path mode" "''access''"
    "\<lambda>(path, mode). Some [JString (cstr path), JInt mode]"
  by unfold_locales (auto simp: sb_access_def call_args_def numeral_3_eq_3 intro!: exchangeI)

interpretation openat_call: rpc_call "\<lambda>jc (dirfd, path, flags, mode). sb_openat jc dirfd path flags mode"
    "''openat''" "\<lambda>(dirfd, path, flags, mode). Some [JInt dirfd, JString (cstr path), JInt (sint flags)]"
  by unfold_locales (auto simp: sb_openat_def call_args_def Let_def numeral_3_eq_3 intro!: exchangeI)

definition fcntl_params :: "int \<times> int \<times> fcntl_arg \<Rightarrow> json list option" where
  "fcntl_params = (\<lambda>(fd, cmd, a).
    if fcntl_arg3type cmd = No_arg then Some [JInt fd, JInt cmd]
    else map_option (\<lambda>arg3. [JInt fd, JInt cmd, arg3]) (fcntl_arg3 cmd a))"

lemma sb_fcntl_run:
  "fcntl_arg3 cmd a = Some arg3 \<Longrightarrow>
   sb_fcntl jc fd cmd a = code_of (trampoline jc False NS_SYS ''fcntl''
     (if fcntl_arg3type cmd = No_arg then 2 else 3) [JInt fd, JInt cmd, arg3])"
  by (simp add: sb_fcntl_def Let_def bnd_def fun_eq_iff)

interpretation fcntl_call: rpc_call "\<lambda>jc (fd, cmd, a). sb_fcntl jc fd cmd a" "''fcntl''" fcntl_params
proof unfold_locales
  fix x ps and jc
  assume ps: "fcntl_params x = Some ps"
  obtain fd cmd a where x: "x = (fd, cmd, a)" by (cases x) auto
  show "exchange jc ''fcntl'' ps (case x of (fd, cmd, a) \<Rightarrow> sb_fcntl jc fd cmd a)"
  proof (cases "fcntl_arg3 cmd a")
    case None
    with ps x show ?thesis
      by (auto simp: fcntl_params_def fcntl_arg3_def split: if_splits)
  next
    case (Some arg3)
    with ps x show ?thesis
      by (auto simp: sb_fcntl_run fcntl_params_def call_args_def numeral_3_eq_3 intro!: exchangeI
          split: if_splits)
  qed
qed

section \<open>Properties\<close>

text \<open>
  C22. Each forwarding call sends one request with its name and its arguments, in the order of
  the system call, and returns the code of the result, with errno 0.
\<close>

theorem forwarded_result:
  assumes "peer_answers jc s reply rest" and "json_c_ok jc"
    and "result_of reply = Some res" and "map_of res ''code'' = Some (JInt c)"
  defines "after \<equiv> \<lambda>name ps. (sent jc name (JArray ps) rest s)\<lparr>errno := 0\<rparr>"
  shows "sb_close jc fd s = (Ret (clamp 32 c), after ''sys.close'' [JInt fd]) \<and>
    sb_lseek jc fd off whence s =
      (Ret (clamp 32 c), after ''sys.lseek'' [JInt fd, JInt off, JInt whence]) \<and>
    sb_dup jc fd s = (Ret (clamp 32 c), after ''sys.dup'' [JInt fd]) \<and>
    sb_access jc path mode s =
      (Ret (clamp 32 c), after ''sys.access'' [JString (cstr path), JInt mode]) \<and>
    (\<forall>ps. fcntl_params (fd, cmd, a) = Some ps \<longrightarrow>
      sb_fcntl jc fd cmd a s = (Ret (clamp 32 c), after ''sys.fcntl'' ps))"
  using close_call.result [OF _ assms(1-4), of fd] dup_call.result [OF _ assms(1-4), of fd]
    lseek_call.result [OF _ assms(1-4), of "(fd, off, whence)"]
    access_call.result [OF _ assms(1-4), of "(path, mode)"]
    fcntl_call.result [OF _ assms(1-4), of "(fd, cmd, a)"]
  by (simp add: after_def)

theorem forwarded_result_witness:
  "fst (sb_lseek (json_c_with (\<lambda>_. demo_reply)) 7 10 0 demo_state) = Ret 2"
  using forwarded_result [OF demo_answers json_c_with_ok, of demo_reply
      "[(''code'', JInt 2), (''data'', JString ''aGk=''), (''base64'', JBoolean True)]" 2 7 10 0]
  by (simp add: result_of_def demo_reply_def clamp_def)

text \<open>
  \<open>openat\<close> never tells the peer the mode of a file to be created: whatever the flags,
  the request has three arguments, and two calls that differ in the mode only do exactly the
  same.
\<close>

theorem openat_forgets_mode:
  fixes s :: "'a rpc_scheme"
  shows "sb_openat jc dirfd path flags mode s = sb_openat jc dirfd path flags mode' s \<and>
   (\<forall>v s'. sb_openat jc dirfd path flags mode s = (Ret v, s') \<longrightarrow>
     pipe_out s' = pipe_out s @ cstr (to_json_string jc (callinfo ''sys.openat''
       (JArray [JInt dirfd, JString (cstr path), JInt (sint flags)]))) @ [newline])"
proof
  have same: "trampoline jc False NS_SYS ''openat'' 3 [a, b, c, d] s =
      trampoline jc False NS_SYS ''openat'' 3 [a, b, c, d'] s" for a b c d d'
    by (simp add: trampoline_def call_args_def numeral_3_eq_3)
  show "sb_openat jc dirfd path flags mode s = sb_openat jc dirfd path flags mode' s"
    by (simp add: sb_openat_def code_of_def bnd_def Let_def same [of _ _ _ "JInt mode" "JInt mode'"])
next
  show "\<forall>v s'. sb_openat jc dirfd path flags mode s = (Ret v, s') \<longrightarrow>
     pipe_out s' = pipe_out s @ cstr (to_json_string jc (callinfo ''sys.openat''
       (JArray [JInt dirfd, JString (cstr path), JInt (sint flags)]))) @ [newline]"
    by (auto simp: sb_openat_def code_of_Ret call_args_def ns_prefix_def numeral_3_eq_3 Let_def
        elim!: trampoline_frame split: if_splits)
qed

theorem openat_forgets_mode_witness:
  "\<exists>s'. sb_openat (json_c_with (\<lambda>_. demo_reply)) 3 ''/x'' O_CREAT 420 demo_state = (Ret 2, s') \<and>
    pipe_out s' = cstr ''{}'' @ [newline]"
proof -
  have "\<exists>s'. sb_openat (json_c_with (\<lambda>_. demo_reply)) 3 ''/x'' O_CREAT 420 demo_state = (Ret 2, s')"
    by (simp add: sb_openat_def code_of_def bnd_def demo_run ns_prefix_def call_args_def
        handle_response_def demo_reply_def opt_json_def clamp_def numeral_3_eq_3)
  with openat_forgets_mode [of "json_c_with (\<lambda>_. demo_reply)" 3 "''/x''" O_CREAT 420 demo_state 0]
  show ?thesis by (auto simp: demo_state_def)
qed

text \<open>
  When the peer answers with an error, every forwarding call returns -1 and leaves the
  error's code in errno, or, for a code JSON-RPC reserves, ends the process.
\<close>

theorem forwarded_failure:
  assumes "peer_answers jc s reply rest" and "json_c_ok jc"
    and "error_of reply = Some err" and "map_of err ''code'' = Some (JInt e)"
  defines "outcome \<equiv> if -32768 \<le> e \<and> e \<le> -32000 then Exit EPROTO else Ret (-1)"
    and "after \<equiv> \<lambda>name ps. (sent jc name (JArray ps) rest s)\<lparr>errno := clamp 32 e\<rparr>"
  shows "sb_close jc fd s = (outcome, after ''sys.close'' [JInt fd]) \<and>
    sb_lseek jc fd off whence s =
      (outcome, after ''sys.lseek'' [JInt fd, JInt off, JInt whence]) \<and>
    sb_dup jc fd s = (outcome, after ''sys.dup'' [JInt fd]) \<and>
    sb_access jc path mode s =
      (outcome, after ''sys.access'' [JString (cstr path), JInt mode]) \<and>
    sb_openat jc fd path flags mode s =
      (outcome, after ''sys.openat'' [JInt fd, JString (cstr path), JInt (sint flags)])"
  using close_call.failure [OF _ assms(1-4), of fd] dup_call.failure [OF _ assms(1-4), of fd]
    lseek_call.failure [OF _ assms(1-4), of "(fd, off, whence)"]
    access_call.failure [OF _ assms(1-4), of "(path, mode)"]
    openat_call.failure [OF _ assms(1-4), of "(fd, path, flags, mode)"]
  by (simp add: outcome_def after_def)

theorem forwarded_failure_witness:
  "fst (sb_close (json_c_with (\<lambda>_. demo_error)) 7 demo_state) = Ret (-1) \<and>
   errno (snd (sb_close (json_c_with (\<lambda>_. demo_error)) 7 demo_state)) = 2"
  using forwarded_failure [OF demo_answers json_c_with_ok, of demo_error
      "[(''code'', JInt 2), (''message'', JString ''no'')]" 2 7]
  by (simp add: error_of_def demo_error_def clamp_def)

end
