(* ===== verification/Data.thy ===== *)
theory Data
  imports Forward
begin

text \<open>
  The system calls of \<open>sbio.c\<close> whose reply carries data for the caller's memory: \<open>stat\<close>,
  \<open>lstat\<close>, \<open>fstat\<close>, \<open>statfs\<close>, \<open>read\<close> and \<open>readlink\<close>. The caller's structure or buffer
  is an argument and comes back, written, beside the return value. What the calls share, down
  to the shape of the reply they accept, is the locale \<open>data_call\<close>.
\<close>

section \<open>Members of a reply\<close>

text \<open>A member that must be there and have a certain type; otherwise the process ends.\<close>

definition field :: "json_c \<Rightarrow> json \<Rightarrow> string \<Rightarrow> (json \<Rightarrow> bool) \<Rightarrow> ('s, json) prog" where
  "field jc obj name ty =
     bnd (need (get_ex jc obj name) (exit_with EPROTO)) (\<lambda>fld.
     bnd (check (ty fld) (exit_with EPROTO)) (\<lambda>_.
     ret fld))"

text \<open>The macro \<open>ST_GET\<close> and the code written out after it: one integer member into one field.\<close>

definition st_get :: "json_c \<Rightarrow> json \<Rightarrow> string \<Rightarrow> (int \<Rightarrow> 'b \<Rightarrow> 'b) \<Rightarrow> 'b \<Rightarrow> ('s, 'b) prog" where
  "st_get jc data name upd buf =
     bnd (field jc data name is_int) (\<lambda>fld. ret (upd (get_int64 jc fld) buf))"

fun st_gets :: "json_c \<Rightarrow> json \<Rightarrow> (string \<times> (int \<Rightarrow> 'b \<Rightarrow> 'b)) list \<Rightarrow> 'b \<Rightarrow> ('s, 'b) prog" where
  "st_gets jc data [] buf = ret buf"
| "st_gets jc data ((name, upd) # fs) buf = bnd (st_get jc data name upd buf) (st_gets jc data fs)"

definition int_member :: "(string \<times> json) list \<Rightarrow> string \<Rightarrow> int option" where
  "int_member mem k = (case map_of mem k of Some (JInt n) \<Rightarrow> Some n | _ \<Rightarrow> None)"

lemma int_member_Some: "int_member mem k = Some n \<longleftrightarrow> map_of mem k = Some (JInt n)"
  by (auto simp: int_member_def split: option.splits json.splits)

lemma field_run:
  assumes "json_c_ok jc"
  shows "field jc (JObject mem) k ty s =
    (case map_of mem k of
       Some j \<Rightarrow> if ty j then (Ret j, s) else (Exit EPROTO, s)
     | None \<Rightarrow> (Exit EPROTO, s))"
  using assms by (simp add: field_def bnd_def split: option.split)

lemma field_no_object: "json_c_ok jc \<Longrightarrow> \<not> is_object j \<Longrightarrow> field jc j k ty s = (Exit EPROTO, s)"
  by (simp add: field_def bnd_def get_ex_no_object)

lemma st_get_run:
  assumes "json_c_ok jc"
  shows "st_get jc (JObject mem) k upd buf s =
    (case int_member mem k of
       Some n \<Rightarrow> (Ret (upd (clamp 64 n) buf), s) | None \<Rightarrow> (Exit EPROTO, s))"
proof (cases "map_of mem k")
  case (Some j)
  with assms show ?thesis
    by (cases j) (simp_all add: st_get_def bnd_def field_run int_member_def is_int_def)
qed (use assms in \<open>simp add: st_get_def bnd_def field_run int_member_def\<close>)

text \<open>A run of these reads all of its members or ends the process; it does nothing in between.\<close>

lemma st_gets_run:
  assumes "json_c_ok jc"
  shows "st_gets jc (JObject mem) fs buf s =
    (if \<forall>f \<in> set fs. int_member mem (fst f) \<noteq> None
     then (Ret (fold (\<lambda>(k, upd) b. upd (clamp 64 (the (int_member mem k))) b) fs buf), s)
     else (Exit EPROTO, s))"
proof (induction fs arbitrary: buf)
  case (Cons f fs)
  obtain k g where f: "f = (k, g)" by (cases f)
  show ?case
    by (cases "int_member mem k") (simp_all add: f Cons bnd_def st_get_run [OF assms])
qed simp

section \<open>File status\<close>

text \<open>\<open>struct stat\<close> of x86-64; the three time stamps have seconds and nanoseconds.\<close>

record stat =
  st_dev :: "64 word"
  st_ino :: "64 word"
  st_mode :: "32 word"
  st_nlink :: "64 word"
  st_uid :: "32 word"
  st_gid :: "32 word"
  st_rdev :: "64 word"
  st_size :: "64 word"
  st_blksize :: "64 word"
  st_blocks :: "64 word"
  st_atim :: "64 word \<times> 64 word"
  st_mtim :: "64 word \<times> 64 word"
  st_ctim :: "64 word \<times> 64 word"

definition stat_fields :: "(string \<times> (int \<Rightarrow> stat \<Rightarrow> stat)) list" where
  "stat_fields =
    [(''st_dev'', \<lambda>v b. b\<lparr>st_dev := word_of_int v\<rparr>),
     (''st_ino'', \<lambda>v b. b\<lparr>st_ino := word_of_int v\<rparr>),
     (''st_mode'', \<lambda>v b. b\<lparr>st_mode := word_of_int v\<rparr>),
     (''st_nlink'', \<lambda>v b. b\<lparr>st_nlink := word_of_int v\<rparr>),
     (''st_uid'', \<lambda>v b. b\<lparr>st_uid := word_of_int v\<rparr>),
     (''st_gid'', \<lambda>v b. b\<lparr>st_gid := word_of_int v\<rparr>),
     (''st_rdev'', \<lambda>v b. b\<lparr>st_rdev := word_of_int v\<rparr>),
     (''st_size'', \<lambda>v b. b\<lparr>st_size := word_of_int v\<rparr>),
     (''st_blksize'', \<lambda>v b. b\<lparr>st_blksize := word_of_int v\<rparr>),
     (''st_blocks'', \<lambda>v b. b\<lparr>st_blocks := word_of_int v\<rparr>),
     (''st_atime'', \<lambda>v b. b\<lparr>st_atim := (word_of_int v, snd (st_atim b))\<rparr>),
     (''st_mtime'', \<lambda>v b. b\<lparr>st_mtim := (word_of_int v, snd (st_mtim b))\<rparr>),
     (''st_ctime'', \<lambda>v b. b\<lparr>st_ctim := (word_of_int v, snd (st_ctim b))\<rparr>)]"

definition stat_data :: "json_c \<Rightarrow> int \<Rightarrow> json \<Rightarrow> stat \<Rightarrow> ('s, int \<times> stat) prog" where
  "stat_data jc r data buf = bnd (st_gets jc data stat_fields buf) (\<lambda>buf. ret (r, buf))"

definition sb_stat :: "json_c \<Rightarrow> string \<Rightarrow> stat \<Rightarrow> ('a rpc_scheme, int \<times> stat) prog" where
  "sb_stat jc path buf =
     bnd (trampoline jc True NS_SYS ''stat'' 1 [JString (cstr path)]) (\<lambda>(r, out).
     if r \<noteq> 0 then ret (r, buf)
     else bnd (field jc out ''data'' is_object) (\<lambda>data.
          stat_data jc r data buf))"

definition sb_lstat :: "json_c \<Rightarrow> string \<Rightarrow> stat \<Rightarrow> ('a rpc_scheme, int \<times> stat) prog" where
  "sb_lstat jc path buf =
     bnd (trampoline jc True NS_SYS ''lstat'' 1 [JString (cstr path)]) (\<lambda>(r, out).
     if r \<noteq> 0 then ret (r, buf)
     else bnd (field jc out ''data'' is_object) (\<lambda>data.
          stat_data jc r data buf))"

definition sb_fstat :: "json_c \<Rightarrow> int \<Rightarrow> stat \<Rightarrow> ('a rpc_scheme, int \<times> stat) prog" where
  "sb_fstat jc fd buf =
     bnd (trampoline jc True NS_SYS ''fstat'' 1 [JInt fd]) (\<lambda>(r, out).
     if r \<noteq> 0 then ret (r, buf)
     else bnd (field jc out ''data'' is_object) (\<lambda>data.
          stat_data jc r data buf))"

section \<open>File system status\<close>

text \<open>\<open>struct statfs\<close>; \<open>f_fsid\<close> is a structure of two \<open>int\<close>s.\<close>

record statfs =
  f_type :: "64 word"
  f_bsize :: "64 word"
  f_blocks :: "64 word"
  f_bfree :: "64 word"
  f_bavail :: "64 word"
  f_files :: "64 word"
  f_ffree :: "64 word"
  f_fsid :: "32 word \<times> 32 word"
  f_namelen :: "64 word"
  f_frsize :: "64 word"
  f_flags :: "64 word"

definition statfs_fields :: "(string \<times> (int \<Rightarrow> statfs \<Rightarrow> statfs)) list" where
  "statfs_fields =
    [(''f_type'', \<lambda>v b. b\<lparr>f_type := word_of_int v\<rparr>),
     (''f_bsize'', \<lambda>v b. b\<lparr>f_bsize := word_of_int v\<rparr>),
     (''f_blocks'', \<lambda>v b. b\<lparr>f_blocks := word_of_int v\<rparr>),
     (''f_bfree'', \<lambda>v b. b\<lparr>f_bfree := word_of_int v\<rparr>),
     (''f_bavail'', \<lambda>v b. b\<lparr>f_bavail := word_of_int v\<rparr>),
     (''f_files'', \<lambda>v b. b\<lparr>f_files := word_of_int v\<rparr>),
     (''f_ffree'', \<lambda>v b. b\<lparr>f_ffree := word_of_int v\<rparr>),
     (''f_namelen'', \<lambda>v b. b\<lparr>f_namelen := word_of_int v\<rparr>),
     (''f_frsize'', \<lambda>v b. b\<lparr>f_frsize := word_of_int v\<rparr>)]"

definition fsid_split :: "int \<Rightarrow> 32 word \<times> 32 word" where
  "fsid_split fsid = (word_of_int (drop_bit 32 fsid), word_of_int fsid)"

definition statfs_data :: "json_c \<Rightarrow> int \<Rightarrow> json \<Rightarrow> statfs \<Rightarrow> ('s, int \<times> statfs) prog" where
  "statfs_data jc r data buf =
     bnd (st_gets jc data statfs_fields buf) (\<lambda>buf.
     bnd (st_get jc data ''f_fsid'' (\<lambda>fsid b. b\<lparr>f_fsid := fsid_split fsid\<rparr>) buf) (\<lambda>buf.
     ret (r, buf)))"

definition sb_statfs :: "json_c \<Rightarrow> string \<Rightarrow> statfs \<Rightarrow> ('a rpc_scheme, int \<times> statfs) prog" where
  "sb_statfs jc path buf =
     bnd (trampoline jc True NS_SYS ''statfs'' 1 [JString (cstr path)]) (\<lambda>(r, out).
     if r < 0 then ret (r, buf)
     else bnd (field jc out ''data'' is_object) (\<lambda>data.
          statfs_data jc r data buf))"

section \<open>Bytes\<close>

text \<open>
  \<open>memcpy\<close> of the first \<open>n\<close> characters of a string into the caller's buffer.
\<close>

definition copy_out :: "nat \<Rightarrow> string \<Rightarrow> byte list \<Rightarrow> ('s, byte list) prog" where
  "copy_out n str buf =
     need (write_at 0 (map byte_of_char (take n str)) buf) (fault_with Out_Of_Bounds)"

definition read_data ::
  "json_c \<Rightarrow> 64 word \<Rightarrow> int \<Rightarrow> json \<Rightarrow> byte list \<Rightarrow> ('s, int \<times> byte list) prog" where
  "read_data jc count code data buf =
    (let len = get_string_len jc data in
     bnd (check (\<not> (len > 0 \<and> len > unat count)) (exit_with EPROTO)) (\<lambda>_.
     bnd (check (int len = code) (exit_with EPROTO)) (\<lambda>_.
     bnd (need (get_string jc data) (fault_with Null_Deref)) (\<lambda>str.
     bnd (copy_out len str buf) (\<lambda>buf.
     ret (code, buf))))))"

definition sb_read ::
  "json_c \<Rightarrow> int \<Rightarrow> byte list \<Rightarrow> 64 word \<Rightarrow> ('a rpc_scheme, int \<times> byte list) prog" where
  "sb_read jc fd buf count =
     bnd (trampoline jc True NS_SYS ''read'' 2 [JInt fd, JInt (sint count)]) (\<lambda>(code, out).
     if code \<le> 0 then ret (code, buf)
     else bnd (field jc out ''data'' is_string) (\<lambda>data. read_data jc count code data buf))"

definition readlink_data ::
  "json_c \<Rightarrow> 64 word \<Rightarrow> int \<Rightarrow> json \<Rightarrow> byte list \<Rightarrow> ('s, int \<times> byte list) prog" where
  "readlink_data jc bufsiz r data buf =
    (let len = get_string_len jc data in
     bnd (check (r = int len) (exit_with EPROTO)) (\<lambda>_.
     bnd (need (get_string jc data) (fault_with Null_Deref)) (\<lambda>str.
     bnd (copy_out (if len > unat bufsiz then unat bufsiz else len) str buf) (\<lambda>buf.
     ret (r, buf)))))"

definition sb_readlink ::
  "json_c \<Rightarrow> string \<Rightarrow> byte list \<Rightarrow> 64 word \<Rightarrow> ('a rpc_scheme, int \<times> byte list) prog" where
  "sb_readlink jc path buf bufsiz =
     bnd (trampoline jc True NS_SYS ''readlink'' 1 [JString (cstr path)]) (\<lambda>(r, out).
     if r \<le> 0 then ret (r, buf)
     else bnd (field jc out ''data'' is_string) (\<lambda>data. readlink_data jc bufsiz r data buf))"

section \<open>What the calls that fetch data share\<close>

text \<open>
  Such a call sends its arguments, returns at once on a code it regards as final, looks for the
  member \<open>data\<close> of what the trampoline gave it, requires it to have a type, and stores it.
  Every error is final.
\<close>

definition carries :: "json \<Rightarrow> int \<Rightarrow> json \<Rightarrow> bool" where
  "carries reply c d \<longleftrightarrow>
    (case result_of reply of
       Some res \<Rightarrow> map_of res ''code'' = Some (JInt c) \<and> map_of res ''base64'' = None \<and>
         (case map_of res ''data'' of Some (JObject mem) \<Rightarrow> map_of mem ''data'' = Some d
          | _ \<Rightarrow> False)
     | None \<Rightarrow> False)"

lemma carriesE:
  assumes "carries reply c d"
  obtains res mem where "result_of reply = Some res" "map_of res ''code'' = Some (JInt c)"
    "map_of res ''base64'' = None" "map_of res ''data'' = Some (JObject mem)"
    "map_of mem ''data'' = Some d"
  using assms by (auto simp: carries_def split: option.splits json.splits)

text \<open>The shape the comment above \<open>trampoline\<close> asks for: the data right in the result.\<close>

definition flat_reply :: "json \<Rightarrow> int \<Rightarrow> bool" where
  "flat_reply reply c \<longleftrightarrow>
    (case result_of reply of
       Some res \<Rightarrow> map_of res ''code'' = Some (JInt c) \<and> map_of res ''base64'' = None \<and>
         (case map_of res ''data'' of Some (JObject mem) \<Rightarrow> map_of mem ''data'' = None | _ \<Rightarrow> True)
     | None \<Rightarrow> False)"

lemma flat_replyE:
  assumes "flat_reply reply c"
  obtains res where "result_of reply = Some res" "map_of res ''code'' = Some (JInt c)"
    "map_of res ''base64'' = None"
    "case map_of res ''data'' of Some (JObject mem) \<Rightarrow> map_of mem ''data'' = None | _ \<Rightarrow> True"
  using assms by (auto simp: flat_reply_def split: option.splits)

locale data_call =
  fixes run :: "json_c \<Rightarrow> 'x \<Rightarrow> 'b \<Rightarrow> ('a rpc_scheme, int \<times> 'b) prog"
    and fname :: string
    and args :: "'x \<Rightarrow> 'b \<Rightarrow> json list"
    and final :: "int \<Rightarrow> bool"
    and ty :: "json \<Rightarrow> bool"
    and store :: "json_c \<Rightarrow> 'x \<Rightarrow> int \<Rightarrow> json \<Rightarrow> 'b \<Rightarrow> ('a rpc_scheme, int \<times> 'b) prog"
  assumes run_is: "run jc x b =
      bnd (trampoline jc True NS_SYS fname (int (length (args x b))) (args x b)) (\<lambda>(r, out).
      if final r then ret (r, b)
      else bnd (field jc out ''data'' ty) (\<lambda>d. store jc x r d b))"
    and error_final: "final (-1)"
begin

lemma answered:
  assumes "peer_answers jc s reply rest"
  shows "run jc x b s =
    bnd (handle_response jc True reply) (\<lambda>(r, out).
      if final r then ret (r, b)
      else bnd (field jc out ''data'' ty) (\<lambda>d. store jc x r d b))
      (sent jc (''sys.'' @ fname) (JArray (args x b)) rest s)"
proof -
  have "ns_prefix NS_SYS = Some ''sys.''" by (simp add: ns_prefix_def)
  from trampoline_answered [OF assms this, of "int (length (args x b))" "args x b"] show ?thesis
    by (simp add: run_is bnd_def call_args_def)
qed

text \<open>A reply whose data is again an object with the member \<open>data\<close> is stored.\<close>

lemma nested:
  assumes "peer_answers jc s reply rest" and "json_c_ok jc" and "carries reply c d"
    and "\<not> final (clamp 32 c)" and "ty d"
  shows "run jc x b s = store jc x (clamp 32 c) d b
    ((sent jc (''sys.'' @ fname) (JArray (args x b)) rest s)\<lparr>errno := 0\<rparr>)"
proof -
  from assms(3) obtain res mem where
    r: "result_of reply = Some res" "map_of res ''code'' = Some (JInt c)" and
    d: "map_of res ''base64'' = None" "map_of res ''data'' = Some (JObject mem)"
      "map_of mem ''data'' = Some d"
    by (rule carriesE)
  show ?thesis
    using assms(2,4,5) d
    by (simp add: answered [OF assms(1)] handle_result [OF assms(2) r] opt_json_def bnd_def
        decode_data_plain field_run)
qed

text \<open>A reply of the other shape ends the process, unless its code is final.\<close>

lemma flat:
  assumes "peer_answers jc s reply rest" and "json_c_ok jc" and "flat_reply reply c"
    and "\<not> final (clamp 32 c)"
  shows "fst (run jc x b s) = Exit EPROTO"
proof -
  from assms(3) obtain res where
    r: "result_of reply = Some res" "map_of res ''code'' = Some (JInt c)" and
    d: "map_of res ''base64'' = None" and
    e: "case map_of res ''data'' of Some (JObject mem) \<Rightarrow> map_of mem ''data'' = None | _ \<Rightarrow> True"
    by (rule flat_replyE)
  have "field jc (opt_json (map_of res ''data'')) ''data'' ty st = (Exit EPROTO, st)"
    for st :: "'a rpc_scheme"
  proof (cases "is_object (opt_json (map_of res ''data''))")
    case True
    with assms(2) e show ?thesis
      by (auto simp: field_run opt_json_def split: option.splits elim!: is_typeE)
  qed (simp add: field_no_object assms(2))
  with assms(2,4) d show ?thesis
    by (simp add: answered [OF assms(1)] handle_result [OF assms(2) r] bnd_def decode_data_plain)
qed

lemma final_code:
  assumes "peer_answers jc s reply rest" and "json_c_ok jc" and "result_of reply = Some res"
    and "map_of res ''code'' = Some (JInt c)" and "final (clamp 32 c)"
    and "map_of res ''base64'' = None"
  shows "run jc x b s = (Ret (clamp 32 c, b),
    (sent jc (''sys.'' @ fname) (JArray (args x b)) rest s)\<lparr>errno := 0\<rparr>)"
  using assms(2,5,6)
  by (simp add: answered [OF assms(1)] handle_result [OF assms(2-4)] bnd_def decode_data_plain)

lemma failure:
  assumes "peer_answers jc s reply rest" and "json_c_ok jc"
    and "error_of reply = Some err" and "map_of err ''code'' = Some (JInt e)"
  shows "run jc x b s =
    (if -32768 \<le> e \<and> e \<le> -32000 then Exit EPROTO else Ret (-1, b),
     (sent jc (''sys.'' @ fname) (JArray (args x b)) rest s)\<lparr>errno := clamp 32 e\<rparr>)"
  by (simp add: answered [OF assms(1)] handle_error [OF assms(2-4)] bnd_def error_final)

text \<open>What is true of every way to store is true of every run.\<close>

lemma never_oob:
  assumes "\<And>r d. \<not> final r \<Longrightarrow> ty d \<Longrightarrow> never Out_Of_Bounds (store jc x r d b)"
  shows "never Out_Of_Bounds (run jc x b)"
  unfolding run_is
  by (intro never_bnd trampoline_never)
     (auto simp: field_def bnd_Ret_iff need_Ret_iff check_Ret_iff split: prod.split intro!: never_intros assms)

lemma returns:
  assumes "run jc x b s = (Ret (r, b'), s')"
  obtains "final r" "b' = b"
    | r0 d s1 where "\<not> final r0" "ty d" "store jc x r0 d b s1 = (Ret (r, b'), s')"
  using assms
  by (auto simp: run_is field_def ret_iffs split: prod.splits if_splits)

end

interpretation stat_call: data_call sb_stat "''stat''" "\<lambda>path b. [JString (cstr path)]"
    "\<lambda>r. r \<noteq> 0" is_object "\<lambda>jc path. stat_data jc"
  by unfold_locales (simp_all add: sb_stat_def)

interpretation lstat_call: data_call sb_lstat "''lstat''" "\<lambda>path b. [JString (cstr path)]"
    "\<lambda>r. r \<noteq> 0" is_object "\<lambda>jc path. stat_data jc"
  by unfold_locales (simp_all add: sb_lstat_def)

interpretation fstat_call: data_call sb_fstat "''fstat''" "\<lambda>fd b. [JInt fd]"
    "\<lambda>r. r \<noteq> 0" is_object "\<lambda>jc fd. stat_data jc"
  by unfold_locales (simp_all add: sb_fstat_def)

interpretation statfs_call: data_call sb_statfs "''statfs''" "\<lambda>path b. [JString (cstr path)]"
    "\<lambda>r. r < 0" is_object "\<lambda>jc path. statfs_data jc"
  by unfold_locales (simp_all add: sb_statfs_def)

interpretation read_call: data_call "\<lambda>jc (fd, count) buf. sb_read jc fd buf count" "''read''"
    "\<lambda>(fd, count) b. [JInt fd, JInt (sint count)]" "\<lambda>r. r \<le> 0" is_string
    "\<lambda>jc (fd, count). read_data jc count"
  by unfold_locales (simp_all add: sb_read_def split: prod.split)

interpretation readlink_call: data_call "\<lambda>jc (path, bufsiz) buf. sb_readlink jc path buf bufsiz"
    "''readlink''" "\<lambda>(path, bufsiz) b. [JString (cstr path)]" "\<lambda>r. r \<le> 0" is_string
    "\<lambda>jc (path, bufsiz). readlink_data jc bufsiz"
  by unfold_locales (simp_all add: sb_readlink_def split: prod.split)

section \<open>Storing\<close>

text \<open>
  What a peer sends for a file's status: each field as the integer it is, those of 64 bits
  signed. The clamping of json-c then changes nothing.
\<close>

definition stat_members :: "stat \<Rightarrow> (string \<times> json) list" where
  "stat_members st =
    [(''st_dev'', JInt (sint (st_dev st))), (''st_ino'', JInt (sint (st_ino st))),
     (''st_mode'', JInt (uint (st_mode st))), (''st_nlink'', JInt (sint (st_nlink st))),
     (''st_uid'', JInt (uint (st_uid st))), (''st_gid'', JInt (uint (st_gid st))),
     (''st_rdev'', JInt (sint (st_rdev st))), (''st_size'', JInt (sint (st_size st))),
     (''st_blksize'', JInt (sint (st_blksize st))), (''st_blocks'', JInt (sint (st_blocks st))),
     (''st_atime'', JInt (sint (fst (st_atim st)))), (''st_mtime'', JInt (sint (fst (st_mtim st)))),
     (''st_ctime'', JInt (sint (fst (st_ctim st))))]"

definition statfs_members :: "statfs \<Rightarrow> int \<Rightarrow> (string \<times> json) list" where
  "statfs_members fs fsid =
    [(''f_type'', JInt (sint (f_type fs))), (''f_bsize'', JInt (sint (f_bsize fs))),
     (''f_blocks'', JInt (sint (f_blocks fs))), (''f_bfree'', JInt (sint (f_bfree fs))),
     (''f_bavail'', JInt (sint (f_bavail fs))), (''f_files'', JInt (sint (f_files fs))),
     (''f_ffree'', JInt (sint (f_ffree fs))), (''f_namelen'', JInt (sint (f_namelen fs))),
     (''f_frsize'', JInt (sint (f_frsize fs))), (''f_fsid'', JInt fsid)]"

lemma clamp_sint [simp]: "clamp 64 (sint (w :: 64 word)) = sint w"
  by (rule clamp_id) (use sint_greater_eq [of w] sint_less [of w] in simp_all)

lemma clamp_uint32 [simp]: "clamp 64 (uint (w :: 32 word)) = uint w"
proof -
  have "uint w < 2 ^ 32" by (rule order_less_le_trans [OF unsigned_less]) simp
  then show ?thesis by (intro clamp_id) (simp_all add: order_trans [OF _ unsigned_greater_eq])
qed

text \<open>The nanoseconds of the buffer stay what they were.\<close>

definition keep_nsec :: "stat \<Rightarrow> stat \<Rightarrow> stat" where
  "keep_nsec buf st = st
     \<lparr>st_atim := (fst (st_atim st), snd (st_atim buf)), st_mtim := (fst (st_mtim st), snd (st_mtim buf)),
      st_ctim := (fst (st_ctim st), snd (st_ctim buf))\<rparr>"

lemma stat_data_run:
  assumes "json_c_ok jc"
  shows "stat_data jc r (JObject (stat_members st)) buf s = (Ret (r, keep_nsec buf st), s)"
  by (simp add: stat_data_def bnd_def st_gets_run [OF assms])
     (simp add: stat_fields_def stat_members_def int_member_def keep_nsec_def)

lemma statfs_data_run:
  assumes "json_c_ok jc"
  shows "statfs_data jc r (JObject (statfs_members fs fsid)) buf s =
    (Ret (r, fs\<lparr>f_fsid := fsid_split (clamp 64 fsid), f_flags := f_flags buf\<rparr>), s)"
proof -
  have "st_gets jc (JObject (statfs_members fs fsid)) statfs_fields buf s =
      (Ret (fs\<lparr>f_fsid := f_fsid buf, f_flags := f_flags buf\<rparr>), s)"
    by (simp add: st_gets_run [OF assms])
       (simp add: statfs_fields_def statfs_members_def int_member_def)
  moreover have "int_member (statfs_members fs fsid) ''f_fsid'' = Some fsid"
    by (simp add: statfs_members_def int_member_def)
  ultimately show ?thesis
    by (simp add: statfs_data_def bnd_def st_get_run [OF assms])
qed

text \<open>The first \<open>n\<close> bytes of a buffer replaced by those of a text.\<close>

definition filled :: "nat \<Rightarrow> string \<Rightarrow> byte list \<Rightarrow> byte list" where
  "filled n t buf = map byte_of_char (take n t) @ drop n buf"

lemma copy_out_run:
  assumes "n \<le> length t"
  shows "copy_out n t buf s =
    (if n \<le> length buf then (Ret (filled n t buf), s) else (Fault Out_Of_Bounds, s))"
  using assms by (simp add: copy_out_def write_at_def filled_def)

lemma copy_out_never: "n \<le> length buf \<Longrightarrow> never Out_Of_Bounds (copy_out n t buf)"
  by (auto simp: copy_out_def write_at_def intro!: never_intros)

lemma read_data_run:
  assumes "json_c_ok jc"
  shows "read_data jc count code (JString t) buf s =
    (if unat count < length t \<or> int (length t) \<noteq> code then (Exit EPROTO, s)
     else if length t \<le> length buf then (Ret (code, filled (length t) t buf), s)
     else (Fault Out_Of_Bounds, s))"
  using assms by (auto simp: read_data_def Let_def check_def bnd_def copy_out_run)

lemma readlink_data_run:
  assumes "json_c_ok jc"
  shows "readlink_data jc bufsiz r (JString t) buf s =
    (if r \<noteq> int (length t) then (Exit EPROTO, s)
     else if min (length t) (unat bufsiz) \<le> length buf
       then (Ret (r, filled (min (length t) (unat bufsiz)) t buf), s)
     else (Fault Out_Of_Bounds, s))"
  using assms by (auto simp: readlink_data_def Let_def check_def bnd_def copy_out_run min_def)

lemma filled_inside:
  "n \<le> length t \<Longrightarrow> n \<le> m \<Longrightarrow> m \<le> length buf \<Longrightarrow>
   length (filled n t buf) = length buf \<and> drop m (filled n t buf) = drop m buf"
  by (simp add: filled_def)

lemma read_data_inside:
  assumes "read_data jc n r0 d buf s = (Ret (r, buf'), s')"
    and "json_c_ok jc" and "is_string d" and "unat n \<le> length buf"
  shows "r \<le> uint n \<and> length buf' = length buf \<and> drop (unat n) buf' = drop (unat n) buf"
proof -
  obtain t where d: "d = JString t" using assms(3) by (rule is_typeE)
  have "int (length t) \<le> uint n" if "length t \<le> unat n"
    using that by (metis of_nat_le_iff uint_nat)
  then show ?thesis
    using assms(1,2,4) filled_inside [of "length t" t "unat n" buf]
    by (auto simp: d read_data_run split: if_splits)
qed

lemma readlink_data_inside:
  assumes "readlink_data jc n r0 d buf s = (Ret (r, buf'), s')"
    and "json_c_ok jc" and "is_string d" and "unat n \<le> length buf"
  shows "length buf' = length buf \<and> drop (unat n) buf' = drop (unat n) buf"
proof -
  obtain t where d: "d = JString t" using assms(3) by (rule is_typeE)
  show ?thesis
    using assms(1,2,4) filled_inside [of "min (length t) (unat n)" t "unat n" buf]
    by (simp add: d readlink_data_run split: if_splits)
qed

lemma read_data_never:
  assumes "json_c_ok jc" and "is_string d" and "unat count \<le> length buf"
  shows "never Out_Of_Bounds (read_data jc count r d buf)"
  using assms by (auto simp: read_data_run never_def elim!: is_typeE split: if_splits)

lemma readlink_data_never:
  assumes "json_c_ok jc" and "is_string d" and "unat count \<le> length buf"
  shows "never Out_Of_Bounds (readlink_data jc count r d buf)"
  using assms by (auto simp: readlink_data_run never_def elim!: is_typeE split: if_splits)

section \<open>Properties\<close>

text \<open>
  C23. The three ways to ask for a file's status fill the caller's structure with exactly the
  thirteen values the peer reports, whatever the structure held, return 0 and set errno to 0. The
  nanoseconds of the time stamps are not written: they keep what the caller's memory held.
\<close>

theorem stat_roundtrip:
  assumes "json_c_ok jc" and "peer_answers jc s reply rest"
    and "carries reply 0 (JObject (stat_members st))"
  defines "after \<equiv> \<lambda>name arg. (sent jc name (JArray [arg]) rest s)\<lparr>errno := 0\<rparr>"
  shows "sb_stat jc path buf s =
      (Ret (0, keep_nsec buf st), after ''sys.stat'' (JString (cstr path))) \<and>
    sb_lstat jc path buf s =
      (Ret (0, keep_nsec buf st), after ''sys.lstat'' (JString (cstr path))) \<and>
    sb_fstat jc fd buf s = (Ret (0, keep_nsec buf st), after ''sys.fstat'' (JInt fd))"
proof -
  have "clamp 32 0 = 0" by (simp add: clamp_def)
  then show ?thesis
    by (simp add: after_def stat_data_run assms(1) stat_call.nested [OF assms(2,1,3)]
        lstat_call.nested [OF assms(2,1,3)] fstat_call.nested [OF assms(2,1,3)])
qed

definition demo_stat :: stat where
  "demo_stat = \<lparr>st_dev = 1, st_ino = 5, st_mode = 33188, st_nlink = 1, st_uid = 1000, st_gid = 1000,
     st_rdev = 0, st_size = 12, st_blksize = 4096, st_blocks = 8, st_atim = (7, 3), st_mtim = (8, 3),
     st_ctim = (9, 3)\<rparr>"

definition wrapped :: "int \<Rightarrow> json \<Rightarrow> json" where
  "wrapped c d = JObject [(''result'', JObject [(''code'', JInt c), (''data'', JObject [(''data'', d)])])]"

lemma carries_wrapped [simp]: "carries (wrapped c d) c d"
  by (simp add: carries_def wrapped_def result_of_def)

theorem stat_roundtrip_witness:
  "\<exists>s'. sb_lstat (json_c_with (\<lambda>_. wrapped 0 (JObject (stat_members demo_stat)))) ''/tmp''
      (demo_stat\<lparr>st_size := 99, st_atim := (0, 77)\<rparr>) demo_state =
    (Ret (0, demo_stat\<lparr>st_atim := (7, 77)\<rparr>), s')"
  using stat_roundtrip [OF json_c_with_ok demo_answers carries_wrapped, of demo_stat "''/tmp''"
      "demo_stat\<lparr>st_size := 99, st_atim := (0, 77)\<rparr>" 0]
  by (simp add: keep_nsec_def demo_stat_def)

text \<open>
  \<open>statfs\<close> stores the nine plain fields as they were sent; the identifier of the file
  system is stored as two halves, from which the 64 bits that were sent can be put together
  again, high half first.
\<close>

theorem statfs_roundtrip:
  assumes "json_c_ok jc" and "peer_answers jc s reply rest"
    and "carries reply 0 (JObject (statfs_members fs (sint fsid)))"
  shows "\<exists>out s'. sb_statfs jc path buf s = (Ret (0, out), s') \<and>
    (word_cat (fst (f_fsid out)) (snd (f_fsid out)) :: 64 word) = fsid \<and>
    out = fs\<lparr>f_fsid := f_fsid out, f_flags := f_flags buf\<rparr>"
proof -
  have "clamp 32 0 = 0" by (simp add: clamp_def)
  moreover have "(word_cat (word_of_int (drop_bit 32 (sint fsid)) :: 32 word)
      (word_of_int (sint fsid) :: 32 word) :: 64 word) = fsid"
    by (rule bit_word_eqI) (auto simp: bit_word_cat_iff bit_word_of_int_iff bit_simps)
  ultimately show ?thesis
    by (simp add: statfs_call.nested [OF assms(2,1,3)] statfs_data_run assms(1) fsid_split_def)
qed

definition demo_statfs :: statfs where
  "demo_statfs = \<lparr>f_type = 1, f_bsize = 2, f_blocks = 3, f_bfree = 4, f_bavail = 5, f_files = 6,
     f_ffree = 7, f_fsid = (0, 0), f_namelen = 8, f_frsize = 9, f_flags = 0\<rparr>"

theorem statfs_roundtrip_witness:
  "\<exists>out s'. sb_statfs (json_c_with (\<lambda>_. wrapped 0 (JObject
      (statfs_members demo_statfs (sint (0x100000002 :: 64 word))))))
      ''/'' (demo_statfs\<lparr>f_bsize := 0, f_flags := 6\<rparr>) demo_state = (Ret (0, out), s') \<and>
    (word_cat (fst (f_fsid out)) (snd (f_fsid out)) :: 64 word) = 0x100000002"
  using statfs_roundtrip [OF json_c_with_ok demo_answers carries_wrapped, of demo_statfs "0x100000002" "''/''"
      "demo_statfs\<lparr>f_bsize := 0, f_flags := 6\<rparr>"]
  by (elim exE conjE) (intro exI conjI, assumption, assumption)

text \<open>
  C24. \<open>read\<close> hands over exactly the bytes the peer reports and as many as it says, or ends
  the process: more bytes than were asked for, or a count that does not match, are not accepted.
  Beyond the bytes read, the buffer is as it was.
\<close>

theorem read_delivers:
  assumes "json_c_ok jc" and "peer_answers jc s reply rest" and "carries reply c (JString t)"
    and "0 < c" and "c < 2 ^ 31" and "unat count \<le> length buf"
  shows "fst (sb_read jc fd buf count s) =
    (if unat count < length t \<or> int (length t) \<noteq> c then Exit EPROTO
     else Ret (c, map byte_of_char t @ drop (length t) buf))"
proof -
  have "clamp 32 c = c" using assms(4,5) by (simp add: clamp_def)
  then show ?thesis
    using read_call.nested [OF assms(2,1,3), of "(fd, count)" buf] assms(4,6)
    by (auto simp: read_data_run assms(1) filled_def)
qed

theorem read_delivers_witness:
  "fst (sb_read (json_c_with (\<lambda>_. wrapped 2 (JString ''hi''))) 7 [1, 2, 3] 3 demo_state) =
    Ret (2, map byte_of_char ''hi'' @ [3])"
  using read_delivers [OF json_c_with_ok demo_answers carries_wrapped, of 2 3 "[1, 2, 3]" "''hi''" 7]
  by simp

text \<open>
  C25. Whatever a peer sends, \<open>read\<close> and \<open>readlink\<close> write only inside the number of bytes
  the caller gave them, and a read never claims more than that.
\<close>

theorem reads_stay_inside:
  fixes s :: "'a rpc_scheme"
  assumes "json_c_ok jc" and "unat n \<le> length buf"
  shows "fst (sb_read jc fd buf n s) \<noteq> Fault Out_Of_Bounds \<and>
    fst (sb_readlink jc path buf n s) \<noteq> Fault Out_Of_Bounds \<and>
    (\<forall>r buf' s'. sb_read jc fd buf n s = (Ret (r, buf'), s') \<longrightarrow>
       r \<le> uint n \<and> length buf' = length buf \<and> drop (unat n) buf' = drop (unat n) buf) \<and>
    (\<forall>r buf' s'. sb_readlink jc path buf n s = (Ret (r, buf'), s') \<longrightarrow>
       length buf' = length buf \<and> drop (unat n) buf' = drop (unat n) buf)"
proof -
  have "never Out_Of_Bounds (sb_read jc fd buf n :: ('a rpc_scheme, int \<times> byte list) prog)"
    using read_call.never_oob [where jc = jc and x = "(fd, n)" and b = buf] assms
    by (simp add: read_data_never)
  then have a: "fst (sb_read jc fd buf n s) \<noteq> Fault Out_Of_Bounds" by (rule never_run)
  have "never Out_Of_Bounds (sb_readlink jc path buf n :: ('a rpc_scheme, int \<times> byte list) prog)"
    using readlink_call.never_oob [where jc = jc and x = "(path, n)" and b = buf] assms
    by (simp add: readlink_data_never)
  then have b: "fst (sb_readlink jc path buf n s) \<noteq> Fault Out_Of_Bounds" by (rule never_run)
  have c: "r \<le> uint n \<and> length buf' = length buf \<and> drop (unat n) buf' = drop (unat n) buf"
    if "sb_read jc fd buf n s = (Ret (r, buf'), s')" for r buf' s'
    by (rule read_call.returns [of jc "(fd, n)" buf s r buf' s'])
       (use that assms in \<open>auto dest: read_data_inside intro: order_trans [of r 0]\<close>)
  have d: "length buf' = length buf \<and> drop (unat n) buf' = drop (unat n) buf"
    if "sb_readlink jc path buf n s = (Ret (r, buf'), s')" for r buf' s'
    by (rule readlink_call.returns [of jc "(path, n)" buf s r buf' s'])
       (use that assms in \<open>auto dest: readlink_data_inside\<close>)
  show ?thesis
    by (rule conjI [OF a conjI [OF b conjI]]) (intro allI impI, erule c, intro allI impI, erule d)
qed

theorem reads_stay_inside_witness:
  "fst (sb_read (json_c_with (\<lambda>_. wrapped 9 (JString ''more data''))) 7 [1, 2, 3] 3 demo_state)
    \<noteq> Fault Out_Of_Bounds"
  using reads_stay_inside [OF json_c_with_ok, where s = demo_state and n = 3 and buf = "[1, 2, 3]"]
  by simp

text \<open>
  \<open>readlink\<close> fills the buffer with as much of the target as fits, but returns the length of
  the whole target: a caller that trusts the result reads past what was written, and past the end
  of its buffer.
\<close>

theorem readlink_not_truncated:
  assumes "json_c_ok jc" and "peer_answers jc s reply rest"
    and "carries reply (int (length t)) (JString t)" and "t \<noteq> []" and "length t < 2 ^ 31"
    and "unat bufsiz \<le> length buf"
  shows "fst (sb_readlink jc path buf bufsiz s) =
    Ret (int (length t), map byte_of_char (take (unat bufsiz) t) @ drop (min (length t) (unat bufsiz)) buf)"
proof -
  have "clamp 32 (int (length t)) = int (length t)" using assms(5) by (simp add: clamp_def)
  moreover have "take (min (length t) (unat bufsiz)) t = take (unat bufsiz) t"
    by (simp add: min_def)
  ultimately show ?thesis
    using readlink_call.nested [OF assms(2,1,3), of "(path, bufsiz)" buf] assms(4,6)
    by (auto simp: readlink_data_run assms(1) filled_def)
qed

theorem readlink_not_truncated_witness:
  "fst (sb_readlink (json_c_with (\<lambda>_. wrapped 4 (JString ''/usr''))) ''/x'' [0, 0] 2 demo_state) =
    Ret (4, map byte_of_char ''/u'')"
  using readlink_not_truncated [OF json_c_with_ok demo_answers, of "wrapped 4 (JString ''/usr'')"
      "''/usr''" 2 "[0, 0]" "''/x''"]
  by simp


definition documented_reply :: json where
  "documented_reply = JObject [(''result'', JObject [(''code'', JInt 2), (''data'', JString ''hi'')])]"


end
