(* ===== verification/Dirents.thy ===== *)
theory Dirents
  imports Data
begin

text \<open>
  \<open>getdents\<close> and \<open>poll\<close> of \<open>sbio.c\<close>: the two calls whose reply is an array. \<open>getdents\<close>
  lays variable-length records out in the caller's memory, a list of bytes here; every store
  names its offset, and one that would leave the memory is the fault \<open>Out_Of_Bounds\<close>.
\<close>

section \<open>getdents\<close>

text \<open>
  \<open>struct linux_dirent\<close>: \<open>d_ino\<close> at 0 and \<open>d_off\<close> at 8, of 8 bytes, \<open>d_reclen\<close> at 16, of 2,
  the name from 18. \<open>misc\<close> counts these and the two bytes after the name.
\<close>

definition dirent_misc :: nat where "dirent_misc = 20"

definition put :: "nat \<Rightarrow> byte list \<Rightarrow> byte list \<Rightarrow> ('s, byte list) prog" where
  "put at bs buf = need (write_at at bs buf) (fault_with Out_Of_Bounds)"

text \<open>
  One turn of the loop. \<open>d_reclen\<close> is an \<open>unsigned short\<close>. \<open>off + d_reclen\<close> is an \<open>int\<close>,
  which wraps, and becomes an \<open>unsigned long\<close> by sign extension.
\<close>

definition next_off :: "nat \<Rightarrow> nat \<Rightarrow> nat" where
  "next_off off reclen =
    (let n = off + reclen in if n < 2 ^ 31 then n else n + (2 ^ 64 - 2 ^ 32))"

definition dirent_store ::
  "json_c \<Rightarrow> 32 word \<Rightarrow> json \<Rightarrow> nat \<Rightarrow> byte list \<Rightarrow> ('s, nat \<times> byte list) prog" where
  "dirent_store jc count obj off buf =
    bnd (check (is_object obj) (exit_with EPROTO)) (\<lambda>_.
    bnd (field jc obj ''d_ino'' is_int) (\<lambda>fld.
    bnd (put off (le_bytes 8 (get_int jc fld mod 2 ^ 32)) buf) (\<lambda>buf.
    bnd (field jc obj ''d_name'' is_string) (\<lambda>fld.
    let reclen = (dirent_misc + get_string_len jc fld) mod 2 ^ 16; d_off = next_off off reclen in
    bnd (put (off + 16) (le_bytes 2 (int reclen)) buf) (\<lambda>buf.
    bnd (put (off + 8) (le_bytes 8 (int d_off)) buf) (\<lambda>buf.
    bnd (check (d_off \<le> unat count) (exit_with EPROTO)) (\<lambda>_.
    bnd (need (get_string jc fld) (fault_with Null_Deref)) (\<lambda>name.
    bnd (put (off + 18) (map byte_of_char (cstr name @ [CHR 0x00])) buf) (\<lambda>buf.
    bnd (field jc obj ''d_type'' is_int) (\<lambda>fld.
    bnd (check (d_off > 0) (fault_with Out_Of_Bounds)) (\<lambda>_.
    bnd (put (d_off - 1) [word_of_int (get_int jc fld)] buf) (\<lambda>buf.
    ret (d_off, buf)))))))))))))"

text \<open>The loop carries \<open>off\<close>, the offset of the record \<open>d\<close> points to, and the memory.\<close>

fun dirents_loop ::
  "json_c \<Rightarrow> 32 word \<Rightarrow> json \<Rightarrow> nat list \<Rightarrow> nat \<times> nat \<times> byte list \<Rightarrow>
   ('s, nat \<times> nat \<times> byte list) prog" where
  "dirents_loop jc count data [] (off, d, buf) = ret (off, d, buf)"
| "dirents_loop jc count data (i # is) (off, d, buf) =
     bnd (dirent_store jc count (array_get_idx jc data i) off buf) (\<lambda>(off', buf).
     dirents_loop jc count data is (off', off, buf))"

text \<open>The return value \<open>d->d_off\<close> is read back from the memory, as an \<open>intptr_t\<close>.\<close>

definition read_back :: "nat \<Rightarrow> byte list \<Rightarrow> int" where
  "read_back d buf = sint (word_of_nat (le_nat (take 8 (drop (d + 8) buf))) :: 64 word)"

definition getdents_data ::
  "json_c \<Rightarrow> 32 word \<Rightarrow> int \<Rightarrow> json \<Rightarrow> byte list \<Rightarrow> ('s, int \<times> byte list) prog" where
  "getdents_data jc count r data dirp =
    (let len = array_length jc data in
     bnd (check (len \<noteq> 0) (exit_with EPROTO)) (\<lambda>_.
     bnd (dirents_loop jc count data [0..<len] (0, 0, dirp)) (\<lambda>(off, d, dirp).
     ret (read_back d dirp, dirp))))"

definition sb_getdents ::
  "json_c \<Rightarrow> 32 word \<Rightarrow> byte list \<Rightarrow> 32 word \<Rightarrow> ('a rpc_scheme, int \<times> byte list) prog" where
  "sb_getdents jc fd dirp count =
     bnd (trampoline jc True NS_SYS ''getdents'' 3
       [JInt (uint fd), JInt (uint count), JInt (int dirent_misc)]) (\<lambda>(r, out).
     if r \<le> 0 then ret (r, dirp)
     else bnd (field jc out ''data'' is_array) (\<lambda>data. getdents_data jc count r data dirp))"

interpretation getdents_call: data_call "\<lambda>jc (fd, count) dirp. sb_getdents jc fd dirp count"
    "''getdents''" "\<lambda>(fd, count) b. [JInt (uint fd), JInt (uint count), JInt (int dirent_misc)]"
    "\<lambda>r. r \<le> 0" is_array "\<lambda>jc (fd, count). getdents_data jc count"
  by unfold_locales (simp_all add: sb_getdents_def split: prod.split)

section \<open>poll\<close>

record pollfd =
  pfd :: int
  events :: "16 word"
  revents :: "16 word"

definition pollfd_json :: "pollfd \<Rightarrow> json" where
  "pollfd_json p = JObject [(''fd'', JInt (pfd p)), (''events'', JInt (sint (events p)))]"

fun poll_loop :: "json_c \<Rightarrow> json \<Rightarrow> nat \<Rightarrow> pollfd list \<Rightarrow> ('s, pollfd list) prog" where
  "poll_loop jc data i [] = ret []"
| "poll_loop jc data i (p # ps) =
     bnd (check (is_int (array_get_idx jc data i)) (exit_with EPROTO)) (\<lambda>_.
     bnd (poll_loop jc data (i + 1) ps) (\<lambda>ps.
     ret (p\<lparr>revents := word_of_int (get_int jc (array_get_idx jc data i))\<rparr> # ps)))"

definition poll_data :: "json_c \<Rightarrow> int \<Rightarrow> json \<Rightarrow> pollfd list \<Rightarrow> ('s, int \<times> pollfd list) prog" where
  "poll_data jc r data fds =
    (let len = array_length jc data in
     bnd (check (len \<noteq> 0) (exit_with EPROTO)) (\<lambda>_.
     bnd (check (len = length fds) (exit_with EPROTO)) (\<lambda>_.
     bnd (poll_loop jc data 0 fds) (\<lambda>fds.
     ret (r, fds)))))"

definition sb_poll :: "json_c \<Rightarrow> int \<Rightarrow> pollfd list \<Rightarrow> ('a rpc_scheme, int \<times> pollfd list) prog" where
  "sb_poll jc timeout fds =
     bnd (trampoline jc True NS_SYS ''poll'' 2 [JArray (map pollfd_json fds), JInt timeout])
       (\<lambda>(r, out).
     if r \<le> 0 then ret (r, fds)
     else bnd (field jc out ''data'' is_array) (\<lambda>data. poll_data jc r data fds))"

interpretation poll_call: data_call sb_poll "''poll''"
    "\<lambda>timeout fds. [JArray (map pollfd_json fds), JInt timeout]"
    "\<lambda>r. r \<le> 0" is_array "\<lambda>jc timeout. poll_data jc"
  by unfold_locales (simp_all add: sb_poll_def)

section \<open>Directory entries as the guest reads them\<close>

record dirent =
  d_ino :: nat
  d_name :: string
  d_type :: byte

definition dirent_json :: "dirent \<Rightarrow> json" where
  "dirent_json e = JObject [(''d_ino'', JInt (int (d_ino e))), (''d_name'', JString (d_name e)),
     (''d_type'', JInt (uint (d_type e)))]"

definition dirent_ok :: "dirent \<Rightarrow> bool" where
  "dirent_ok e \<longleftrightarrow> CHR 0x00 \<notin> set (d_name e) \<and> length (d_name e) + 20 < 65536 \<and> d_ino e < 2 ^ 31"

definition dirent_size :: "dirent \<Rightarrow> nat" where
  "dirent_size e = 20 + length (d_name e)"

definition dirent_bytes :: "nat \<Rightarrow> dirent \<Rightarrow> byte list" where
  "dirent_bytes off e =
     le_bytes 8 (int (d_ino e)) @ le_bytes 8 (int (off + dirent_size e)) @
     le_bytes 2 (int (dirent_size e)) @ map byte_of_char (d_name e @ [CHR 0x00]) @ [d_type e]"

fun dirents_bytes :: "nat \<Rightarrow> dirent list \<Rightarrow> byte list" where
  "dirents_bytes off [] = []"
| "dirents_bytes off (e # es) = dirent_bytes off e @ dirents_bytes (off + dirent_size e) es"

lemma length_dirent_bytes [simp]: "length (dirent_bytes off e) = dirent_size e"
  by (simp add: dirent_bytes_def dirent_size_def)

lemma length_dirents_bytes [simp]:
  "length (dirents_bytes off es) = sum_list (map dirent_size es)"
  by (induction es arbitrary: off) simp_all

text \<open>How a program walks over the buffer: by \<open>d_reclen\<close>, the type in the last byte.\<close>

function walk_dirents :: "byte list \<Rightarrow> dirent list" where
  "walk_dirents bs =
    (let reclen = le_nat (take 2 (drop 16 bs)) in
     if reclen < 20 \<or> length bs < reclen then []
     else \<lparr>d_ino = le_nat (take 8 bs), d_name = cstr (map char_of_byte (take (reclen - 19) (drop 18 bs))),
            d_type = bs ! (reclen - 1)\<rparr> # walk_dirents (drop reclen bs))"
  by auto
termination by (relation "measure length") auto

declare walk_dirents.simps [simp del]

section \<open>The loop, record by record\<close>

lemma put_append:
  "length p = at \<Longrightarrow> length bs = length m \<Longrightarrow> put at bs (p @ m @ q) s = (Ret (p @ bs @ q), s)"
  by (simp add: put_def write_at_append)

lemma put_run:
  "put at bs buf s =
    (if at + length bs \<le> length buf
     then (Ret (take at buf @ bs @ drop (at + length bs) buf), s) else (Fault Out_Of_Bounds, s))"
  by (simp add: put_def write_at_def)

lemma split_lengths:
  assumes "n + k \<le> length buf"
  obtains p m q where "buf = p @ m @ q" "length p = n" "length m = k" "q = drop (n + k) buf"
    "p = take n buf"
proof -
  have "buf = take n buf @ take k (drop n buf) @ drop (n + k) buf"
    by (metis append_take_drop_id drop_drop add.commute)
  with that [of "take n buf" "take k (drop n buf)"] assms show thesis by simp
qed

lemma word_of_get_int_byte: "(word_of_int (clamp 32 (uint (b :: byte))) :: byte) = b"
proof -
  have "uint b < 2 ^ 8" "0 \<le> uint b" using unsigned_less [of b] by simp_all
  then have "clamp 32 (uint b) = uint b" by (intro clamp_id) (simp_all add: order_trans [OF _ \<open>0 \<le> uint b\<close>])
  then show ?thesis by simp
qed

text \<open>The room of a record, cut at the places of its fields.\<close>

lemma dirent_room:
  assumes "off + dirent_size e \<le> length buf"
  obtains p a o' l nm t q where "buf = p @ a @ o' @ l @ nm @ [t] @ q" "length p = off"
    "length a = 8" "length o' = 8" "length l = 2" "length nm = length (d_name e) + 1"
    "q = drop (off + dirent_size e) buf" "p = take off buf"
proof -
  from assms obtain p m q where b: "buf = p @ m @ q" "length p = off" "length m = dirent_size e"
    "q = drop (off + dirent_size e) buf" "p = take off buf" by (rule split_lengths)
  obtain a m1 where m1: "m = a @ m1" "length a = 8"
    using b(3) by (intro that [of "take 8 m" "drop 8 m"]) (simp_all add: dirent_size_def)
  obtain o' m2 where m2: "m1 = o' @ m2" "length o' = 8"
    using b(3) m1 by (intro that [of "take 8 m1" "drop 8 m1"]) (simp_all add: dirent_size_def)
  obtain l m3 where m3: "m2 = l @ m3" "length l = 2"
    using b(3) m1 m2 by (intro that [of "take 2 m2" "drop 2 m2"]) (simp_all add: dirent_size_def)
  obtain nm t where m4: "m3 = nm @ [t]" "length nm = length (d_name e) + 1"
    using b(3) m1 m2 m3 by (cases m3 rule: rev_cases) (auto simp: dirent_size_def)
  show thesis
  proof (rule that [of p a o' l nm t q])
    show "buf = p @ a @ o' @ l @ nm @ [t] @ q" by (simp add: b(1) m1 m2 m3 m4)
  qed (fact b m1 m2 m3 m4)+
qed

lemma dirent_store_run:
  assumes ok: "json_c_ok jc" and e: "dirent_ok e" and fits: "off + dirent_size e \<le> unat count"
    and small: "unat count < 2 ^ 31" and room: "off + dirent_size e \<le> length buf"
  shows "dirent_store jc count (dirent_json e) off buf s =
    (Ret (off + dirent_size e,
          take off buf @ dirent_bytes off e @ drop (off + dirent_size e) buf), s)"
proof -
  obtain p a o' l nm t q where buf: "buf = p @ a @ o' @ l @ nm @ [t] @ q" and p: "length p = off"
    and m: "length a = 8" "length o' = 8" "length l = 2" "length nm = length (d_name e) + 1"
    and pq: "q = drop (off + dirent_size e) buf" "p = take off buf"
    using room by (rule dirent_room)
  have c1: "clamp 32 (int (d_ino e)) = int (d_ino e)"
    using e by (simp add: dirent_ok_def clamp_def)
  have c2: "int (d_ino e) mod 4294967296 = int (d_ino e)"
    using e by (simp add: dirent_ok_def)
  have r: "(dirent_misc + length (d_name e)) mod 65536 = dirent_size e"
    using e by (simp add: dirent_ok_def dirent_misc_def dirent_size_def)
  have o2: "next_off off (dirent_size e) = off + dirent_size e"
    using fits small by (simp add: next_off_def)
  have nn: "cstr (d_name e) = d_name e" using e by (simp add: dirent_ok_def)
  let ?N = "map byte_of_char (d_name e @ [CHR 0x00])"
  let ?I = "le_bytes 8 (int (d_ino e))" and ?O = "le_bytes 8 (int (off + dirent_size e))"
    and ?L = "le_bytes 2 (int (dirent_size e))"
  have w1: "put off ?I buf s = (Ret (p @ ?I @ o' @ l @ nm @ [t] @ q), s)" for s :: 'a
    unfolding buf by (rule put_append) (simp_all add: p m)
  have w2: "put (off + 16) ?L (p @ ?I @ o' @ l @ nm @ [t] @ q) s =
      (Ret (p @ ?I @ o' @ ?L @ nm @ [t] @ q), s)" for s :: 'a
    using put_append [of "p @ ?I @ o'" "off + 16" ?L l "nm @ [t] @ q" s] by (simp add: p m)
  have w3: "put (off + 8) ?O (p @ ?I @ o' @ ?L @ nm @ [t] @ q) s =
      (Ret (p @ ?I @ ?O @ ?L @ nm @ [t] @ q), s)" for s :: 'a
    using put_append [of "p @ ?I" "off + 8" ?O o' "?L @ nm @ [t] @ q" s] by (simp add: p m)
  have w4: "put (off + 18) ?N (p @ ?I @ ?O @ ?L @ nm @ [t] @ q) s =
      (Ret (p @ ?I @ ?O @ ?L @ ?N @ [t] @ q), s)" for s :: 'a
    using put_append [of "p @ ?I @ ?O @ ?L" "off + 18" ?N nm "[t] @ q" s] by (simp add: p m)
  have w5: "put (off + dirent_size e - 1) [d_type e] (p @ ?I @ ?O @ ?L @ ?N @ [t] @ q) s =
      (Ret (p @ ?I @ ?O @ ?L @ ?N @ [d_type e] @ q), s)" for s :: 'a
    using put_append [of "p @ ?I @ ?O @ ?L @ ?N" "off + dirent_size e - 1" "[d_type e]" "[t]" q s]
    by (simp add: p m dirent_size_def)
  have pos: "0 < off + dirent_size e" by (simp add: dirent_size_def)
  show ?thesis
    using fits pos
    by (simp add: dirent_store_def bnd_def field_run [OF ok] dirent_json_def Let_def ok c1 c2 r o2 nn
        w1 [simplified] w2 [simplified] w3 [simplified] w4 [simplified] w5 [simplified]
        word_of_get_int_byte dirent_bytes_def flip: pq)
qed

lemma dirents_loop_run:
  assumes ok: "json_c_ok jc" and small: "unat count < 2 ^ 31"
    and "list_all2 (\<lambda>i e. array_get_idx jc data i = dirent_json e) is es"
    and "\<forall>e \<in> set es. dirent_ok e"
    and "off + sum_list (map dirent_size es) \<le> unat count"
    and "off + sum_list (map dirent_size es) \<le> length buf"
  shows "\<exists>d'. dirents_loop jc count data is (off, d, buf) s =
    (Ret (off + sum_list (map dirent_size es), d',
       take off buf @ dirents_bytes off es @ drop (off + sum_list (map dirent_size es)) buf), s) \<and>
    d' = (if es = [] then d else off + sum_list (map dirent_size (butlast es)))"
  using assms(3-6)
proof (induction "is" arbitrary: es off d buf)
  case Nil
  then show ?case by simp
next
  case (Cons i "is")
  from Cons.prems(1) obtain e es' where es: "es = e # es'" "array_get_idx jc data i = dirent_json e"
    "list_all2 (\<lambda>i e. array_get_idx jc data i = dirent_json e) is es'"
    by (auto simp: list_all2_Cons1)
  let ?off = "off + dirent_size e"
  let ?buf = "take off buf @ dirent_bytes off e @ drop ?off buf"
  have step: "dirent_store jc count (dirent_json e) off buf s = (Ret (?off, ?buf), s)"
    using Cons.prems es(1) small by (intro dirent_store_run ok) simp_all
  have "\<exists>d'. dirents_loop jc count data is (?off, off, ?buf) s =
    (Ret (?off + sum_list (map dirent_size es'), d',
       take ?off ?buf @ dirents_bytes ?off es' @ drop (?off + sum_list (map dirent_size es')) ?buf), s) \<and>
    d' = (if es' = [] then off else ?off + sum_list (map dirent_size (butlast es')))"
    using Cons.prems es by (intro Cons.IH) simp_all
  moreover have "take ?off ?buf = take off buf @ dirent_bytes off e"
    "drop (?off + sum_list (map dirent_size es')) ?buf = drop (?off + sum_list (map dirent_size es')) buf"
    using Cons.prems(4) es(1) by (simp_all add: min_def ac_simps)
  ultimately show ?case
    by (auto simp: es bnd_def step add.assoc)
qed

text \<open>When the records before it fill the buffer, the next one is stored outside.\<close>

lemma dirents_loop_append:
  "dirents_loop jc count data (is @ js) st s =
   bnd (dirents_loop jc count data is st) (dirents_loop jc count data js) s"
  by (induction "is" arbitrary: st s)
     (auto simp: bnd_def split: prod.splits outcome.splits)

lemma dirents_overrun:
  assumes ok: "json_c_ok jc" and small: "unat count < 2 ^ 31"
    and es: "\<forall>e \<in> set es. dirent_ok e" "sum_list (map dirent_size es) = unat count"
      "unat count = length buf"
  shows "fst (dirents_loop jc count (JArray (map dirent_json (es @ [e]))) [0..<length (es @ [e])]
    (0, 0, buf) s) = Fault Out_Of_Bounds"
proof -
  let ?data = "JArray (map dirent_json (es @ [e]))"
  have idx: "list_all2 (\<lambda>i e. array_get_idx jc ?data i = dirent_json e) [0..<length es] es"
    using ok by (simp add: list_all2_conv_all_nth nth_append)
  from dirents_loop_run [OF ok small idx es(1), of 0 buf 0 s] es(2,3) obtain d' where
    loop: "dirents_loop jc count ?data [0..<length es] (0, 0, buf) s =
      (Ret (unat count, d', dirents_bytes 0 es), s)" by auto
  have last: "array_get_idx jc ?data (length es) = dirent_json e"
    using ok by (simp add: nth_append)
  have "dirent_store jc count (dirent_json e) (unat count) (dirents_bytes 0 es) s =
      (Fault Out_Of_Bounds, s)"
    using es(2) by (simp add: dirent_store_def bnd_def field_run [OF ok] dirent_json_def put_run)
  then show ?thesis
    by (simp add: dirents_loop_append loop [simplified] last [simplified] bnd_def)
qed

lemma dirents_bytes_snoc:
  "dirents_bytes off (es @ [e]) =
   dirents_bytes off es @ dirent_bytes (off + sum_list (map dirent_size es)) e"
  by (induction es arbitrary: off) (simp_all add: add.assoc)

lemma walk_step:
  assumes "dirent_ok e"
  shows "walk_dirents (dirent_bytes off e @ bs) = e # walk_dirents bs"
proof -
  let ?b = "dirent_bytes off e @ bs"
  have len: "dirent_size e < 65536" "20 \<le> dirent_size e" "length (d_name e) + 20 = dirent_size e"
    using assms by (simp_all add: dirent_ok_def dirent_size_def)
  have "take 2 (drop 16 ?b) = le_bytes 2 (int (dirent_size e))"
    by (simp add: dirent_bytes_def)
  then have r: "le_nat (take 2 (drop 16 ?b)) = dirent_size e"
    using len by (simp add: le_nat_of_nat)
  have "take 8 ?b = le_bytes 8 (int (d_ino e))" by (simp add: dirent_bytes_def)
  then have i: "le_nat (take 8 ?b) = d_ino e"
    using assms by (simp add: le_nat_of_nat dirent_ok_def)
  have "take (dirent_size e - 19) (drop 18 ?b) = map byte_of_char (d_name e @ [CHR 0x00])"
    by (simp add: dirent_bytes_def dirent_size_def)
  then have "map char_of_byte (take (dirent_size e - 19) (drop 18 ?b)) = d_name e @ [CHR 0x00]"
    by (simp add: comp_def)
  then have n: "cstr (map char_of_byte (take (dirent_size e - 19) (drop 18 ?b))) = d_name e"
    using assms by (simp add: dirent_ok_def)
  have t: "?b ! (dirent_size e - 1) = d_type e"
    by (simp add: dirent_bytes_def dirent_size_def nth_append)
  have "walk_dirents ?b =
      \<lparr>d_ino = d_ino e, d_name = d_name e, d_type = d_type e\<rparr> # walk_dirents (drop (dirent_size e) ?b)"
    unfolding walk_dirents.simps [of ?b] Let_def r i n t using len by simp
  then show ?thesis by simp
qed

lemma walk_dirents_bytes:
  "\<forall>e \<in> set es. dirent_ok e \<Longrightarrow> walk_dirents (dirents_bytes off es) = es"
  by (induction es arbitrary: off) (simp_all add: walk_step, simp add: walk_dirents.simps)

lemma sint_of_nat64: "n < 2 ^ 63 \<Longrightarrow> sint (word_of_nat n :: 64 word) = int n"
  by (simp add: signed_of_nat signed_take_bit_int_eq_self)

lemma read_back_last:
  assumes "length p = d" and "d + dirent_size e < 2 ^ 31"
  shows "read_back d (p @ dirent_bytes d e @ q) = int (d + dirent_size e)"
proof -
  have "take 8 (drop (d + 8) (p @ dirent_bytes d e @ q)) = le_bytes 8 (int (d + dirent_size e))"
    using assms(1) by (simp add: dirent_bytes_def)
  moreover have "le_nat (le_bytes 8 (int (d + dirent_size e))) = d + dirent_size e"
    using assms(2) by (intro le_nat_of_nat) simp
  ultimately have "read_back d (p @ dirent_bytes d e @ q) = sint (word_of_nat (d + dirent_size e) :: 64 word)"
    by (simp only: read_back_def)
  also have "\<dots> = int (d + dirent_size e)"
    using assms(2) by (intro sint_of_nat64) simp
  finally show ?thesis .
qed

lemma getdents_data_run:
  assumes ok: "json_c_ok jc" and small: "unat count < 2 ^ 31" and "es \<noteq> []"
    and "\<forall>e \<in> set es. dirent_ok e"
    and fits: "sum_list (map dirent_size es) \<le> unat count" "unat count \<le> length buf"
  shows "getdents_data jc count r (JArray (map dirent_json es)) buf s =
    (Ret (int (sum_list (map dirent_size es)),
      dirents_bytes 0 es @ drop (sum_list (map dirent_size es)) buf), s)"
proof -
  let ?total = "sum_list (map dirent_size es)"
  have idx: "list_all2 (\<lambda>i e. array_get_idx jc (JArray (map dirent_json es)) i = dirent_json e)
      [0..<length es] es"
    using ok by (simp add: list_all2_conv_all_nth)
  obtain fs e where es: "es = fs @ [e]" using \<open>es \<noteq> []\<close> by (cases es rule: rev_cases) auto
  let ?d = "sum_list (map dirent_size fs)"
  from dirents_loop_run [OF ok small idx assms(4), of 0 buf 0 s] fits
  have loop: "dirents_loop jc count (JArray (map dirent_json es)) [0..<length es] (0, 0, buf) s =
      (Ret (?total, ?d, dirents_bytes 0 es @ drop ?total buf), s)"
    by (simp add: es)
  have "read_back ?d (dirents_bytes 0 es @ drop ?total buf) = int ?total"
    using read_back_last [of "dirents_bytes 0 fs" ?d e "drop ?total buf"] fits small
    by (simp add: es dirents_bytes_snoc)
  then show ?thesis
    using ok \<open>es \<noteq> []\<close> by (simp add: getdents_data_def bnd_def loop Let_def)
qed

text \<open>
  Outside the buffer: if every name is short enough for \<open>d_reclen\<close>, a record is refused
  unless it ends inside \<open>count\<close> bytes, but its first 18 bytes are stored before that is known.
\<close>

definition short_name :: "json \<Rightarrow> bool" where
  "short_name obj = (case obj of
     JObject mem \<Rightarrow> (case map_of mem ''d_name'' of
        Some (JString n) \<Rightarrow> length n + 20 < 65536 | _ \<Rightarrow> True)
   | _ \<Rightarrow> True)"

lemma put_never: "at + length bs \<le> length buf \<Longrightarrow> never Out_Of_Bounds (put at bs buf)"
  by (simp add: never_def put_run)

lemma put_Ret_iff: "put at bs buf s = (Ret buf', s') \<longleftrightarrow> write_at at bs buf = Some buf' \<and> s' = s"
  by (auto simp: put_def need_Ret_iff)

lemma field_Ret_iff: "field jc obj k ty s = (Ret j, s') \<longleftrightarrow> get_ex jc obj k = Some j \<and> ty j \<and> s' = s"
  by (auto simp: field_def ret_iffs)

lemmas store_iffs = ret_iffs put_Ret_iff field_Ret_iff

lemma field_never [never_intros]: "never e (field jc obj k ty)"
  by (auto simp: field_def intro!: never_intros)

lemma short_nameD:
  assumes "json_c_ok jc" and "short_name obj" and "get_ex jc obj ''d_name'' = Some j" and "is_string j"
  shows "(dirent_misc + get_string_len jc j) mod 2 ^ 16 = 20 + get_string_len jc j \<and>
    get_string_len jc j = length (the (get_string jc j)) \<and> get_string jc j \<noteq> None"
proof -
  obtain t where t: "j = JString t" using assms(4) by (rule is_typeE)
  have "is_object obj" using assms(1,3) get_ex_no_object [of jc obj "''d_name''"] by auto
  then obtain mem where "obj = JObject mem" by (rule is_typeE)
  with assms t show ?thesis by (simp add: short_name_def dirent_misc_def)
qed

lemma next_off_word:
  "next_off off r \<le> unat (c :: 32 word) \<Longrightarrow> next_off off r = off + r \<and> off + r \<le> unat c"
proof -
  have "unat c < 2 ^ LENGTH(32)" by (rule unsigned_less)
  then show "next_off off r \<le> unat c \<Longrightarrow> next_off off r = off + r \<and> off + r \<le> unat c"
    by (auto simp: next_off_def Let_def split: if_splits)
qed

lemma next_off_pos: "next_off off (20 + r) \<noteq> 0"
  by (simp add: next_off_def Let_def)

lemma cstr_length: "length (cstr n) \<le> length n"
  by (metis strlen_def strlen_le)

lemma name_fits: "off + (20 + length n) \<le> c \<Longrightarrow> c + 18 \<le> k \<Longrightarrow> 19 + (off + length (cstr n)) \<le> k"
  using cstr_length [of n] by simp

lemma dirent_store_never:
  assumes "json_c_ok jc" and "short_name obj" and "off \<le> unat count"
    and "unat count + 18 \<le> length buf"
  shows "never Out_Of_Bounds (dirent_store jc count obj off buf)"
  unfolding dirent_store_def Let_def
  using assms(3,4)
  by (intro never_intros put_never fault.distinct)
     (auto simp: store_iffs next_off_pos dest!: write_at_length short_nameD [OF assms(1,2)] next_off_word
        intro: name_fits)

text \<open>A store that succeeds moves the offset to its end and leaves alone what is behind.\<close>

lemma dirent_store_keeps:
  assumes ok: "json_c_ok jc" "short_name obj" and "off \<le> unat count"
    and run: "dirent_store jc count obj off buf s = (Ret (off', buf'), s')"
  shows "off' \<le> unat count \<and> length buf' = length buf \<and>
    drop (unat count + 18) buf' = drop (unat count + 18) buf"
proof -
  let ?k = "unat count + 18"
  from run obtain i b1 b2 b3 name n b4 t where
    w: "write_at off i buf = Some b1" "length i = 8"
      "write_at (off + 16) (le_bytes 2 (20 + int (length n))) b1 = Some b2"
      "write_at (off + 8) (le_bytes 8 (int off')) b2 = Some b3"
      "write_at (off + 18) (map byte_of_char (cstr n @ [CHR 0x00])) b3 = Some b4"
      "write_at (off' - 1) [t] b4 = Some buf'" and
    o': "off' = off + (20 + length n)" "off' \<le> unat count"
    by (auto simp: dirent_store_def store_iffs Let_def dest!: short_nameD [OF ok] next_off_word)
  have "off + 18 + length (map byte_of_char (cstr n @ [CHR 0x00])) \<le> ?k"
    using o' cstr_length [of n] by simp
  with w o' assms(3) have "drop ?k buf' = drop ?k b4" "drop ?k b4 = drop ?k b3"
    "drop ?k b3 = drop ?k b2" "drop ?k b2 = drop ?k b1" "drop ?k b1 = drop ?k buf"
    by (auto intro!: write_at_keeps)
  moreover have "length buf' = length buf" using w by (simp add: write_at_length)
  ultimately show ?thesis using o' by simp
qed

lemma dirents_loop_bounded:
  assumes ok: "json_c_ok jc" and "\<forall>i \<in> set is. short_name (array_get_idx jc data i)"
    and "off \<le> unat count" and "unat count + 18 \<le> length buf"
  shows "never Out_Of_Bounds (dirents_loop jc count data is (off, d, buf))"
    and "dirents_loop jc count data is (off, d, buf) s = (Ret (off', d', buf'), s') \<Longrightarrow>
      length buf' = length buf \<and> drop (unat count + 18) buf' = drop (unat count + 18) buf"
  using assms(2-4)
proof (induction "is" arbitrary: off d buf s)
  case (Cons i "is")
  {
    case 1
    then show ?case
      by (auto intro!: never_intros dirent_store_never ok Cons.IH
          dest!: dirent_store_keeps [OF ok, rotated -1])
  next
    case 2
    then obtain o1 b1 s1 where
      st: "dirent_store jc count (array_get_idx jc data i) off buf s = (Ret (o1, b1), s1)" and
      rest: "dirents_loop jc count data is (o1, off, b1) s1 = (Ret (off', d', buf'), s')"
      by (auto simp: bnd_Ret_iff)
    have "o1 \<le> unat count \<and> length b1 = length buf \<and>
        drop (unat count + 18) b1 = drop (unat count + 18) buf"
      using 2 by (intro dirent_store_keeps [OF ok _ _ st]) simp_all
    with Cons.IH(2) [OF rest] 2 show ?case by simp
  }
qed (simp_all add: never_ret)

section \<open>poll, element by element\<close>

lemma poll_loop_run:
  assumes "json_c_ok jc" and "length ps = length vs"
    and "\<And>k. k < length vs \<Longrightarrow> array_get_idx jc data (i + k) = JInt (vs ! k)"
  shows "poll_loop jc data i ps s =
    (Ret (map2 (\<lambda>p v. p\<lparr>revents := word_of_int (clamp 32 v)\<rparr>) ps vs), s)"
  using assms(2,3)
proof (induction ps arbitrary: i vs)
  case (Cons p ps)
  then obtain v vs' where vs: "vs = v # vs'" by (cases vs) auto
  have "array_get_idx jc data i = JInt v" using Cons.prems(2) [of 0] vs by simp
  moreover have "array_get_idx jc data (Suc i + k) = JInt (vs' ! k)" if "k < length vs'" for k
    using Cons.prems(2) [of "Suc k"] vs that by simp
  ultimately show ?case
    using Cons.IH [of vs' "Suc i"] Cons.prems(1) vs assms(1) by (simp add: bnd_def)
qed simp

lemma poll_data_run:
  assumes "json_c_ok jc" and "vs \<noteq> []"
  shows "poll_data jc r (JArray (map JInt vs)) fds s =
    (if length vs = length fds
     then Ret (r, map2 (\<lambda>p v. p\<lparr>revents := word_of_int (clamp 32 v)\<rparr>) fds vs)
     else Exit EPROTO, s)"
  using assms poll_loop_run [OF assms(1), of fds vs "JArray (map JInt vs)" 0 s]
  by (simp add: poll_data_def bnd_def Let_def)

section \<open>Properties\<close>

text \<open>
  C27. The records \<open>getdents\<close> lays out are the entries the peer sent: a program that walks the
  first bytes of the buffer, as many as the call returns, by \<open>d_reclen\<close> finds every entry in
  order, with its inode, name and type, and nothing else. The rest of the buffer is untouched.
\<close>

theorem getdents_roundtrip:
  assumes "json_c_ok jc" and "peer_answers jc s reply rest"
    and "carries reply c (JArray (map dirent_json es))" and "0 < c" and "c < 2 ^ 31"
    and "es \<noteq> []" and "\<forall>e \<in> set es. dirent_ok e"
    and "sum_list (map dirent_size es) \<le> unat count" and "unat count \<le> length dirp"
    and "unat count < 2 ^ 31"
  shows "\<exists>buf total. fst (sb_getdents jc fd dirp count s) = Ret (int total, buf) \<and>
    walk_dirents (take total buf) = es \<and> total \<le> unat count \<and>
    length buf = length dirp \<and> drop total buf = drop total dirp"
proof -
  have "clamp 32 c = c" using assms(4,5) by (simp add: clamp_def)
  then have "fst (sb_getdents jc fd dirp count s) =
    Ret (int (sum_list (map dirent_size es)),
      dirents_bytes 0 es @ drop (sum_list (map dirent_size es)) dirp)"
    using getdents_call.nested [OF assms(2,1,3), of "(fd, count)" dirp] assms(4)
    by (simp add: getdents_data_run [OF assms(1,10,6-9)])
  with assms(7-9) show ?thesis
    by (intro exI [of _ "dirents_bytes 0 es @ drop (sum_list (map dirent_size es)) dirp"]
          exI [of _ "sum_list (map dirent_size es)"]) (simp add: walk_dirents_bytes)
qed

definition demo_dirents :: "dirent list" where
  "demo_dirents =
    [\<lparr>d_ino = 2, d_name = ''.'', d_type = 4\<rparr>, \<lparr>d_ino = 77, d_name = ''lib'', d_type = 8\<rparr>]"

lemma demo_dirents_facts:
  "demo_dirents \<noteq> []" "\<forall>e \<in> set demo_dirents. dirent_ok e"
  "sum_list (map dirent_size demo_dirents) = 44"
  by (simp_all add: demo_dirents_def dirent_ok_def dirent_size_def)

theorem getdents_roundtrip_witness:
  "\<exists>buf total. fst (sb_getdents (json_c_with (\<lambda>_. wrapped 1 (JArray (map dirent_json demo_dirents))))
      3 (replicate 60 0) 60 demo_state) = Ret (int total, buf) \<and>
    walk_dirents (take total buf) = demo_dirents"
  using getdents_roundtrip [OF json_c_with_ok demo_answers carries_wrapped, of 1 demo_dirents 60
      "replicate 60 0" 3]
  by (auto simp: demo_dirents_facts)

text \<open>
  C28. However many entries a peer sends and whatever they are, as long as no name is 64 KiB long
  \<open>getdents\<close> stores nothing beyond \<open>count\<close> + 18 bytes: with that much room it leaves no object
  and the bytes behind are unchanged.
\<close>

theorem getdents_bounded:
  fixes s :: "'a rpc_scheme"
  assumes "json_c_ok jc" and "peer_answers jc s reply rest" and "carries reply c (JArray objs)"
    and "\<forall>obj \<in> set objs. short_name obj" and "unat count + 18 \<le> length dirp"
  shows "fst (sb_getdents jc fd dirp count s) \<noteq> Fault Out_Of_Bounds \<and>
    (\<forall>r buf s'. sb_getdents jc fd dirp count s = (Ret (r, buf), s') \<longrightarrow>
       length buf = length dirp \<and> drop (unat count + 18) buf = drop (unat count + 18) dirp)"
proof (cases "clamp 32 c \<le> 0")
  case True
  from assms(3) obtain res where
    r: "result_of reply = Some res" "map_of res ''code'' = Some (JInt c)" "map_of res ''base64'' = None"
    by (rule carriesE)
  show ?thesis
    using getdents_call.final_code [OF assms(2,1) r(1,2) True r(3), of "(fd, count)" dirp] by simp
next
  case False
  let ?after = "(sent jc ''sys.getdents'' (JArray [JInt (uint fd), JInt (uint count), JInt (int dirent_misc)])
    rest s)\<lparr>errno := 0\<rparr>"
  have run: "sb_getdents jc fd dirp count s =
      getdents_data jc count (clamp 32 c) (JArray objs) dirp ?after"
    using getdents_call.nested [OF assms(2,1,3), of "(fd, count)" dirp] False by simp
  have short: "\<forall>i \<in> set [0..<length objs]. short_name (array_get_idx jc (JArray objs) i)"
    using assms(1,4) by simp
  note b = dirents_loop_bounded [OF assms(1) short _ assms(5), of 0 0]
  have "never Out_Of_Bounds (getdents_data jc count (clamp 32 c) (JArray objs) dirp
      :: ('a rpc_scheme, int \<times> byte list) prog)"
    using assms(1) b(1) by (auto simp: getdents_data_def Let_def intro!: never_intros)
  then have "fst (getdents_data jc count (clamp 32 c) (JArray objs) dirp ?after) \<noteq> Fault Out_Of_Bounds"
    by (rule never_run)
  moreover have "length buf = length dirp \<and> drop (unat count + 18) buf = drop (unat count + 18) dirp"
    if "getdents_data jc count (clamp 32 c) (JArray objs) dirp ?after = (Ret (r, buf), s')" for r buf s'
    using that assms(1) by (auto simp: getdents_data_def Let_def ret_iffs dest: b(2) [OF le0])
  ultimately show ?thesis unfolding run by blast
qed

theorem getdents_bounded_witness:
  "fst (sb_getdents (json_c_with (\<lambda>_. wrapped 1 (JArray [JInt 1, JNull]))) 3 (replicate 30 0) 12 demo_state)
    \<noteq> Fault Out_Of_Bounds"
  using getdents_bounded [OF json_c_with_ok demo_answers carries_wrapped, of "[JInt 1, JNull]" 12
      "replicate 30 0" 1 3]
  by (simp add: short_name_def)

text \<open>
  With exactly \<open>count\<close> bytes, as the kernel's contract has it, that is one record too many: if
  the entries fill the buffer and the peer sends one more, its inode number is stored behind the
  end of the buffer before the size is checked.
\<close>

theorem getdents_overruns:
  fixes s :: "'a rpc_scheme"
  assumes "json_c_ok jc" and "peer_answers jc s reply rest"
    and "carries reply c (JArray (map dirent_json (es @ [e])))" and "0 < c" and "c < 2 ^ 31"
    and "\<forall>e \<in> set es. dirent_ok e"
    and "sum_list (map dirent_size es) = unat count" and "unat count = length dirp"
    and "unat count < 2 ^ 31"
  shows "fst (sb_getdents jc fd dirp count s) = Fault Out_Of_Bounds"
proof -
  have "clamp 32 c = c" using assms(4,5) by (simp add: clamp_def)
  moreover have "fst (getdents_data jc count c (JArray (map dirent_json (es @ [e]))) dirp st) =
      Fault Out_Of_Bounds" for st :: "'a rpc_scheme"
    using bnd_fst_Fault [where m = "dirents_loop jc count (JArray (map dirent_json (es @ [e])))
        [0..<length (es @ [e])] (0, 0, dirp)" and s = st,
        OF dirents_overrun [OF assms(1,9,6,7,8), of e st]] assms(1)
    by (simp add: getdents_data_def)
  ultimately show ?thesis
    using getdents_call.nested [OF assms(2,1,3), of "(fd, count)" dirp] assms(4) by simp
qed

theorem getdents_overruns_witness:
  "fst (sb_getdents (json_c_with (\<lambda>_. wrapped 1 (JArray (map dirent_json (demo_dirents @ [hd demo_dirents])))))
    3 (replicate 44 0) 44 demo_state) = Fault Out_Of_Bounds"
  using getdents_overruns [OF json_c_with_ok demo_answers carries_wrapped, of 1 demo_dirents 44
      "replicate 44 0" "hd demo_dirents" 3]
  by (simp add: demo_dirents_facts)

text \<open>
  \<open>poll\<close> stores one result per descriptor, in order, as 16 bits, and changes nothing else of
  the descriptors; an array of another length ends the process, so no result is left over or
  missing.
\<close>

theorem poll_results:
  assumes "json_c_ok jc" and "peer_answers jc s reply rest"
    and "carries reply c (JArray (map JInt vs))" and "0 < c" and "c < 2 ^ 31" and "vs \<noteq> []"
  shows "sb_poll jc timeout fds s =
    (if length vs = length fds
     then Ret (c, map2 (\<lambda>p v. p\<lparr>revents := word_of_int (clamp 32 v)\<rparr>) fds vs)
     else Exit EPROTO,
     (sent jc ''sys.poll'' (JArray [JArray (map pollfd_json fds), JInt timeout]) rest s)\<lparr>errno := 0\<rparr>)"
proof -
  have "clamp 32 c = c" using assms(4,5) by (simp add: clamp_def)
  then show ?thesis
    using poll_call.nested [OF assms(2,1,3), of timeout fds] assms(4)
    by (simp add: poll_data_run [OF assms(1,6)])
qed

theorem poll_results_witness:
  "fst (sb_poll (json_c_with (\<lambda>_. wrapped 1 (JArray (map JInt [1, 0])))) 100
      [\<lparr>pfd = 3, events = 1, revents = 9\<rparr>, \<lparr>pfd = 4, events = 5, revents = 9\<rparr>] demo_state) =
    Ret (1, [\<lparr>pfd = 3, events = 1, revents = 1\<rparr>, \<lparr>pfd = 4, events = 5, revents = 0\<rparr>])"
  using poll_results [OF json_c_with_ok demo_answers carries_wrapped, of 1 "[1, 0]" 100
      "[\<lparr>pfd = 3, events = 1, revents = 9\<rparr>, \<lparr>pfd = 4, events = 5, revents = 9\<rparr>]"]
  by (simp add: clamp_def)

end
