(* ===== verification/Mmap.thy ===== *)
theory Mmap
  imports Prelude
begin

text \<open>
  \<open>mmap\<close> of a file (\<open>sbio.c\<close>). It is not forwarded: the file is read into an anonymous
  mapping, whose protection is then set to what was asked for. The five calls it makes go to the
  C library and on to the kernel, or back into the handler; what they answer is a parameter,
  a function of all the calls made so far, the present one included. The state is the sequence of
  calls, the bytes of the mapping and errno.
\<close>

section \<open>The calls underneath\<close>

datatype mm_call =
    C_mmap "64 word" "64 word" int "32 word"
  | C_lseek int int
  | C_read int "64 word" nat
  | C_mprotect "64 word" "64 word" int
  | C_munmap "64 word" "64 word"

text \<open>Answers: \<open>Inl\<close> an errno, or what the call returns; a read delivers its bytes.\<close>

record kernel =
  k_mmap :: "mm_call list \<Rightarrow> int + 64 word"
  k_lseek :: "mm_call list \<Rightarrow> int option"
  k_read :: "mm_call list \<Rightarrow> int + byte list"
  k_mprotect :: "mm_call list \<Rightarrow> int option"
  k_munmap :: "mm_call list \<Rightarrow> int option"

record mm =
  calls :: "mm_call list"
  page :: "byte list"
  mm_errno :: int

abbreviation (input) "MAP_SHARED \<equiv> (0x1 :: 32 word)"
abbreviation (input) "MAP_PRIVATE \<equiv> (0x2 :: 32 word)"
abbreviation (input) "MAP_ANONYMOUS \<equiv> (0x20 :: 32 word)"
abbreviation (input) "MAP_GROWSDOWN \<equiv> (0x100 :: 32 word)"
abbreviation (input) "MAP_STACK \<equiv> (0x20000 :: 32 word)"

definition MAP_FAILED :: "64 word" where "MAP_FAILED = - 1"

definition log :: "mm_call \<Rightarrow> 'a mm_scheme \<Rightarrow> 'a mm_scheme" where
  "log c s = s\<lparr>calls := calls s @ [c]\<rparr>"

definition set_errno :: "int option \<Rightarrow> 'a mm_scheme \<Rightarrow> 'a mm_scheme" where
  "set_errno e s = (case e of Some e \<Rightarrow> s\<lparr>mm_errno := e\<rparr> | None \<Rightarrow> s)"

lemma log_sel [simp]:
  "calls (log c s) = calls s @ [c]" "page (log c s) = page s" "mm_errno (log c s) = mm_errno s"
  by (simp_all add: log_def)

lemma set_errno_sel [simp]:
  "calls (set_errno e s) = calls s" "page (set_errno e s) = page s"
  by (simp_all add: set_errno_def split: option.split)

section \<open>The call\<close>

text \<open>
  The loop that reads the file in: \<open>Ret True\<close> when it has met the end of the file or the end
  of the mapping, \<open>Ret False\<close> when a read failed. It ends because every further turn follows a
  read that delivered something.
\<close>

function read_loop ::
  "kernel \<Rightarrow> int \<Rightarrow> 64 word \<Rightarrow> nat \<Rightarrow> nat \<Rightarrow> 'a mm_scheme \<Rightarrow> bool outcome \<times> 'a mm_scheme" where
  "read_loop k fd mem len num_read s =
    (if num_read < len then
       let s1 = log (C_read fd (mem + word_of_nat num_read) (len - num_read)) s in
       case k_read k (calls s1) of
         Inl e \<Rightarrow> (Ret False, set_errno (Some e) s1)
       | Inr bs \<Rightarrow>
           if bs = [] then (Ret True, s1)
           else (case write_at num_read bs (page s1) of
               None \<Rightarrow> (Fault Out_Of_Bounds, s1)
             | Some p \<Rightarrow> read_loop k fd mem len (num_read + length bs) (s1\<lparr>page := p\<rparr>))
     else (Ret True, s))"
  by auto
termination by (relation "measure (\<lambda>(k, fd, mem, len, num_read, s). len - num_read)") (auto simp: neq_Nil_conv)

declare read_loop.simps [simp del]

text \<open>
  The whole call. \<open>offset\<close> is an \<open>off_t\<close> that is taken from the argument list as an \<open>int\<close>:
  its low 32 bits, sign-extended.
\<close>

definition unmap :: "kernel \<Rightarrow> 64 word \<Rightarrow> 64 word \<Rightarrow> 'a mm_scheme \<Rightarrow> 'a mm_scheme" where
  "unmap k mem len = (\<lambda>s. let s1 = log (C_munmap mem len) s in set_errno (k_munmap k (calls s1)) s1)"

definition sb_mmap ::
  "kernel \<Rightarrow> 64 word \<Rightarrow> 64 word \<Rightarrow> int \<Rightarrow> 32 word \<Rightarrow> int \<Rightarrow> 64 word \<Rightarrow>
   'a mm_scheme \<Rightarrow> 64 word outcome \<times> 'a mm_scheme" where
  "sb_mmap k addr len prot flags fd offset s =
    (let off = sint (ucast offset :: 32 word) in
     if flags AND (MAP_SHARED OR MAP_GROWSDOWN OR MAP_STACK) \<noteq> 0
     then (Ret MAP_FAILED, s\<lparr>mm_errno := EPERM\<rparr>)
     else
       let s1 = log (C_mmap addr len 3 (flags OR MAP_ANONYMOUS)) s in
       case k_mmap k (calls s1) of
         Inl e \<Rightarrow> (Ret MAP_FAILED, set_errno (Some e) s1)
       | Inr mem \<Rightarrow>
          let s2 = log (C_lseek fd off) (s1\<lparr>page := replicate (unat len) 0\<rparr>) in
          (case k_lseek k (calls s2) of
            Some e \<Rightarrow> (Ret MAP_FAILED, unmap k mem len (set_errno (Some e) s2))
          | None \<Rightarrow>
             (case read_loop k fd mem (unat len) 0 s2 of
               (Ret False, s3) \<Rightarrow> (Ret MAP_FAILED, unmap k mem len s3)
             | (Ret True, s3) \<Rightarrow>
                 let s4 = log (C_mprotect mem len prot) s3 in
                 (case k_mprotect k (calls s4) of
                   Some e \<Rightarrow> (Ret MAP_FAILED, unmap k mem len (set_errno (Some e) s4))
                 | None \<Rightarrow> (Ret mem, s4))
             | (Exit n, s3) \<Rightarrow> (Exit n, s3)
             | (Fault e, s3) \<Rightarrow> (Fault e, s3))))"

section \<open>The loop\<close>

text \<open>A kernel never delivers more than was asked for.\<close>

definition reads_at_most :: "kernel \<Rightarrow> bool" where
  "reads_at_most k \<longleftrightarrow>
    (\<forall>h fd p n bs. k_read k (h @ [C_read fd p n]) = Inr bs \<longrightarrow> length bs \<le> n)"

text \<open>The four ways a turn of the loop can go.\<close>

lemma read_loop_turn:
  "len \<le> n \<Longrightarrow> read_loop k fd mem len n s = (Ret True, s)"
  "n < len \<Longrightarrow> k_read k (calls s @ [C_read fd (mem + word_of_nat n) (len - n)]) = Inl e \<Longrightarrow>
    read_loop k fd mem len n s =
      (Ret False, set_errno (Some e) (log (C_read fd (mem + word_of_nat n) (len - n)) s))"
  "n < len \<Longrightarrow> k_read k (calls s @ [C_read fd (mem + word_of_nat n) (len - n)]) = Inr [] \<Longrightarrow>
    read_loop k fd mem len n s = (Ret True, log (C_read fd (mem + word_of_nat n) (len - n)) s)"
  "n < len \<Longrightarrow> k_read k (calls s @ [C_read fd (mem + word_of_nat n) (len - n)]) = Inr bs \<Longrightarrow>
    bs \<noteq> [] \<Longrightarrow> write_at n bs (page s) = Some p \<Longrightarrow>
    read_loop k fd mem len n s = read_loop k fd mem len (n + length bs)
      ((log (C_read fd (mem + word_of_nat n) (len - n)) s)\<lparr>page := p\<rparr>)"
  by (subst read_loop.simps; simp)+

text \<open>Then the loop returns, has made reads only, and leaves the mapping's size alone.\<close>

lemma read_loop_returns:
  assumes "reads_at_most k" and "length (page s) = len" and "n \<le> len"
  shows "\<exists>b s' tr. read_loop k fd mem len n s = (Ret b, s') \<and> length (page s') = len \<and>
    calls s' = calls s @ tr \<and> (\<forall>c \<in> set tr. \<exists>p m. c = C_read fd p m)"
  using assms(2,3)
proof (induction "len - n" arbitrary: n s rule: less_induct)
  case less
  let ?c = "C_read fd (mem + word_of_nat n) (len - n)"
  consider "len \<le> n" | e where "n < len" "k_read k (calls s @ [?c]) = Inl e" |
    "n < len" "k_read k (calls s @ [?c]) = Inr []" |
    bs where "n < len" "k_read k (calls s @ [?c]) = Inr bs" "bs \<noteq> []"
    by (cases "k_read k (calls s @ [?c])") (auto simp: not_less [symmetric])
  then show ?case
  proof cases
    case 4
    then have le: "length bs \<le> len - n" using assms(1) by (auto simp: reads_at_most_def)
    then obtain p where p: "write_at n bs (page s) = Some p" "length p = len"
      using 4(1) less.prems
      by (cases "write_at n bs (page s)") (auto simp: write_at_None dest: write_at_length)
    have "len - (n + length bs) < len - n" using 4(1,3) by (cases bs) auto
    from less.hyps [OF this, of "(log ?c s)\<lparr>page := p\<rparr>"] p(2) le 4(1)
    have "\<exists>b s' tr. read_loop k fd mem len (n + length bs) ((log ?c s)\<lparr>page := p\<rparr>) = (Ret b, s') \<and>
        length (page s') = len \<and> calls s' = (calls s @ [?c]) @ tr \<and> (\<forall>c \<in> set tr. \<exists>p m. c = C_read fd p m)"
      by simp
    then obtain b s' tr where "read_loop k fd mem len (n + length bs) ((log ?c s)\<lparr>page := p\<rparr>) = (Ret b, s')"
      "length (page s') = len" "calls s' = calls s @ ?c # tr"
      "\<forall>c \<in> set (?c # tr). \<exists>p m. c = C_read fd p m" by auto
    then show ?thesis using read_loop_turn(4) [OF 4 p(1)] by auto
  qed (use less.prems in \<open>auto simp: read_loop_turn\<close>)
qed

text \<open>
  Reading a file: the position the calls so far have brought the descriptor to (most recent
  call first), and a kernel that serves a file from there, in portions of its own choosing.
\<close>

fun position :: "kernel \<Rightarrow> mm_call list \<Rightarrow> nat" where
  "position k [] = 0"
| "position k (c # h) =
    (case c of
       C_lseek fd off \<Rightarrow> nat off
     | C_read fd p n \<Rightarrow> position k h + (case k_read k (rev (c # h)) of Inr bs \<Rightarrow> length bs | Inl e \<Rightarrow> 0)
     | _ \<Rightarrow> position k h)"

definition serves :: "kernel \<Rightarrow> byte list \<Rightarrow> bool" where
  "serves k file \<longleftrightarrow>
    (\<forall>h fd p n. 0 < n \<longrightarrow>
      (\<exists>m \<le> n. k_read k (h @ [C_read fd p n]) = Inr (take m (drop (position k (rev h)) file)) \<and> 0 < m))"

lemma take_write:
  assumes "take n (P @ R) = P" "length P = n" "length bs \<le> length R"
  shows "write_at n bs (P @ R) = Some ((P @ bs) @ drop (length bs) R)"
  using assms by (simp add: write_at_def)

lemma serves_portion:
  assumes "serves k file" and "0 < n" and "position k (rev h) = i"
  obtains m where "m \<le> n" "0 < m" "k_read k (h @ [C_read fd p n]) = Inr (take m (drop i file))"
  using assms unfolding serves_def by blast

lemma read_loop_serves:
  assumes "serves k file" and "n \<le> len"
    and "page s = take n (drop off file) @ replicate (len - n) 0" and "length (take n (drop off file)) = n"
    and "position k (rev (calls s)) = off + n"
  shows "\<exists>s'. read_loop k fd mem len n s = (Ret True, s') \<and>
    page s' = take len (drop off file @ replicate len 0)"
  using assms(2-)
proof (induction "len - n" arbitrary: n s rule: less_induct)
  case less
  let ?c = "C_read fd (mem + word_of_nat n) (len - n)"
  have short: "n \<le> length file - off" using less.prems(3) by simp
  show ?case
  proof (cases "n < len")
    case False
    then have "n = len" using less.prems(1) by simp
    then show ?thesis using less.prems(2) short by (auto simp: read_loop_turn)
  next
    case True
    then obtain m where m: "m \<le> len - n" "0 < m"
      and read: "k_read k (calls s @ [?c]) = Inr (take m (drop (off + n) file))"
      using serves_portion [OF assms(1) _ less.prems(4)] by (metis zero_less_diff)
    let ?bs = "take m (drop (off + n) file)"
    show ?thesis
    proof (cases "?bs = []")
      case bs: True
      then have "length file - off = n" using m(2) short by simp
      then have "take len (drop off file @ replicate len 0) = page s"
        using True less.prems(2) by (simp add: min_def)
      then show ?thesis using read_loop_turn(3) [OF True read [unfolded bs]] by simp
    next
      case False
      let ?p = "take (n + length ?bs) (drop off file) @ replicate (len - (n + length ?bs)) 0"
      have d: "take n (drop off file) @ ?bs = take (n + length ?bs) (drop off file)"
        by (simp add: take_add add.commute min_def)
      have w: "write_at n ?bs (page s) = Some ?p"
        using take_write [of n "take n (drop off file)" "replicate (len - n) 0" ?bs] less.prems(2,3) m(1) short
        by (simp add: d min_def)
      have "len - (n + length ?bs) < len - n" using True False m(2) by auto
      then have "\<exists>s'. read_loop k fd mem len (n + length ?bs) ((log ?c s)\<lparr>page := ?p\<rparr>) = (Ret True, s') \<and>
          page s' = take len (drop off file @ replicate len 0)"
        using m less.prems(4) short True read by (intro less.hyps) (auto simp: min_def)
      then show ?thesis using read_loop_turn(4) [OF True read False w] by simp
    qed
  qed
qed

text \<open>What the calls of one run of \<open>sb_mmap\<close> look like, by where it stops.\<close>

lemma allowed_flags:
  "flags AND (MAP_SHARED OR MAP_GROWSDOWN OR MAP_STACK) = 0 \<Longrightarrow>
   sb_mmap k addr len prot flags fd offset s =
    (let s1 = log (C_mmap addr len 3 (flags OR MAP_ANONYMOUS)) s in
     case k_mmap k (calls s1) of
       Inl e \<Rightarrow> (Ret MAP_FAILED, set_errno (Some e) s1)
     | Inr mem \<Rightarrow>
        let s2 = log (C_lseek fd (sint (ucast offset :: 32 word))) (s1\<lparr>page := replicate (unat len) 0\<rparr>) in
        (case k_lseek k (calls s2) of
          Some e \<Rightarrow> (Ret MAP_FAILED, unmap k mem len (set_errno (Some e) s2))
        | None \<Rightarrow>
           (case read_loop k fd mem (unat len) 0 s2 of
             (Ret False, s3) \<Rightarrow> (Ret MAP_FAILED, unmap k mem len s3)
           | (Ret True, s3) \<Rightarrow>
               let s4 = log (C_mprotect mem len prot) s3 in
               (case k_mprotect k (calls s4) of
                 Some e \<Rightarrow> (Ret MAP_FAILED, unmap k mem len (set_errno (Some e) s4))
               | None \<Rightarrow> (Ret mem, s4))
           | (Exit n, s3) \<Rightarrow> (Exit n, s3)
           | (Fault e, s3) \<Rightarrow> (Fault e, s3))))"
  by (simp add: sb_mmap_def Let_def)

lemma low_offset:
  assumes "unat (offset :: 64 word) < 2 ^ 31"
  shows "sint (ucast offset :: 32 word) = int (unat offset)"
proof -
  have "ucast offset = (word_of_nat (unat offset) :: 32 word)"
    by (simp add: unsigned_ucast_eq)
  then have "sint (ucast offset :: 32 word) = sint (word_of_nat (unat offset) :: 32 word)" by simp
  also have "\<dots> = int (unat offset)"
    using assms by (simp add: signed_of_nat signed_take_bit_int_eq_self del: of_nat_unat)
  finally show ?thesis .
qed

lemma unmap_calls [simp]: "calls (unmap k mem len s) = calls s @ [C_munmap mem len]"
  by (simp add: unmap_def Let_def)

lemma mmap_trace:
  assumes "reads_at_most k"
  shows "\<exists>v s' tr. sb_mmap k addr len prot flags fd offset s = (Ret v, s') \<and>
    calls s' = calls s @ tr \<and>
    (if flags AND (MAP_SHARED OR MAP_GROWSDOWN OR MAP_STACK) \<noteq> 0 then v = MAP_FAILED \<and> tr = []
     else
       let c = C_mmap addr len 3 (flags OR MAP_ANONYMOUS) in
       case k_mmap k (calls s @ [c]) of
         Inl e \<Rightarrow> v = MAP_FAILED \<and> tr = [c]
       | Inr mem \<Rightarrow>
           (\<exists>reads. (\<forall>r \<in> set reads. \<exists>p n. r = C_read fd p n) \<and>
            (let begun = c # C_lseek fd (sint (ucast offset :: 32 word)) # reads in
             v = mem \<and> tr = begun @ [C_mprotect mem len prot] \<or>
             v = MAP_FAILED \<and> tr = begun @ [C_munmap mem len] \<or>
             v = MAP_FAILED \<and> tr = begun @ [C_mprotect mem len prot, C_munmap mem len])))"
proof (cases "flags AND (MAP_SHARED OR MAP_GROWSDOWN OR MAP_STACK) = 0")
  case False
  then show ?thesis by (simp add: sb_mmap_def)
next
  case ok: True
  let ?c = "C_mmap addr len 3 (flags OR MAP_ANONYMOUS)"
  show ?thesis
  proof (cases "k_mmap k (calls s @ [?c])")
    case (Inl e)
    then show ?thesis using ok by (simp add: allowed_flags [OF ok] Let_def)
  next
    case (Inr mem)
    let ?l = "C_lseek fd (sint (ucast offset :: 32 word))"
    let ?s2 = "log ?l ((log ?c s)\<lparr>page := replicate (unat len) 0\<rparr>)"
    obtain b s3 tr where r: "read_loop k fd mem (unat len) 0 ?s2 = (Ret b, s3)"
      "calls s3 = calls s @ ?c # ?l # tr" "\<forall>c \<in> set tr. \<exists>p m. c = C_read fd p m"
      using read_loop_returns [OF assms, of ?s2 "unat len" 0 fd mem] by auto
    show ?thesis
    proof (cases "k_lseek k (calls ?s2)")
      case (Some e)
      then show ?thesis
        using Inr ok by (auto simp: allowed_flags [OF ok] Let_def intro!: exI [of _ "[]"])
    next
      case None
      with Inr ok r show ?thesis
        by (cases b; cases "k_mprotect k (calls s3 @ [C_mprotect mem len prot])")
           (auto simp: allowed_flags [OF ok] Let_def intro!: exI [of _ tr])
    qed
  qed
qed

lemma anonymous_flags:
  assumes "flags AND (MAP_SHARED OR MAP_GROWSDOWN OR MAP_STACK) = 0"
  shows "(flags OR MAP_ANONYMOUS) AND (MAP_SHARED OR MAP_GROWSDOWN OR MAP_STACK) = 0 \<and>
    ((flags OR MAP_ANONYMOUS) AND (MAP_ANONYMOUS OR MAP_PRIVATE) = MAP_ANONYMOUS OR MAP_PRIVATE \<longleftrightarrow>
     flags AND MAP_PRIVATE \<noteq> 0)"
proof
  have "(flags OR 0x20) AND 0x20101 = (flags AND 0x20101) OR (0x20 AND 0x20101)"
    by (rule bit.conj_disj_distrib2)
  with assms show "(flags OR MAP_ANONYMOUS) AND (MAP_SHARED OR MAP_GROWSDOWN OR MAP_STACK) = 0" by simp
next
  have p: "flags AND 2 = (if bit flags 1 then 2 else 0)"
    by (rule bit_word_eqI) (auto simp: bit_simps bit_2_iff)
  have "(flags OR 0x20) AND (0x20 OR 0x2) = (flags OR 0x20) AND 0x20 OR (flags OR 0x20) AND 0x2"
    by (rule bit.conj_disj_distrib)
  also have "(flags OR 0x20) AND 0x20 = 0x20" by (simp add: word_ao_absorbs)
  also have "(flags OR 0x20) AND 0x2 = flags AND 2"
    by (subst bit.conj_disj_distrib2) simp
  finally show "(flags OR MAP_ANONYMOUS) AND (MAP_ANONYMOUS OR MAP_PRIVATE) = MAP_ANONYMOUS OR MAP_PRIVATE
      \<longleftrightarrow> flags AND MAP_PRIVATE \<noteq> 0"
    by (simp add: p)
qed

section \<open>Properties\<close>


text \<open>A kernel that hands out a file two bytes at a time, to run the model with.\<close>

fun demo_pos :: "byte list \<Rightarrow> mm_call list \<Rightarrow> nat" where
  "demo_pos file [] = 0"
| "demo_pos file (c # h) =
    (case c of
       C_lseek fd off \<Rightarrow> nat off
     | C_read fd p n \<Rightarrow> demo_pos file h + min (length file - demo_pos file h) (min n 2)
     | _ \<Rightarrow> demo_pos file h)"

definition demo_kernel :: "byte list \<Rightarrow> kernel" where
  "demo_kernel file = \<lparr>k_mmap = (\<lambda>_. Inr 0x7000), k_lseek = (\<lambda>_. None),
     k_read = (\<lambda>h. case last h of
        C_read fd p n \<Rightarrow> Inr (take (min n 2) (drop (demo_pos file (rev (butlast h))) file))
      | _ \<Rightarrow> Inl 22),
     k_mprotect = (\<lambda>_. None), k_munmap = (\<lambda>_. None)\<rparr>"

lemma demo_kernel_position: "position (demo_kernel file) h = demo_pos file h"
  by (induction h) (simp_all add: demo_kernel_def split: mm_call.split)

lemma demo_kernel_serves: "serves (demo_kernel file) file"
  unfolding serves_def
proof (intro allI impI)
  fix h fd p and n :: nat
  assume "0 < n"
  then show "\<exists>m \<le> n. k_read (demo_kernel file) (h @ [C_read fd p n]) =
      Inr (take m (drop (position (demo_kernel file) (rev h)) file)) \<and> 0 < m"
    unfolding demo_kernel_position
    by (intro exI [of _ "min n 2"]) (simp add: demo_kernel_def)
qed

lemma demo_kernel_reads: "reads_at_most (demo_kernel file)"
  by (auto simp: reads_at_most_def demo_kernel_def)


text \<open>
  C30. Whatever the kernel answers, short reads and failures included, the call returns. Either the
  flags were refused and no call was made; or no mapping was made; or the file was read and the
  result is the mapping, its protection set by the last call; or the result is \<open>MAP_FAILED\<close> and the
  last call has given the mapping back. There are no other calls, in no other order.
\<close>

theorem mmap_cleans_up:
  assumes "reads_at_most k"
  shows "\<exists>v s' tr. sb_mmap k addr len prot flags fd offset s = (Ret v, s') \<and>
    calls s' = calls s @ tr \<and>
    (if flags AND (MAP_SHARED OR MAP_GROWSDOWN OR MAP_STACK) \<noteq> 0 then v = MAP_FAILED \<and> tr = []
     else
       let c = C_mmap addr len 3 (flags OR MAP_ANONYMOUS) in
       case k_mmap k (calls s @ [c]) of
         Inl e \<Rightarrow> v = MAP_FAILED \<and> tr = [c]
       | Inr mem \<Rightarrow>
           (\<exists>reads. (\<forall>r \<in> set reads. \<exists>p n. r = C_read fd p n) \<and>
            (let begun = c # C_lseek fd (sint (ucast offset :: 32 word)) # reads in
             v = mem \<and> tr = begun @ [C_mprotect mem len prot] \<or>
             v = MAP_FAILED \<and> tr = begun @ [C_munmap mem len] \<or>
             v = MAP_FAILED \<and> tr = begun @ [C_mprotect mem len prot, C_munmap mem len])))"
  using mmap_trace [OF assms] .

theorem mmap_cleans_up_witness:
  "\<exists>v s'. sb_mmap ((demo_kernel [1, 2])\<lparr>k_mprotect := \<lambda>_. Some 12\<rparr>) 0 6 5 2 9 1
      \<lparr>calls = [], page = [], mm_errno = 0\<rparr> = (Ret v, s') \<and> hd (calls s') = C_mmap 0 6 3 0x22"
proof -
  have "reads_at_most ((demo_kernel [1, 2])\<lparr>k_mprotect := \<lambda>_. Some 12\<rparr>)"
    using demo_kernel_reads by (simp add: reads_at_most_def)
  from mmap_cleans_up [OF this, of 0 6 5 2 9 1 "\<lparr>calls = [], page = [], mm_errno = 0\<rparr>"]
  show ?thesis by (auto simp: demo_kernel_def Let_def)
qed

text \<open>
  The anonymous mapping the call makes is never shared, never grows and is no stack, whatever
  flags the sandboxed program passes, and every other call it makes concerns that mapping or the
  file. The mapping passes the process's own system call filter, which looks for
  \<open>MAP_ANONYMOUS\<close> and \<open>MAP_PRIVATE\<close> in the flags, exactly if a private mapping was asked for.
\<close>

theorem mmap_private:
  assumes "reads_at_most k" and "calls (snd (sb_mmap k addr len prot flags fd offset s)) = calls s @ tr"
    and "C_mmap a n p f \<in> set tr"
  shows "f AND (MAP_SHARED OR MAP_GROWSDOWN OR MAP_STACK) = 0 \<and> p = 3 \<and> a = addr \<and> n = len \<and>
    (f AND (MAP_ANONYMOUS OR MAP_PRIVATE) = MAP_ANONYMOUS OR MAP_PRIVATE \<longleftrightarrow>
     flags AND MAP_PRIVATE \<noteq> 0)"
proof -
  obtain "flags AND (MAP_SHARED OR MAP_GROWSDOWN OR MAP_STACK) = 0"
    "C_mmap a n p f = C_mmap addr len 3 (flags OR MAP_ANONYMOUS)"
    using mmap_trace [OF assms(1), of addr len prot flags fd offset s] assms(2,3)
    by (auto simp: Let_def split: if_splits sum.splits)
  then show ?thesis using anonymous_flags by simp
qed

theorem mmap_private_witness:
  "(0x22 :: 32 word) AND (MAP_SHARED OR MAP_GROWSDOWN OR MAP_STACK) = 0 \<and>
   calls (snd (sb_mmap ((demo_kernel [])\<lparr>k_mmap := \<lambda>_. Inl 12\<rparr>) 0 6 5 2 9 1
     \<lparr>calls = [], page = [], mm_errno = 0\<rparr>)) = [C_mmap 0 6 3 0x22]"
proof -
  let ?k = "(demo_kernel [])\<lparr>k_mmap := \<lambda>_. Inl 12\<rparr>"
  have k: "reads_at_most ?k" using demo_kernel_reads by (simp add: reads_at_most_def)
  have run: "calls (snd (sb_mmap ?k 0 6 5 2 9 1 \<lparr>calls = [], page = [], mm_errno = 0\<rparr>)) =
      calls \<lparr>calls = [], page = [], mm_errno = 0\<rparr> @ [C_mmap 0 6 3 0x22]"
    by (simp add: sb_mmap_def)
  from mmap_private [OF k run, of 0 6 3 "0x22"] run show ?thesis by simp
qed

text \<open>
  Of the offset only the low 32 bits count: the call behaves exactly as with these alone, so
  that a file mapped from 4 GiB on is read from its beginning.
\<close>

theorem mmap_offset_truncated:
  "sb_mmap k addr len prot flags fd offset s = sb_mmap k addr len prot flags fd (offset AND mask 32) s"
proof -
  have "ucast (offset AND mask 32) = (ucast offset :: 32 word)"
    by (rule bit_word_eqI) (simp add: bit_simps)
  then show ?thesis by (simp add: sb_mmap_def)
qed

end
