(* ===== verification/Preload.thy ===== *)
theory Preload
  imports Prelude
begin

text \<open>
  The preloaded library (\<open>libsbpreload.c\<close>): functions of the C library that are replaced above
  the system call interface. Terminals do not exist; once the sandbox is on, the process is the
  user \<open>sandbox\<close>, and the user data base has that user and \<open>root\<close>. Until then the functions of
  the next library are called, which are parameters.
\<close>

section \<open>Terminals\<close>

text \<open>Each function with the errno it leaves, \<open>None\<close> where it leaves errno alone.\<close>

definition sb_isatty :: "int \<Rightarrow> int \<times> int option" where
  "sb_isatty fd = (0, Some EINVAL)"

definition sb_ttyname :: "int \<Rightarrow> string option \<times> int option" where
  "sb_ttyname fd = (None, Some ENOTTY)"

definition sb_ttyname_r :: "int \<Rightarrow> string \<Rightarrow> nat \<Rightarrow> int \<times> int option" where
  "sb_ttyname_r fd buf buflen = (ENOTTY, None)"

section \<open>The user data base\<close>

record passwd =
  pw_name :: string
  pw_passwd :: string
  pw_uid :: int
  pw_gid :: int
  pw_gecos :: string
  pw_dir :: string
  pw_shell :: string

abbreviation (input) "SB_UID \<equiv> (1000::int)"
abbreviation (input) "SB_GID \<equiv> (1000::int)"

definition sb_pwd :: passwd where
  "sb_pwd = \<lparr>pw_name = ''sandbox'', pw_passwd = ''*'', pw_uid = SB_UID, pw_gid = SB_GID,
     pw_gecos = '''', pw_dir = ''/tmp'', pw_shell = ''/bin/false''\<rparr>"

definition rt_pwd :: passwd where
  "rt_pwd = \<lparr>pw_name = ''root'', pw_passwd = ''*'', pw_uid = 0, pw_gid = 0,
     pw_gecos = '''', pw_dir = ''/root'', pw_shell = ''/bin/sh''\<rparr>"

abbreviation (input) "nul \<equiv> CHR 0x00"

definition SB_PWD_BUF :: string where
  "SB_PWD_BUF = ''sandbox'' @ nul # ''*'' @ nul # nul # ''/tmp'' @ nul # ''/bin/false'' @ [nul]"

definition RT_PWD_BUF :: string where
  "RT_PWD_BUF = ''root'' @ nul # ''*'' @ nul # nul # ''/root'' @ nul # ''/bin/sh'' @ [nul]"

text \<open>
  \<open>sb_enabled\<close> is the flag, \<open>next\<close> what the function of the next library does.
\<close>

definition sb_getuid :: "bool \<Rightarrow> int \<Rightarrow> int" where
  "sb_getuid sb_enabled next_fn = (if \<not> sb_enabled then next_fn else SB_UID)"

definition sb_geteuid :: "bool \<Rightarrow> int \<Rightarrow> int" where
  "sb_geteuid sb_enabled next_fn = (if \<not> sb_enabled then next_fn else SB_UID)"

definition sb_getgid :: "bool \<Rightarrow> int \<Rightarrow> int" where
  "sb_getgid sb_enabled next_fn = (if \<not> sb_enabled then next_fn else SB_GID)"

definition sb_getegid :: "bool \<Rightarrow> int \<Rightarrow> int" where
  "sb_getegid sb_enabled next_fn = (if \<not> sb_enabled then next_fn else SB_GID)"

definition sb_getpwnam :: "bool \<Rightarrow> (string \<Rightarrow> passwd option) \<Rightarrow> string \<Rightarrow> passwd option" where
  "sb_getpwnam sb_enabled next_fn name =
    (if \<not> sb_enabled then next_fn name
     else if cstr name = ''sandbox'' then Some sb_pwd
     else if cstr name = ''root'' then Some rt_pwd
     else None)"

definition sb_getpwuid :: "bool \<Rightarrow> (int \<Rightarrow> passwd option) \<Rightarrow> int \<Rightarrow> passwd option" where
  "sb_getpwuid sb_enabled next_fn uid =
    (if \<not> sb_enabled then next_fn uid
     else if uid = SB_UID then Some sb_pwd
     else if uid = 0 then Some rt_pwd
     else None)"

section \<open>The reentrant lookups\<close>

text \<open>
  The caller's memory: its \<open>struct passwd\<close>, whose strings are pointers into its buffer, here
  offsets; the buffer; and whether \<open>*result\<close> points to the structure or is null.
\<close>

record pw_ptrs =
  p_name :: nat
  p_passwd :: nat
  p_uid :: int
  p_gid :: int
  p_gecos :: nat
  p_dir :: nat
  p_shell :: nat

record pw_mem =
  pw_struct :: pw_ptrs
  pw_buf :: string
  pw_result :: bool

definition fill_pwd :: "string \<Rightarrow> nat \<Rightarrow> pw_ptrs \<Rightarrow> nat \<Rightarrow> ('a pw_mem_scheme, int) prog" where
  "fill_pwd img len ptrs buflen s =
    (if buflen < len then (Ret ERANGE, s\<lparr>pw_result := False\<rparr>)
     else (case write_at 0 (take len img) (pw_buf s) of
        None \<Rightarrow> (Fault Out_Of_Bounds, s)
      | Some b \<Rightarrow> (Ret 0, s\<lparr>pw_buf := b, pw_struct := ptrs, pw_result := True\<rparr>)))"

definition sb_ptrs :: pw_ptrs where
  "sb_ptrs = \<lparr>p_name = 0, p_passwd = 8, p_uid = SB_UID, p_gid = SB_GID, p_gecos = 10, p_dir = 11,
     p_shell = 16\<rparr>"

definition rt_ptrs :: pw_ptrs where
  "rt_ptrs = \<lparr>p_name = 0, p_passwd = 5, p_uid = 0, p_gid = 0, p_gecos = 7, p_dir = 8,
     p_shell = 14\<rparr>"

definition sb_getpwnam_r ::
  "bool \<Rightarrow> ('a pw_mem_scheme, int) prog \<Rightarrow> string \<Rightarrow> nat \<Rightarrow> ('a pw_mem_scheme, int) prog" where
  "sb_getpwnam_r sb_enabled next_fn name buflen s =
    (if \<not> sb_enabled then next_fn s
     else if cstr name = ''sandbox'' then fill_pwd SB_PWD_BUF 27 sb_ptrs buflen s
     else if cstr name = ''root'' then fill_pwd RT_PWD_BUF 22 rt_ptrs buflen s
     else (Ret 0, s\<lparr>pw_result := False\<rparr>))"

definition sb_getpwuid_r ::
  "bool \<Rightarrow> ('a pw_mem_scheme, int) prog \<Rightarrow> int \<Rightarrow> nat \<Rightarrow> ('a pw_mem_scheme, int) prog" where
  "sb_getpwuid_r sb_enabled next_fn uid buflen s =
    (if \<not> sb_enabled then next_fn s
     else if uid = SB_UID then fill_pwd SB_PWD_BUF 27 sb_ptrs buflen s
     else if uid = 0 then fill_pwd RT_PWD_BUF 22 rt_ptrs buflen s
     else (Ret 0, s\<lparr>pw_result := False\<rparr>))"

section \<open>What a caller reads\<close>

text \<open>The entry the caller's memory shows: each string from its offset up to the next NUL.\<close>

definition read_pwd :: "'a pw_mem_scheme \<Rightarrow> passwd option" where
  "read_pwd s =
    (if pw_result s then
       let p = pw_struct s; at = (\<lambda>off. cstr (drop off (pw_buf s))) in
       Some \<lparr>pw_name = at (p_name p), pw_passwd = at (p_passwd p), pw_uid = p_uid p,
         pw_gid = p_gid p, pw_gecos = at (p_gecos p), pw_dir = at (p_dir p), pw_shell = at (p_shell p)\<rparr>
     else None)"

text \<open>
  An image of an entry: of the stated length, and with the entry's strings at the offsets,
  whatever follows it in the buffer.
\<close>

locale packed_passwd =
  fixes img :: string and len :: nat and ptrs :: pw_ptrs and pw :: passwd
  assumes image_length: "length img = len"
    and image_reads: "read_pwd \<lparr>pw_struct = ptrs, pw_buf = img @ junk, pw_result = True\<rparr> = Some pw"
begin

lemma fills:
  assumes "buflen \<le> length (pw_buf s)"
  shows "\<exists>s'. fill_pwd img len ptrs buflen s = (Ret (if buflen < len then ERANGE else 0), s') \<and>
    read_pwd s' = (if buflen < len then None else Some pw) \<and>
    (buflen < len \<longrightarrow> pw_buf s' = pw_buf s \<and> pw_struct s' = pw_struct s) \<and>
    drop buflen (pw_buf s') = drop buflen (pw_buf s)"
proof (cases "buflen < len")
  case True
  then show ?thesis by (simp add: fill_pwd_def read_pwd_def)
next
  case False
  then have "write_at 0 img (pw_buf s) = Some (img @ drop len (pw_buf s))"
    using assms image_length by (simp add: write_at_def)
  then show ?thesis
    using False assms image_length image_reads [of "drop len (pw_buf s)"]
    by (simp add: fill_pwd_def read_pwd_def Let_def)
qed

end

interpretation sandbox_image: packed_passwd SB_PWD_BUF 27 sb_ptrs sb_pwd
  by unfold_locales (simp_all add: SB_PWD_BUF_def sb_ptrs_def sb_pwd_def read_pwd_def cstr_def Let_def)

interpretation root_image: packed_passwd RT_PWD_BUF 22 rt_ptrs rt_pwd
  by unfold_locales (simp_all add: RT_PWD_BUF_def rt_ptrs_def rt_pwd_def read_pwd_def cstr_def Let_def)

text \<open>The room an entry takes: its five strings, each with a NUL.\<close>

definition packed_size :: "passwd option \<Rightarrow> nat" where
  "packed_size e = (case e of
     None \<Rightarrow> 0
   | Some p \<Rightarrow> length (pw_name p) + length (pw_passwd p) + length (pw_gecos p) + length (pw_dir p) +
       length (pw_shell p) + 5)"

lemma packed_sizes [simp]:
  "packed_size None = 0" "packed_size (Some sb_pwd) = 27" "packed_size (Some rt_pwd) = 22"
  by (simp_all add: packed_size_def sb_pwd_def rt_pwd_def)

section \<open>Properties\<close>

text \<open>
  C40. The reentrant lookups give what the plain ones give. With a buffer that has room for the
  entry they return 0 and the caller reads the same entry, or none for a user that does not exist;
  with a smaller one they return ERANGE and a null result. They never write behind the buffer's
  stated length, and with too little room they do not write at all.
\<close>

theorem passwd_lookups_agree:
  assumes "buflen \<le> length (pw_buf s)"
    and "run = sb_getpwnam_r True next_r name buflen \<and> entry = sb_getpwnam True next_e name \<or>
      run = sb_getpwuid_r True next_r uid buflen \<and> entry = sb_getpwuid True next_u uid"
  defines "short \<equiv> buflen < packed_size entry"
  shows "\<exists>s'. run s = (Ret (if short then ERANGE else 0), s') \<and>
    read_pwd s' = (if short then None else entry) \<and>
    drop (if short then 0 else buflen) (pw_buf s') = drop (if short then 0 else buflen) (pw_buf s)"
proof -
  consider "entry = Some sb_pwd" "run s = fill_pwd SB_PWD_BUF 27 sb_ptrs buflen s"
    | "entry = Some rt_pwd" "run s = fill_pwd RT_PWD_BUF 22 rt_ptrs buflen s"
    | "entry = None" "run s = (Ret 0, s\<lparr>pw_result := False\<rparr>)"
    using assms(2)
    by (auto simp: sb_getpwnam_r_def sb_getpwuid_r_def sb_getpwnam_def sb_getpwuid_def split: if_splits)
  then show ?thesis
  proof cases
    case 1
    with sandbox_image.fills [OF assms(1)] show ?thesis by (auto simp: short_def)
  next
    case 2
    with root_image.fills [OF assms(1)] show ?thesis by (auto simp: short_def)
  next
    case 3
    then show ?thesis by (simp add: short_def read_pwd_def)
  qed
qed

theorem passwd_lookups_agree_witness:
  "\<exists>s'. sb_getpwuid_r True (ret 5) 1000 30
      \<lparr>pw_struct = rt_ptrs, pw_buf = replicate 30 (CHR ''x''), pw_result = False\<rparr> = (Ret 0, s') \<and>
    read_pwd s' = Some sb_pwd"
  using passwd_lookups_agree [where buflen = 30 and uid = 1000 and next_r = "ret 5"
      and run = "sb_getpwuid_r True (ret 5) 1000 30" and entry = "sb_getpwuid True (\<lambda>_. None) 1000"
      and next_u = "\<lambda>_. None"
      and s = "\<lparr>pw_struct = rt_ptrs, pw_buf = replicate 30 (CHR ''x''), pw_result = False\<rparr>"]
  by (auto simp: sb_getpwuid_def)

text \<open>
  Inside the sandbox the identity is consistent: whoever \<open>getuid\<close> or \<open>geteuid\<close> names is the
  user \<open>sandbox\<close> of the data base, with the group of \<open>getgid\<close> and \<open>getegid\<close>, the lookups by
  name and by number find the same entries, and no other user exists. Before \<open>enable_sandbox\<close> every
  one of these functions is the next library's.
\<close>

theorem identity_consistent:
  "sb_getpwuid True nu (sb_getuid True a) = Some sb_pwd \<and>
   sb_geteuid True b = sb_getuid True a \<and> sb_getgid True c = pw_gid sb_pwd \<and>
   sb_getegid True d = pw_gid sb_pwd \<and>
   (sb_getpwnam True nn name = Some p \<longleftrightarrow> p \<in> {sb_pwd, rt_pwd} \<and> cstr name = pw_name p) \<and>
   (sb_getpwuid True nu uid = Some p \<longleftrightarrow> p \<in> {sb_pwd, rt_pwd} \<and> uid = pw_uid p) \<and>
   sb_getuid False a = a \<and> sb_geteuid False b = b \<and> sb_getgid False c = c \<and>
   sb_getegid False d = d \<and> sb_getpwnam False nn name = nn name \<and> sb_getpwuid False nu uid = nu uid \<and>
   sb_getpwnam_r False next_r name n = next_r \<and> sb_getpwuid_r False next_r uid n = next_r"
  by (auto simp: sb_getpwuid_def sb_getpwnam_def sb_getuid_def sb_geteuid_def sb_getgid_def
      sb_getegid_def sb_getpwnam_r_def sb_getpwuid_r_def sb_pwd_def rt_pwd_def fun_eq_iff)

end
