(* ===== verification/Syscalls.thy ===== *)
theory Syscalls
  imports Prelude
begin

text \<open>
  The tables of \<open>sblibc.c\<close> that lead from a system call number to the code that handles
  it: the names of the calls by number, for both architectures the sources support, and
  \<open>arg_map\<close>, which gives for a name the handler and how its arguments are laid out in a
  request. Also the two searches of \<open>arg_map\<close>: the one of the child's signal handler and the
  one of the parent's request loop.
\<close>

section \<open>Names by number\<close>

definition syscalls_x86_64_1 :: "string list" where
  "syscalls_x86_64_1 = [
    ''read'', ''write'', ''open'', ''close'', ''stat'', ''fstat'', ''lstat'', ''poll'',
    ''lseek'', ''mmap'', ''mprotect'', ''munmap'', ''brk'', ''rt_sigaction'',
    ''rt_sigprocmask'', ''rt_sigreturn'', ''ioctl'', ''pread'', ''pwrite'', ''readv'',
    ''writev'', ''access'', ''pipe'', ''select'', ''sched_yield'', ''mremap'', ''msync'',
    ''mincore'', ''madvise'', ''shmget'', ''shmat'', ''shmctl'', ''dup'', ''dup2'', ''pause'',
    ''nanosleep'', ''getitimer'', ''alarm'', ''setitimer'', ''getpid'', ''sendfile'',
    ''socket'', ''connect'', ''accept'', ''sendto'', ''recvfrom'', ''sendmsg'', ''recvmsg'',
    ''shutdown'', ''bind'', ''listen'', ''getsockname'', ''getpeername'', ''socketpair'',
    ''setsockopt'', ''getsockopt'', ''clone'', ''fork'', ''vfork'', ''execve'', ''exit'',
    ''wait4'', ''kill'', ''uname'', ''semget'', ''semop'', ''semctl'', ''shmdt'', ''msgget'',
    ''msgsnd'', ''msgrcv'', ''msgctl'', ''fcntl'', ''flock'', ''fsync'', ''fdatasync'',
    ''truncate'', ''ftruncate'', ''getdents'', ''getcwd'', ''chdir'', ''fchdir'', ''rename'',
    ''mkdir'', ''rmdir'', ''creat'', ''link'', ''unlink'', ''symlink'', ''readlink'',
    ''chmod'', ''fchmod'', ''chown'', ''fchown'', ''lchown'', ''umask'', ''gettimeofday'',
    ''getrlimit'', ''getrusage'', ''sysinfo'', ''times'', ''ptrace'', ''getuid'', ''syslog'',
    ''getgid'', ''setuid'', ''setgid'', ''geteuid'']"

definition syscalls_x86_64_2 :: "string list" where
  "syscalls_x86_64_2 = [
    ''getegid'', ''setpgid'', ''getppid'', ''getpgrp'', ''setsid'', ''setreuid'', ''setregid'',
    ''getgroups'', ''setgroups'', ''setresuid'', ''getresuid'', ''setresgid'', ''getresgid'',
    ''getpgid'', ''setfsuid'', ''setfsgid'', ''getsid'', ''capget'', ''capset'',
    ''rt_sigpending'', ''rt_sigtimedwait'', ''rt_sigqueueinfo'', ''rt_sigsuspend'',
    ''sigaltstack'', ''utime'', ''mknod'', ''uselib'', ''personality'', ''ustat'', ''statfs'',
    ''fstatfs'', ''sysfs'', ''getpriority'', ''setpriority'', ''sched_setparam'',
    ''sched_getparam'', ''sched_setscheduler'', ''sched_getscheduler'',
    ''sched_get_priority_max'', ''sched_get_priority_min'', ''sched_rr_get_interval'',
    ''mlock'', ''munlock'', ''mlockall'', ''munlockall'', ''vhangup'', ''modify_ldt'',
    ''pivot_root'', ''_sysctl'', ''prctl'', ''arch_prctl'', ''adjtimex'', ''setrlimit'',
    ''chroot'', ''sync'', ''acct'', ''settimeofday'', ''mount'', ''umount2'', ''swapon'',
    ''swapoff'', ''reboot'', ''sethostname'', ''setdomainname'', ''iopl'', ''ioperm'',
    ''create_module'', ''init_module'', ''delete_module'', ''get_kernel_syms'',
    ''query_module'', ''quotactl'', ''nfsservctl'', ''getpmsg'', ''putpmsg'', ''afs_syscall'',
    ''tuxcall'', ''security'', ''gettid'', ''readahead'', ''setxattr'', ''lsetxattr'',
    ''fsetxattr'', ''getxattr'', ''lgetxattr'', ''fgetxattr'', ''listxattr'', ''llistxattr'',
    ''flistxattr'', ''removexattr'', ''lremovexattr'', ''fremovexattr'', ''tkill'', ''time'',
    ''futex'', ''sched_setaffinity'', ''sched_getaffinity'', ''set_thread_area'', ''io_setup'',
    ''io_destroy'', ''io_getevents'', ''io_submit'', ''io_cancel'', ''get_thread_area'',
    ''lookup_dcookie'', ''epoll_create'', ''epoll_ctl_old'', ''epoll_wait_old'']"

definition syscalls_x86_64_3 :: "string list" where
  "syscalls_x86_64_3 = [
    ''remap_file_pages'', ''getdents64'', ''set_tid_address'', ''restart_syscall'',
    ''semtimedop'', ''fadvise64'', ''timer_create'', ''timer_settime'', ''timer_gettime'',
    ''timer_getoverrun'', ''timer_delete'', ''clock_settime'', ''clock_gettime'',
    ''clock_getres'', ''clock_nanosleep'', ''exit_group'', ''epoll_wait'', ''epoll_ctl'',
    ''tgkill'', ''utimes'', ''vserver'', ''mbind'', ''set_mempolicy'', ''get_mempolicy'',
    ''mq_open'', ''mq_unlink'', ''mq_timedsend'', ''mq_timedreceive'', ''mq_notify'',
    ''mq_getsetattr'', ''kexec_load'', ''waitid'', ''add_key'', ''request_key'', ''keyctl'',
    ''ioprio_set'', ''ioprio_get'', ''inotify_init'', ''inotify_add_watch'',
    ''inotify_rm_watch'', ''migrate_pages'', ''openat'', ''mkdirat'', ''mknodat'',
    ''fchownat'', ''futimesat'', ''newfstatat'', ''unlinkat'', ''renameat'', ''linkat'',
    ''symlinkat'', ''readlinkat'', ''fchmodat'', ''faccessat'', ''pselect6'', ''ppoll'',
    ''unshare'', ''set_robust_list'', ''get_robust_list'', ''splice'', ''tee'',
    ''sync_file_range'', ''vmsplice'', ''move_pages'', ''utimensat'', ''epoll_pwait'',
    ''signalfd'', ''timerfd'', ''eventfd'', ''fallocate'', ''timerfd_settime'',
    ''timerfd_gettime'', ''accept4'', ''signalfd4'', ''eventfd2'', ''epoll_create1'', ''dup3'',
    ''pipe2'', ''inotify_init1'', ''preadv'', ''pwritev'', ''rt_tgsigqueueinfo'',
    ''perf_event_open'', ''recvmmsg'', ''fanotify_init'', ''fanotify_mark'', ''prlimit64'',
    ''name_to_handle_at'', ''open_by_handle_at'', ''clock_adjtime'', ''syncfs'', ''sendmmsg'',
    ''setns'', ''getcpu'', ''process_vm_readv'', ''process_vm_writev'', ''kcmp'',
    ''finit_module'', ''sched_setattr'', ''sched_getattr'', ''renameat2'', ''seccomp'',
    ''getrandom'', ''memfd_create'', ''kexec_file_load'', ''bpf'']"

definition syscalls_x86_64 :: "string list" where
  "syscalls_x86_64 = syscalls_x86_64_1 @ syscalls_x86_64_2 @ syscalls_x86_64_3"

definition syscalls_i386_1 :: "string list" where
  "syscalls_i386_1 = [
    ''restart_syscall'', ''exit'', ''fork'', ''read'', ''write'', ''open'', ''close'',
    ''waitpid'', ''creat'', ''link'', ''unlink'', ''execve'', ''chdir'', ''time'', ''mknod'',
    ''chmod'', ''lchown'', ''break'', ''oldstat'', ''lseek'', ''getpid'', ''mount'',
    ''umount'', ''setuid'', ''getuid'', ''stime'', ''ptrace'', ''alarm'', ''oldfstat'',
    ''pause'', ''utime'', ''stty'', ''gtty'', ''access'', ''nice'', ''ftime'', ''sync'',
    ''kill'', ''rename'', ''mkdir'', ''rmdir'', ''dup'', ''pipe'', ''times'', ''prof'',
    ''brk'', ''setgid'', ''getgid'', ''signal'', ''geteuid'', ''getegid'', ''acct'',
    ''umount2'', ''lock'', ''ioctl'', ''fcntl'', ''mpx'', ''setpgid'', ''ulimit'',
    ''oldolduname'', ''umask'', ''chroot'', ''ustat'', ''dup2'', ''getppid'', ''getpgrp'',
    ''setsid'', ''sigaction'', ''sgetmask'', ''ssetmask'', ''setreuid'', ''setregid'',
    ''sigsuspend'', ''sigpending'', ''sethostname'', ''setrlimit'', ''getrlimit'',
    ''getrusage'', ''gettimeofday'', ''settimeofday'', ''getgroups'', ''setgroups'',
    ''select'', ''symlink'', ''oldlstat'', ''readlink'', ''uselib'', ''swapon'', ''reboot'',
    ''readdir'', ''mmap'', ''munmap'', ''truncate'', ''ftruncate'', ''fchmod'', ''fchown'',
    ''getpriority'', ''setpriority'', ''profil'', ''statfs'', ''fstatfs'', ''ioperm'',
    ''socketcall'', ''syslog'', ''setitimer'', ''getitimer'', ''stat'', ''lstat'', ''fstat'',
    ''olduname'', ''iopl'', ''vhangup'', ''idle'', ''vm86old'', ''wait4'', ''swapoff'',
    ''sysinfo'', ''ipc'']"

definition syscalls_i386_2 :: "string list" where
  "syscalls_i386_2 = [
    ''fsync'', ''sigreturn'', ''clone'', ''setdomainname'', ''uname'', ''modify_ldt'',
    ''adjtimex'', ''mprotect'', ''sigprocmask'', ''create_module'', ''init_module'',
    ''delete_module'', ''get_kernel_syms'', ''quotactl'', ''getpgid'', ''fchdir'', ''bdflush'',
    ''sysfs'', ''personality'', ''afs_syscall'', ''setfsuid'', ''setfsgid'', ''_llseek'',
    ''getdents'', ''_newselect'', ''flock'', ''msync'', ''readv'', ''writev'', ''getsid'',
    ''fdatasync'', ''_sysctl'', ''mlock'', ''munlock'', ''mlockall'', ''munlockall'',
    ''sched_setparam'', ''sched_getparam'', ''sched_setscheduler'', ''sched_getscheduler'',
    ''sched_yield'', ''sched_get_priority_max'', ''sched_get_priority_min'',
    ''sched_rr_get_interval'', ''nanosleep'', ''mremap'', ''setresuid'', ''getresuid'',
    ''vm86'', ''query_module'', ''poll'', ''nfsservctl'', ''setresgid'', ''getresgid'',
    ''prctl'', ''rt_sigreturn'', ''rt_sigaction'', ''rt_sigprocmask'', ''rt_sigpending'',
    ''rt_sigtimedwait'', ''rt_sigqueueinfo'', ''rt_sigsuspend'', ''pread64'', ''pwrite64'',
    ''chown'', ''getcwd'', ''capget'', ''capset'', ''sigaltstack'', ''sendfile'', ''getpmsg'',
    ''putpmsg'', ''vfork'', ''ugetrlimit'', ''mmap2'', ''truncate64'', ''ftruncate64'',
    ''stat64'', ''lstat64'', ''fstat64'', ''lchown32'', ''getuid32'', ''getgid32'',
    ''geteuid32'', ''getegid32'', ''setreuid32'', ''setregid32'', ''getgroups32'',
    ''setgroups32'', ''fchown32'', ''setresuid32'', ''getresuid32'', ''setresgid32'',
    ''getresgid32'', ''chown32'', ''setuid32'', ''setgid32'', ''setfsuid32'', ''setfsgid32'',
    ''pivot_root'', ''mincore'', ''madvise'', ''getdents64'', ''fcntl64'', ''gettid'',
    ''readahead'', ''setxattr'', ''lsetxattr'', ''fsetxattr'', ''getxattr'', ''lgetxattr'',
    ''fgetxattr'', ''listxattr'', ''llistxattr'', ''flistxattr'', ''removexattr'',
    ''lremovexattr'', ''fremovexattr'']"

definition syscalls_i386_3 :: "string list" where
  "syscalls_i386_3 = [
    ''tkill'', ''sendfile64'', ''futex'', ''sched_setaffinity'', ''sched_getaffinity'',
    ''set_thread_area'', ''get_thread_area'', ''io_setup'', ''io_destroy'', ''io_getevents'',
    ''io_submit'', ''io_cancel'', ''fadvise64'', ''exit_group'', ''lookup_dcookie'',
    ''epoll_create'', ''epoll_ctl'', ''epoll_wait'', ''remap_file_pages'', ''set_tid_address'',
    ''timer_create'', ''timer_settime'', ''timer_gettime'', ''timer_getoverrun'',
    ''timer_delete'', ''clock_settime'', ''clock_gettime'', ''clock_getres'',
    ''clock_nanosleep'', ''statfs64'', ''fstatfs64'', ''tgkill'', ''utimes'', ''fadvise64_64'',
    ''vserver'', ''mbind'', ''get_mempolicy'', ''set_mempolicy'', ''mq_open'', ''mq_unlink'',
    ''mq_timedsend'', ''mq_timedreceive'', ''mq_notify'', ''mq_getsetattr'',
    ''sys_kexec_load'', ''waitid'', ''add_key'', ''request_key'', ''keyctl'', ''ioprio_set'',
    ''ioprio_get'', ''inotify_init'', ''inotify_add_watch'', ''inotify_rm_watch'',
    ''migrate_pages'', ''openat'', ''mkdirat'', ''mknodat'', ''fchownat'', ''futimesat'',
    ''fstatat64'', ''unlinkat'', ''renameat'', ''linkat'', ''symlinkat'', ''readlinkat'',
    ''fchmodat'', ''faccessat'', ''pselect6'', ''ppoll'', ''unshare'', ''set_robust_list'',
    ''get_robust_list'', ''splice'', ''sync_file_range'', ''tee'', ''vmsplice'',
    ''move_pages'', ''getcpu'', ''epoll_pwait'', ''utimensat'', ''signalfd'', ''timerfd'',
    ''eventfd'', ''fallocate'', ''timerfd_settime'', ''timerfd_gettime'', ''signalfd4'',
    ''eventfd2'', ''epoll_create1'', ''dup3'', ''pipe2'', ''inotify_init1'', ''preadv'',
    ''pwritev'', ''rt_tgsigqueueinfo'', ''perf_event_open'', ''recvmmsg'', ''fanotify_init'',
    ''fanotify_mark'', ''prlimit64'', ''name_to_handle_at'', ''open_by_handle_at'',
    ''clock_adjtime'', ''syncfs'', ''sendmmsg'', ''setns'', ''process_vm_readv'',
    ''process_vm_writev'', ''kcmp'', ''finit_module'', ''sched_setattr'', ''sched_getattr'',
    ''renameat2'', ''seccomp'', ''getrandom'', ''memfd_create'', ''bpf'']"

definition syscalls_i386 :: "string list" where
  "syscalls_i386 = syscalls_i386_1 @ syscalls_i386_2 @ syscalls_i386_3"

definition nsyscalls_x86_64 :: nat where "nsyscalls_x86_64 = 322"

definition nsyscalls_i386 :: nat where "nsyscalls_i386 = 358"

text \<open>
  The numbers the comments beside the i386 names give. The table skips the numbers the kernel
  does not use, so from the first gap on a name no longer stands at its number.
\<close>

definition i386_numbers :: "nat list" where
  "i386_numbers = [0..<222] @ [224..<251] @ [252..<285] @ [286..<358]"

section \<open>Handlers by name\<close>

datatype sysfunc =
    Sb_open | Sb_fcntl | Sb_close | Sb_read | Sb_stat | Sb_fstat | Sb_lstat | Sb_readlink
  | Sb_openat | Sb_getdents | Sb_lseek | Sb_dup | Sb_mmap | Sb_statfs | Sb_access | Sb_poll

text \<open>
  \<open>struct sys_arg_map\<close>; the name is \<open>None\<close> in the entry that ends the table. The lengths the
  initialisers leave out are 0, which the parent reads as a NUL-terminated string.
\<close>

record sys_arg_map =
  sys :: "string option"
  nargs :: nat
  func :: "sysfunc option"
  arglen :: "int list"

definition asys :: "string \<Rightarrow> nat \<Rightarrow> sysfunc \<Rightarrow> int list \<Rightarrow> sys_arg_map" where
  "asys name n f lens =
     \<lparr>sys = Some name, nargs = n, func = Some f, arglen = take 6 (lens @ replicate 6 0)\<rparr>"

definition arg_map :: "sys_arg_map list" where
  "arg_map = [
     asys ''open'' 3 Sb_open [0, 4, 4],
     asys ''fcntl'' 3 Sb_fcntl [4, 4, -1],
     asys ''close'' 1 Sb_close [4],
     asys ''read'' 3 Sb_read [],
     asys ''stat'' 2 Sb_stat [],
     asys ''fstat'' 2 Sb_fstat [],
     asys ''lstat'' 2 Sb_lstat [],
     asys ''readlink'' 3 Sb_readlink [],
     asys ''openat'' 4 Sb_openat [],
     asys ''getdents'' 3 Sb_getdents [],
     asys ''lseek'' 3 Sb_lseek [],
     asys ''dup'' 1 Sb_dup [],
     asys ''mmap'' 6 Sb_mmap [],
     asys ''statfs'' 2 Sb_statfs [],
     asys ''access'' 2 Sb_access [],
     asys ''poll'' 3 Sb_poll [],
     \<lparr>sys = None, nargs = 0, func = None, arglen = replicate 6 0\<rparr>]"

text \<open>The search of \<open>sigsys_handler\<close>: the first entry with the name, up to the end entry.\<close>

fun find_entry :: "sys_arg_map list \<Rightarrow> string \<Rightarrow> sys_arg_map option" where
  "find_entry [] name = None"
| "find_entry (e # es) name =
    (case sys e of
       None \<Rightarrow> None
     | Some n \<Rightarrow> if n = name then Some e else find_entry es name)"

text \<open>
  The search of the parent's request loop,
  \<open>for (map = arg_map; map->sys == NULL || !strcmp(map->sys, syscall); ++map)\<close>:
  it goes on while the name is equal and stops at the first entry with another name.
\<close>

fun parent_entry :: "sys_arg_map list \<Rightarrow> string \<Rightarrow> sys_arg_map option" where
  "parent_entry [] name = None"
| "parent_entry (e # es) name =
    (case sys e of
       None \<Rightarrow> parent_entry es name
     | Some n \<Rightarrow> if n = name then parent_entry es name else Some e)"

text \<open>From a number to a handler, as the child's signal handler does it.\<close>

definition handler_of :: "string list \<Rightarrow> nat \<Rightarrow> sysfunc option" where
  "handler_of names nr = Option.bind (find_entry arg_map (names ! nr)) func"

section \<open>What the searches find\<close>

definition named_handlers :: "(string \<times> sysfunc) list" where
  "named_handlers =
    [(''open'', Sb_open), (''fcntl'', Sb_fcntl), (''close'', Sb_close), (''read'', Sb_read),
     (''stat'', Sb_stat), (''fstat'', Sb_fstat), (''lstat'', Sb_lstat),
     (''readlink'', Sb_readlink), (''openat'', Sb_openat), (''getdents'', Sb_getdents),
     (''lseek'', Sb_lseek), (''dup'', Sb_dup), (''mmap'', Sb_mmap), (''statfs'', Sb_statfs),
     (''access'', Sb_access), (''poll'', Sb_poll)]"

lemma find_arg_map: "Option.bind (find_entry arg_map name) func = map_of named_handlers name"
  by (simp add: arg_map_def asys_def named_handlers_def)

lemma parent_arg_map:
  "parent_entry arg_map name =
    Some (if name = ''open'' then asys ''fcntl'' 3 Sb_fcntl [4, 4, -1]
          else asys ''open'' 3 Sb_open [0, 4, 4])"
  by (auto simp: arg_map_def asys_def)

text \<open>
  A table of names and the numbers it puts handlers at. From the two lists agreeing position
  by position follow the handler of every number and that no two numbers share one.
\<close>

locale syscall_table =
  fixes names :: "string list" and handled :: "(nat \<times> sysfunc) list"
  assumes placed: "map (map_of named_handlers) names = map (map_of handled) [0..<length names]"
    and once: "distinct (map snd handled)"
begin

lemma handler_at: "nr < length names \<Longrightarrow> handler_of names nr = map_of handled nr"
  using arg_cong [OF placed, of "\<lambda>xs. xs ! nr"] by (simp add: handler_of_def find_arg_map)

lemma handler_once:
  assumes "i < length names" "j < length names"
    and "handler_of names i = Some f" "handler_of names j = Some f"
  shows "i = j"
proof -
  have "(i, f) \<in> set handled" "(j, f) \<in> set handled"
    using assms by (auto simp: handler_at dest: map_of_SomeD)
  moreover have "inj_on snd (set handled)" using once by (simp add: distinct_map)
  ultimately have "(i, f) = (j, f)" by (intro inj_onD [of snd]) auto
  then show ?thesis by simp
qed

end

definition handled_x86_64 :: "(nat \<times> sysfunc) list" where
  "handled_x86_64 =
    [(0, Sb_read), (2, Sb_open), (3, Sb_close), (4, Sb_stat), (5, Sb_fstat), (6, Sb_lstat),
     (7, Sb_poll), (8, Sb_lseek), (9, Sb_mmap), (21, Sb_access), (32, Sb_dup), (72, Sb_fcntl),
     (78, Sb_getdents), (89, Sb_readlink), (137, Sb_statfs), (257, Sb_openat)]"

definition handled_i386 :: "(nat \<times> sysfunc) list" where
  "handled_i386 =
    [(3, Sb_read), (5, Sb_open), (6, Sb_close), (19, Sb_lseek), (33, Sb_access), (41, Sb_dup),
     (55, Sb_fcntl), (85, Sb_readlink), (90, Sb_mmap), (99, Sb_statfs), (106, Sb_stat),
     (107, Sb_lstat), (108, Sb_fstat), (141, Sb_getdents), (168, Sb_poll), (291, Sb_openat)]"

lemmas x86_64_tables = syscalls_x86_64_1_def syscalls_x86_64_2_def syscalls_x86_64_3_def

lemmas i386_tables = syscalls_i386_1_def syscalls_i386_2_def syscalls_i386_3_def

lemma length_syscalls:
  "length syscalls_x86_64 = 322" "length syscalls_i386 = 354" "length i386_numbers = 354"
  by (simp_all add: syscalls_x86_64_def x86_64_tables syscalls_i386_def i386_tables
      i386_numbers_def)

lemma placed_x86_64:
  "map (map_of named_handlers) syscalls_x86_64 = map (map_of handled_x86_64) [0..<322]"
  by code_simp

lemma placed_i386:
  "map (map_of named_handlers) syscalls_i386 = map (map_of handled_i386) [0..<354]"
  by code_simp

interpretation x86_64: syscall_table syscalls_x86_64 handled_x86_64
proof unfold_locales
  show "map (map_of named_handlers) syscalls_x86_64 =
      map (map_of handled_x86_64) [0..<length syscalls_x86_64]"
    by (simp only: length_syscalls placed_x86_64)
qed (simp add: handled_x86_64_def)

interpretation i386: syscall_table syscalls_i386 handled_i386
proof unfold_locales
  show "map (map_of named_handlers) syscalls_i386 =
      map (map_of handled_i386) [0..<length syscalls_i386]"
    by (simp only: length_syscalls placed_i386)
qed (simp add: handled_i386_def)

section \<open>Properties\<close>

text \<open>
  C19. On x86-64 the two tables together send exactly the sixteen virtualised calls to their
  handlers, each at the kernel's number for it; every other number of the table has no handler,
  and no two numbers share one.
\<close>

theorem x86_64_dispatch:
  assumes "nr < nsyscalls_x86_64"
  shows "handler_of syscalls_x86_64 nr = map_of handled_x86_64 nr \<and>
    (\<forall>m f. m < nsyscalls_x86_64 \<and> handler_of syscalls_x86_64 nr = Some f \<and>
      handler_of syscalls_x86_64 m = Some f \<longrightarrow> nr = m)"
  using assms x86_64.handler_at [of nr] x86_64.handler_once [of nr]
  by (simp add: length_syscalls nsyscalls_x86_64_def)

theorem x86_64_dispatch_witness:
  "(257::nat) < nsyscalls_x86_64 \<and> handler_of syscalls_x86_64 257 = Some Sb_openat"
  using x86_64_dispatch [of 257] by (simp add: nsyscalls_x86_64_def handled_x86_64_def)


text \<open>
  C20. The parent's search does not find the entry of the call it was asked for: for every name
  but \<open>open\<close> it stops at the entry of \<open>open\<close>, and for \<open>open\<close> itself at the entry of
  \<open>fcntl\<close>. The child's search, over the same table, finds the entry with the name.
\<close>

theorem parent_search_inverted:
  "parent_entry arg_map name =
     Some (if name = ''open'' then asys ''fcntl'' 3 Sb_fcntl [4, 4, -1]
           else asys ''open'' 3 Sb_open [0, 4, 4]) \<and>
   Option.bind (parent_entry arg_map name) sys \<noteq> Some name \<and>
   Option.bind (find_entry arg_map name) func = map_of named_handlers name"
  unfolding parent_arg_map find_arg_map by (simp add: asys_def)

end
