(* ===== verification/Seccomp.thy ===== *)
theory Seccomp
  imports Syscalls
begin

text \<open>
  \<open>sandbox-child.c\<close>: the filter of system calls and the handler of the signal it raises, and what
  they do together with the tables of \<open>sblibc.c\<close>.
\<close>

section \<open>The filter\<close>

text \<open>
  A rule of libseccomp lets a call through if every comparison of one of its arguments holds. The
  arguments are compared as 64-bit values.
\<close>

datatype scmp =
    SCMP_NE nat "64 word"
  | SCMP_EQ nat "64 word"
  | SCMP_MASKED_EQ nat "64 word" "64 word"

type_synonym rule = "string \<times> scmp list"

fun scmp_holds :: "64 word list \<Rightarrow> scmp \<Rightarrow> bool" where
  "scmp_holds args (SCMP_NE i v) = (args ! i \<noteq> v)"
| "scmp_holds args (SCMP_EQ i v) = (args ! i = v)"
| "scmp_holds args (SCMP_MASKED_EQ i m v) = (args ! i AND m = v)"

text \<open>
  What the manual of \<open>seccomp_rule_add\<close> says of a filter whose default is to trap: a call passes if
  some rule for it has all its comparisons satisfied. The filter itself is a parameter.
\<close>

type_synonym seccomp = "rule list \<Rightarrow> string \<Rightarrow> 64 word list \<Rightarrow> bool"

definition seccomp_documented :: "seccomp \<Rightarrow> bool" where
  "seccomp_documented allows \<longleftrightarrow> (\<forall>rules call args.
     allows rules call args \<longleftrightarrow> (\<exists>cs. (call, cs) \<in> set rules \<and> list_all (scmp_holds args) cs))"

abbreviation (input) "RPCSOCK \<equiv> (3 :: 64 word)"
abbreviation (input) "F_GETFD \<equiv> (1 :: 64 word)"
abbreviation (input) "F_GETFL \<equiv> (3 :: 64 word)"
abbreviation (input) "RUSAGE_SELF \<equiv> (0 :: 64 word)"
abbreviation (input) "SIGSYS \<equiv> (31::int)"

definition debug_rules :: "rule list" where
  "debug_rules =
    [(''write'', [SCMP_EQ 0 1]), (''write'', [SCMP_EQ 0 2]),
     (''writev'', [SCMP_EQ 0 1]), (''writev'', [SCMP_EQ 0 2])]"

definition sb_rules :: "bool \<Rightarrow> 64 word \<Rightarrow> rule list" where
  "sb_rules debug pid =
    [(''read'', [SCMP_EQ 0 RPCSOCK]), (''write'', [SCMP_EQ 0 RPCSOCK]),
     (''readv'', [SCMP_EQ 0 RPCSOCK]), (''writev'', [SCMP_EQ 0 RPCSOCK]),
     (''fstat'', [SCMP_EQ 0 RPCSOCK]),
     (''fcntl'', [SCMP_EQ 0 RPCSOCK, SCMP_EQ 1 F_GETFD]),
     (''fcntl'', [SCMP_EQ 0 RPCSOCK, SCMP_EQ 1 F_GETFL])] @
    (if debug then debug_rules else []) @
    [(''mmap'', [SCMP_MASKED_EQ 3 0x22 0x22]),
     (''brk'', []), (''munmap'', []), (''mprotect'', []),
     (''sigreturn'', []), (''rt_sigreturn'', []), (''rt_sigprocmask'', []), (''sigaltstack'', []),
     (''rt_sigaction'', [SCMP_NE 0 31]), (''rt_sigaction'', [SCMP_EQ 1 0]),
     (''futex'', []), (''uname'', []),
     (''getrusage'', [SCMP_EQ 0 RUSAGE_SELF]), (''tgkill'', [SCMP_EQ 0 pid]),
     (''exit_group'', []), (''exit'', [])]"

section \<open>The signal handler\<close>

text \<open>
  The registers of the trapped call. \<open>run\<close> is \<open>dispatch\<close>: it calls the function of the entry with
  the six parameters. A number that \<open>nsyscalls\<close> admits and the table has no element for, a negative
  one in particular, is an access outside of the table.
\<close>

record gregs =
  REG_RAX :: "64 word"
  REG_RDI :: "64 word"
  REG_RSI :: "64 word"
  REG_RDX :: "64 word"
  REG_R10 :: "64 word"
  REG_R8 :: "64 word"
  REG_R9 :: "64 word"

definition SB_P :: "gregs \<Rightarrow> 64 word list" where
  "SB_P ctx = [REG_RDI ctx, REG_RSI ctx, REG_RDX ctx, REG_R10 ctx, REG_R8 ctx, REG_R9 ctx]"

definition sigsys_handler ::
  "string list \<Rightarrow> nat \<Rightarrow> (sysfunc \<Rightarrow> 64 word list \<Rightarrow> ('s, 64 word) prog) \<Rightarrow> int \<Rightarrow> int \<Rightarrow> int \<Rightarrow>
   gregs \<Rightarrow> ('s, gregs) prog" where
  "sigsys_handler names nsys run signal si_code si_syscall ctx =
    (if signal \<noteq> SIGSYS \<or> si_code \<noteq> 1 then ret ctx
     else if si_syscall \<ge> int nsys then exit_with SIGSYS
     else if si_syscall < 0 \<or> si_syscall \<ge> int (length names) then fault_with Out_Of_Bounds
     else (case handler_of names (nat si_syscall) of
         Some f \<Rightarrow> bnd (run f (SB_P ctx)) (\<lambda>v. ret (ctx\<lparr>REG_RAX := v\<rparr>))
       | None \<Rightarrow> exit_with SIGSYS))"

text \<open>
  What a program that used the C library's wrapper is given for the value of the register: from
  -4095 to -1 it is an error, whose number becomes \<open>errno\<close>.
\<close>

definition syscall_result :: "64 word \<Rightarrow> int + 64 word" where
  "syscall_result v = (if - 4095 \<le> sint v \<and> sint v < 0 then Inl (- sint v) else Inr v)"

section \<open>What the filter lets through\<close>

lemma documented:
  "seccomp_documented allows \<Longrightarrow>
   allows rules call args \<longleftrightarrow> list_ex (\<lambda>(n, cs). n = call \<and> list_all (scmp_holds args) cs) rules"
  by (auto simp: seccomp_documented_def list_ex_iff)

text \<open>The numbers of the calls the rules name, and where the table of names has them.\<close>

definition rule_numbers :: "(string \<times> nat) list" where
  "rule_numbers =
    [(''read'', 0), (''write'', 1), (''fstat'', 5), (''mmap'', 9), (''mprotect'', 10), (''munmap'', 11),
     (''brk'', 12), (''rt_sigaction'', 13), (''rt_sigprocmask'', 14), (''rt_sigreturn'', 15),
     (''readv'', 19), (''writev'', 20), (''exit'', 60), (''uname'', 63), (''fcntl'', 72),
     (''getrusage'', 98), (''sigaltstack'', 131), (''futex'', 202), (''exit_group'', 231),
     (''tgkill'', 234)]"

lemma rules_placed:
  "map (map_of rule_numbers) syscalls_x86_64 =
   map (\<lambda>i. if i \<in> set (map snd rule_numbers) then Some i else None) [0..<322]"
  by code_simp

lemma no_sigreturn: "''sigreturn'' \<notin> set syscalls_x86_64"
  by code_simp

lemma name_number:
  assumes "nr < 322" and "(name, i) \<in> set rule_numbers"
  shows "name = syscalls_x86_64 ! nr \<longleftrightarrow> nr = i"
proof -
  have d: "distinct (map fst rule_numbers)" "distinct (map snd rule_numbers)" "\<forall>i\<in>snd ` set rule_numbers. i < 322"
    by (simp_all add: rule_numbers_def)
  have at: "map_of rule_numbers (syscalls_x86_64 ! n) =
      (if n \<in> set (map snd rule_numbers) then Some n else None)" if "n < 322" for n
    using arg_cong [OF rules_placed, of "\<lambda>xs. xs ! n"] that by (simp add: length_syscalls)
  show ?thesis
  proof
    assume "name = syscalls_x86_64 ! nr"
    with at [OF assms(1)] map_of_is_SomeI [OF d(1) assms(2)] show "nr = i"
      by (simp split: if_splits)
  next
    assume "nr = i"
    have "i < 322" "i \<in> set (map snd rule_numbers)" using d(3) assms(2) by force+
    then have "map_of rule_numbers (syscalls_x86_64 ! i) = Some i" using at by simp
    then have "(syscalls_x86_64 ! i, i) \<in> set rule_numbers" by (rule map_of_SomeD)
    with assms(2) d(2) \<open>nr = i\<close> show "name = syscalls_x86_64 ! nr"
      by (metis (no_types, lifting) distinct_map inj_onD prod.inject snd_conv)
  qed
qed

lemma names_of_rules:
  assumes "nr < 322"
  shows "\<forall>(name, i)\<in>set rule_numbers. (name = syscalls_x86_64 ! nr) = (nr = i)"
  using name_number [OF assms] by blast

section \<open>Properties\<close>


text \<open>A filter that does what the manual says.\<close>

definition manual_seccomp :: seccomp where
  "manual_seccomp rules call args = list_ex (\<lambda>(n, cs). n = call \<and> list_all (scmp_holds args) cs) rules"

lemma manual_seccomp: "seccomp_documented manual_seccomp"
  by (auto simp: seccomp_documented_def manual_seccomp_def list_ex_iff)

definition regs :: "64 word \<Rightarrow> 64 word \<Rightarrow> 64 word \<Rightarrow> gregs" where
  "regs a b c = \<lparr>REG_RAX = 0, REG_RDI = a, REG_RSI = b, REG_RDX = c, REG_R10 = 0, REG_R8 = 0, REG_R9 = 0\<rparr>"


text \<open>
  C39. The filter means to keep the handler of SIGSYS out of reach, and compares 64 bits; a signal
  number is an \<open>int\<close>, the low 32. There is a register value that is SIGSYS to the kernel and passes
  the filter with any action.
\<close>

theorem handler_replaceable:
  assumes "seccomp_documented allows"
  shows "\<exists>rdi. sint (ucast rdi :: 32 word) = SIGSYS \<and>
    (\<forall>ctx debug pid. allows (sb_rules debug pid) ''rt_sigaction'' (SB_P (ctx\<lparr>REG_RDI := rdi\<rparr>)))"
proof (intro exI conjI allI)
  show "sint (ucast (0x10000001F :: 64 word) :: 32 word) = SIGSYS" by simp
  show "allows (sb_rules debug pid) ''rt_sigaction'' (SB_P (ctx\<lparr>REG_RDI := 0x10000001F\<rparr>))"
    for ctx debug pid
    by (simp add: documented [OF assms] sb_rules_def debug_rules_def SB_P_def)
qed

theorem handler_replaceable_witness:
  "\<exists>rdi. sint (ucast rdi :: 32 word) = SIGSYS \<and>
    manual_seccomp (sb_rules True 9) ''rt_sigaction'' (SB_P ((regs 0 0x2000 0)\<lparr>REG_RDI := rdi\<rparr>))"
  using handler_replaceable [OF manual_seccomp] by blast

end
