(* ===== verification/Vfs.thy ===== *)
theory Vfs
  imports Rpc
begin

text \<open>
  The virtual file system of the parent process (\<open>sandbox-parent.c\<close>): the tree of nodes that
  \<open>build_tree\<close> makes of the overall parent's description, the path lookup \<open>get_node\<close>, which
  follows it into the real file system where the description allows that, and \<open>open_node\<close>.

  Nodes live in an explicit store, because the code shares and overwrites them: \<open>proxy\<close> is one
  static node that stands for whatever real file was looked up last. The kernel's file system is
  a parameter.
\<close>

section \<open>Nodes\<close>

text \<open>
  \<open>struct sbfs_node\<close>. Pointers are addresses; the chain that \<open>child\<close> starts and \<open>next\<close>
  continues is the list \<open>n_children\<close>. \<open>filter\<close> is null or an array of cells, each a string or
  null; a program that reads it on to a null cell leaves the array if there is none.
\<close>

record node =
  n_name :: "string option"
  n_realpath :: "string option"
  n_parent :: "nat option"
  n_children :: "nat list"
  n_filter :: "string option list option"
  n_flags :: "32 word"

abbreviation (input) "SBFS_FOLLOW \<equiv> (0x1 :: 32 word)"
abbreviation (input) "SBFS_RECURSE \<equiv> (0x2 :: 32 word)"
abbreviation (input) "SBFS_BLACKLIST \<equiv> (0x4 :: 32 word)"
abbreviation (input) "SBFS_PROXY \<equiv> (0x100 :: 32 word)"
abbreviation (input) "SBFS_WRITABLE \<equiv> (0x200 :: 32 word)"
abbreviation (input) "SBFS_DIRECTORY \<equiv> (0x400 :: 32 word)"
abbreviation (input) "SBFS_CLOEXEC \<equiv> (0x800 :: 32 word)"

definition has :: "node \<Rightarrow> 32 word \<Rightarrow> bool" where
  "has n f \<longleftrightarrow> n_flags n AND f \<noteq> 0"

text \<open>The two static nodes: \<open>root\<close> and \<open>proxy\<close>, zero but for what \<open>run_parent\<close> sets.\<close>

definition root :: nat where "root = 0"

definition proxy :: nat where "proxy = 1"

definition zero_node :: node where
  "zero_node = \<lparr>n_name = None, n_realpath = None, n_parent = None, n_children = [], n_filter = None,
     n_flags = 0\<rparr>"

text \<open>
  The state: the two pipes and errno, the store with the next address \<open>malloc\<close> gives out, the
  calls of \<open>open\<close> that were made, and the table of the sandbox's descriptors, where a real
  descriptor of 0 marks a free entry.
\<close>

record vfs = rpc +
  nodes :: "nat \<Rightarrow> node option"
  fresh :: nat
  opens :: "(string \<times> 32 word \<times> 32 word) list"
  fd_table :: "(int \<times> node option) list"

text \<open>The kernel's file system and \<open>fnmatch\<close>; \<open>Inl\<close> is an errno.\<close>

datatype ftype = Regular | Directory | Symlink | Other

record realfs =
  fs_entries :: "string \<Rightarrow> int + string list"
  fs_lstat :: "string \<Rightarrow> int + ftype"
  fs_stat :: "string \<Rightarrow> int + ftype"
  fs_open :: "string \<Rightarrow> 32 word \<Rightarrow> 32 word \<Rightarrow> int + int"
  fs_fnmatch :: "string \<Rightarrow> string \<Rightarrow> bool"

definition deref :: "nat option \<Rightarrow> ('a vfs_scheme, nat \<times> node) prog" where
  "deref p s =
    (case p of
       None \<Rightarrow> (Fault Null_Deref, s)
     | Some a \<Rightarrow> (case nodes s a of
          None \<Rightarrow> (Fault Out_Of_Bounds, s)
        | Some n \<Rightarrow> (Ret (a, n), s)))"

definition modify :: "nat \<Rightarrow> (node \<Rightarrow> node) \<Rightarrow> ('a vfs_scheme, unit) prog" where
  "modify a f s = (Ret (), s\<lparr>nodes := (nodes s)(a := map_option f (nodes s a))\<rparr>)"

definition set_err :: "int \<Rightarrow> ('a rpc_scheme, unit) prog" where
  "set_err e s = (Ret (), s\<lparr>errno := e\<rparr>)"

section \<open>Building the tree\<close>

fun for_each :: "'x list \<Rightarrow> ('x \<Rightarrow> ('s, unit) prog) \<Rightarrow> ('s, unit) prog" where
  "for_each [] f = ret ()"
| "for_each (x # xs) f = bnd (f x) (\<lambda>_. for_each xs f)"

definition bool_member :: "json_c \<Rightarrow> json \<Rightarrow> string \<Rightarrow> bool" where
  "bool_member jc json k = (case get_ex jc json k of Some t \<Rightarrow> get_boolean jc t | None \<Rightarrow> False)"

definition add_flag :: "bool \<Rightarrow> 32 word \<Rightarrow> node \<Rightarrow> node" where
  "add_flag b f n = (if b then n\<lparr>n_flags := n_flags n OR f\<rparr> else n)"

definition c_string :: "json_c \<Rightarrow> json \<Rightarrow> string option" where
  "c_string jc j = map_option cstr (get_string jc j)"

text \<open>
  What \<open>build_tree\<close> writes into the node it has allocated, whose memory is as \<open>malloc\<close> gave it:
  fields that no member of the description sets keep what they held. \<open>Inl\<close> is an exit status.
\<close>

definition node_path :: "json_c \<Rightarrow> realfs \<Rightarrow> json \<Rightarrow> node \<Rightarrow> int + node" where
  "node_path jc fs json n =
    (case get_ex jc json ''realpath'' of
       Some t \<Rightarrow>
         if is_string t then
           (let p = c_string jc t; n = n\<lparr>n_realpath := p\<rparr> in
            case p of
              None \<Rightarrow> Inl 1
            | Some path \<Rightarrow> (case fs_stat fs path of
                Inl e \<Rightarrow> Inl 1
              | Inr ty \<Rightarrow> Inr (add_flag (ty = Directory) SBFS_DIRECTORY n)))
         else Inr (add_flag (bool_member jc json ''dir'') SBFS_DIRECTORY n)
     | None \<Rightarrow> Inr (add_flag (bool_member jc json ''dir'') SBFS_DIRECTORY n))"

definition node_filter :: "json_c \<Rightarrow> json \<Rightarrow> node \<Rightarrow> node" where
  "node_filter jc json n =
    (case get_ex jc json ''filter'' of
       Some t \<Rightarrow>
         (let len = array_length jc t in
          if len > 0
          then n\<lparr>n_filter := Some (map (\<lambda>i. c_string jc (array_get_idx jc t i)) [0..<len])\<rparr>
          else n)
     | None \<Rightarrow> n)"

definition fill_node :: "json_c \<Rightarrow> realfs \<Rightarrow> json \<Rightarrow> node \<Rightarrow> int + node" where
  "fill_node jc fs json n =
    (let n = n\<lparr>n_name := c_string jc (opt_json (get_ex jc json ''name''))\<rparr> in
     case node_path jc fs json n of
       Inl e \<Rightarrow> Inl e
     | Inr n \<Rightarrow> Inr (node_filter jc json
         (add_flag (bool_member jc json ''writable'') SBFS_WRITABLE
         (add_flag (bool_member jc json ''proxy'') SBFS_PROXY
         (add_flag (bool_member jc json ''blacklist'') SBFS_BLACKLIST
         (add_flag (bool_member jc json ''recurse'') SBFS_RECURSE
         (add_flag (bool_member jc json ''follow'') SBFS_FOLLOW n)))))))"

text \<open>
  \<open>malloc\<close>: a new address; \<open>junk\<close> says what the memory there holds. The new node is put in
  front of its parent's children before anything else is known of it.
\<close>

definition alloc_child :: "(nat \<Rightarrow> node) \<Rightarrow> nat \<Rightarrow> ('a vfs_scheme, nat) prog" where
  "alloc_child junk parent =
    bnd (deref (Some parent)) (\<lambda>(_, pn) s.
      (Ret (fresh s), s\<lparr>fresh := fresh s + 1,
         nodes := (nodes s)(fresh s \<mapsto> (junk (fresh s))\<lparr>n_parent := Some parent\<rparr>,
           parent \<mapsto> pn\<lparr>n_children := fresh s # n_children pn\<rparr>)\<rparr>))"

text \<open>
  \<open>build_tree\<close>. The fuel bounds the depth of the description; one more than the size of the
  JSON value is enough, because the members of an object are smaller than it.
\<close>

primrec build_tree ::
  "nat \<Rightarrow> json_c \<Rightarrow> realfs \<Rightarrow> (nat \<Rightarrow> node) \<Rightarrow> json \<Rightarrow> nat \<Rightarrow> ('a vfs_scheme, unit) prog" where
  "build_tree 0 jc fs junk json parent = fault_with Out_Of_Bounds"
| "build_tree (Suc fuel) jc fs junk json parent =
    bnd (alloc_child junk parent) (\<lambda>a.
    bnd (deref (Some a)) (\<lambda>(_, n).
    case fill_node jc fs json n of
      Inl e \<Rightarrow> exit_with e
    | Inr n \<Rightarrow>
        bnd (modify a (\<lambda>_. n)) (\<lambda>_.
        case get_ex jc json ''children'' of
          Some t \<Rightarrow>
            if has n SBFS_DIRECTORY
            then for_each [0..<array_length jc t]
              (\<lambda>i. build_tree fuel jc fs junk (array_get_idx jc t i) a)
            else ret ()
        | None \<Rightarrow> ret ())))"

text \<open>The loop of \<open>run_parent\<close> over the description of the whole file system.\<close>

definition load_tree ::
  "json_c \<Rightarrow> realfs \<Rightarrow> (nat \<Rightarrow> node) \<Rightarrow> json \<Rightarrow> ('a vfs_scheme, unit) prog" where
  "load_tree jc fs junk out =
    for_each [0..<array_length jc out]
      (\<lambda>i. build_tree (Suc (size (array_get_idx jc out i))) jc fs junk (array_get_idx jc out i) root)"

section \<open>Looking a path up\<close>

text \<open>\<open>strtok\<close> with the delimiter \<open>/\<close>: the non-empty pieces between slashes.\<close>

abbreviation (input) "slash \<equiv> CHR ''/''"

fun pieces :: "string \<Rightarrow> string \<Rightarrow> string list" where
  "pieces acc [] = [acc]"
| "pieces acc (c # cs) = (if c = slash then acc # pieces [] cs else pieces (acc @ [c]) cs)"

definition tokens :: "string \<Rightarrow> string list" where
  "tokens path = filter (\<lambda>t. t \<noteq> []) (pieces [] path)"

text \<open>A filter's part before its first slash, and the part behind it, if there is one.\<close>

definition filter_top :: "string \<Rightarrow> string" where
  "filter_top f = takeWhile (\<lambda>c. c \<noteq> slash) f"

definition filter_rest :: "string \<Rightarrow> string option" where
  "filter_rest f = (if slash \<in> set f then Some (tl (dropWhile (\<lambda>c. c \<noteq> slash) f)) else None)"

text \<open>One step of the lookup goes on at a node, which may be null, or gives up with null.\<close>

datatype visit = Go "nat option" | Give_Up

text \<open>The search among the children, by \<open>strcmp\<close>.\<close>

fun find_child :: "string \<Rightarrow> nat list \<Rightarrow> ('a vfs_scheme, nat option) prog" where
  "find_child name [] = ret None"
| "find_child name (c # cs) =
    bnd (deref (Some c)) (\<lambda>(_, n).
    bnd (need (n_name n) (fault_with Null_Deref)) (\<lambda>m.
    if name = m then ret (Some c) else find_child name cs))"

text \<open>
  The filters of a real directory: whether a name may be looked for. A match decides at once;
  at the null cell a blacklist lets the name pass and a whitelist does not.
\<close>

fun filter_allows :: "realfs \<Rightarrow> bool \<Rightarrow> string \<Rightarrow> string option list \<Rightarrow> ('s, bool) prog" where
  "filter_allows fs blacklist name [] = fault_with Out_Of_Bounds"
| "filter_allows fs blacklist name (None # cells) = ret blacklist"
| "filter_allows fs blacklist name (Some f # cells) =
    (if fs_fnmatch fs (filter_top f) name then ret (\<not> blacklist)
     else filter_allows fs blacklist name cells)"

text \<open>
  The filters for the entry that was found: what follows the slash of those that match its name,
  in a new array with as many cells as the old one has strings, then a null cell. When every
  filter goes on, the null cell does not fit.
\<close>

definition before_null :: "string option list \<Rightarrow> string list option" where
  "before_null cells =
    (if None \<in> set cells then Some (map the (takeWhile (\<lambda>c. c \<noteq> None) cells)) else None)"

definition next_filters :: "realfs \<Rightarrow> string \<Rightarrow> string list \<Rightarrow> string list" where
  "next_filters fs name fl =
     List.map_filter (\<lambda>f. if fs_fnmatch fs (filter_top f) name then filter_rest f else None) fl"

definition copy_filters ::
  "realfs \<Rightarrow> string \<Rightarrow> string option list \<Rightarrow> ('s, string option list) prog" where
  "copy_filters fs name cells =
    bnd (need (before_null cells) (fault_with Out_Of_Bounds)) (\<lambda>fl.
    let fbuf = next_filters fs name fl in
    if length fbuf < length fl then ret (map Some fbuf @ [None]) else fault_with Out_Of_Bounds)"

text \<open>
  An entry of a real directory: the static node \<open>proxy\<close> becomes that entry. The directory itself
  may be \<open>proxy\<close>; it is read again after every change to it.
\<close>

definition enter_real :: "realfs \<Rightarrow> nat \<Rightarrow> string \<Rightarrow> string \<Rightarrow> ('a vfs_scheme, visit) prog" where
  "enter_real fs cur realpath name =
    (let path = realpath @ slash # name in
     bnd (deref (Some cur)) (\<lambda>(_, c).
     bnd (modify proxy (\<lambda>p. p\<lparr>n_name := Some name, n_realpath := Some path,
        n_flags := n_flags c AND NOT SBFS_DIRECTORY, n_filter := None\<rparr>)) (\<lambda>_.
     case fs_lstat fs path of
       Inl e \<Rightarrow> bnd (set_err e) (\<lambda>_. ret Give_Up)
     | Inr ty \<Rightarrow>
         bnd (deref (Some cur)) (\<lambda>(_, c).
         if ty = Symlink \<and> \<not> has c SBFS_FOLLOW then ret (Go None)
         else
           case (if ty = Symlink then fs_stat fs path else Inr ty) of
             Inl e \<Rightarrow> bnd (set_err e) (\<lambda>_. ret Give_Up)
           | Inr ty \<Rightarrow>
               bnd (modify proxy (add_flag (ty = Directory) SBFS_DIRECTORY)) (\<lambda>_.
               bnd (deref (Some cur)) (\<lambda>(_, c).
               bnd (case n_filter c of
                      None \<Rightarrow> ret ()
                    | Some cells \<Rightarrow> bnd (copy_filters fs name cells) (\<lambda>fbuf.
                        modify proxy (\<lambda>p. p\<lparr>n_filter := Some fbuf\<rparr>))) (\<lambda>_.
               ret (Go (Some proxy)))))))))"

definition visit_real :: "realfs \<Rightarrow> nat \<Rightarrow> node \<Rightarrow> string \<Rightarrow> string \<Rightarrow> ('a vfs_scheme, visit) prog" where
  "visit_real fs cur n realpath name =
    bnd (case n_filter n of
           None \<Rightarrow> ret True
         | Some cells \<Rightarrow> filter_allows fs (has n SBFS_BLACKLIST) name cells) (\<lambda>ok.
    if \<not> ok then bnd (set_err ENOENT) (\<lambda>_. ret Give_Up)
    else case fs_entries fs realpath of
      Inl e \<Rightarrow> bnd (set_err e) (\<lambda>_. ret Give_Up)
    | Inr names \<Rightarrow> if name \<in> set names then enter_real fs cur realpath name else ret (Go None))"

text \<open>The first child of the static node is freed and its list cut.\<close>

definition free_proxied :: "('a vfs_scheme, unit) prog" where
  "free_proxied = bnd (deref (Some proxy)) (\<lambda>(_, p) s.
     (Ret (), if n_children p = [] then s
      else s\<lparr>nodes := (nodes s)(hd (n_children p) := None, proxy \<mapsto> p\<lparr>n_children := []\<rparr>)\<rparr>))"

text \<open>
  Below a proxied node the overall parent is asked, and its answer becomes the only child of the
  static node.
\<close>

definition visit_proxied ::
  "json_c \<Rightarrow> realfs \<Rightarrow> (nat \<Rightarrow> node) \<Rightarrow> string \<Rightarrow> node \<Rightarrow> string \<Rightarrow> ('a vfs_scheme, visit) prog" where
  "visit_proxied jc fs junk path n name =
    bnd (need (n_name n) (fault_with Null_Deref)) (\<lambda>cur_name.
    bnd (need (n_realpath n) (fault_with Null_Deref)) (\<lambda>cur_realpath.
    bnd (trampoline jc True NS_SB ''getnode'' 4
      [JString cur_name, JString cur_realpath, JString name, JString path]) (\<lambda>(r, out).
    if r \<noteq> 0 then ret Give_Up
    else
      bnd free_proxied (\<lambda>_.
      bnd (build_tree (Suc (size out)) jc fs junk out proxy) (\<lambda>_.
      bnd (deref (Some proxy)) (\<lambda>(_, p).
      ret (Go (case n_children p of [] \<Rightarrow> None | c # _ \<Rightarrow> Some c))))))))"

definition visit_name ::
  "json_c \<Rightarrow> realfs \<Rightarrow> (nat \<Rightarrow> node) \<Rightarrow> string \<Rightarrow> string \<Rightarrow> nat option \<Rightarrow> ('a vfs_scheme, visit) prog" where
  "visit_name jc fs junk path name cur =
    (if name = ''.'' then ret (Go cur)
     else
       bnd (deref cur) (\<lambda>(a, n).
       if name = ''..'' then ret (Go (n_parent n))
       else if has n SBFS_PROXY then visit_proxied jc fs junk path n name
       else
         bnd (find_child name (n_children n)) (\<lambda>found.
         case found of
           Some c \<Rightarrow> ret (Go (Some c))
         | None \<Rightarrow>
             (case n_realpath n of
                Some rp \<Rightarrow>
                  if has n SBFS_RECURSE then visit_real fs a n rp name else ret (Go cur)
              | None \<Rightarrow> ret (Go cur)))))"

fun walk ::
  "json_c \<Rightarrow> realfs \<Rightarrow> (nat \<Rightarrow> node) \<Rightarrow> string \<Rightarrow> string list \<Rightarrow> nat option \<Rightarrow>
   ('a vfs_scheme, nat option) prog" where
  "walk jc fs junk path [] cur = ret cur"
| "walk jc fs junk path (name # names) cur =
    bnd (visit_name jc fs junk path name cur) (\<lambda>v.
    case v of
      Go cur \<Rightarrow> walk jc fs junk path names cur
    | Give_Up \<Rightarrow> ret None)"

text \<open>
  \<open>get_node\<close>. A relative path starts at the working directory, for which the overall parent is
  asked; its answer is looked up the same way. Every such question takes a line from the pipe,
  so that the recursion ends.
\<close>

function get_node ::
  "json_c \<Rightarrow> realfs \<Rightarrow> (nat \<Rightarrow> node) \<Rightarrow> string \<Rightarrow> 'a vfs_scheme \<Rightarrow>
   nat option outcome \<times> 'a vfs_scheme" where
  "get_node jc fs junk path s =
    (if path \<noteq> [] \<and> hd path = slash then walk jc fs junk path (tokens path) (Some root) s
     else
       case trampoline jc True NS_SYS ''getcwd'' 0 [] s of
         (Ret (r, out), s1) \<Rightarrow>
           if r \<noteq> 0 then (Ret None, s1)
           else (case c_string jc out of
              None \<Rightarrow> (Fault Null_Deref, s1)
            | Some cwd \<Rightarrow>
                (case get_node jc fs junk cwd s1 of
                   (Ret None, s2) \<Rightarrow> (Ret None, s2)
                 | (Ret (Some cur), s2) \<Rightarrow> walk jc fs junk path (tokens path) (Some cur) s2
                 | (Exit n, s2) \<Rightarrow> (Exit n, s2)
                 | (Fault e, s2) \<Rightarrow> (Fault e, s2)))
       | (Exit n, s1) \<Rightarrow> (Exit n, s1)
       | (Fault e, s1) \<Rightarrow> (Fault e, s1))"
  by auto
termination
  by (relation "measure (\<lambda>(jc, fs, junk, path, s). length (pipe_in s))")
     (auto dest!: sym [of _ "trampoline _ _ _ _ _ _ _"] trampoline_progress)

declare get_node.simps [simp del]

section \<open>Opening\<close>

text \<open>
  \<open>open_node\<close>. The checks look at \<open>mode\<close>, where one would expect \<open>flags\<close>. A virtual node gets
  the descriptor -1; the request to the overall parent that would open it is not written yet.
\<close>

definition real_open ::
  "realfs \<Rightarrow> string \<Rightarrow> 32 word \<Rightarrow> 32 word \<Rightarrow> ('a vfs_scheme, int) prog" where
  "real_open fs path flags mode s =
    (let s1 = s\<lparr>opens := opens s @ [(path, flags, mode)]\<rparr> in
     case fs_open fs path flags mode of
       Inl e \<Rightarrow> (Ret (-1), s1\<lparr>errno := e\<rparr>)
     | Inr fd \<Rightarrow> (Ret fd, s1))"

abbreviation (input) "MAX_FDS \<equiv> (64::nat)"

definition free_slot :: "(int \<times> node option) list \<Rightarrow> nat option" where
  "free_slot tab = List.find (\<lambda>i. fst (tab ! i) = 0) [4..<MAX_FDS]"

definition new_fd ::
  "node \<Rightarrow> int \<Rightarrow> 32 word \<Rightarrow> ('a vfs_scheme, int) prog" where
  "new_fd n realfd flags s =
    (case free_slot (fd_table s) of
       None \<Rightarrow> (Ret (-1), s\<lparr>errno := EMFILE\<rparr>)
     | Some i \<Rightarrow>
         (case n_name n of
            None \<Rightarrow> (Fault Null_Deref, s)
          | Some name \<Rightarrow>
              let newnode = zero_node\<lparr>n_name := Some name, n_flags := n_flags n, n_realpath := n_realpath n\<rparr>
              in (Ret (int i), s\<lparr>fd_table := (fd_table s)[i := (realfd,
                   Some (add_flag (realfd < 0 \<and> flags AND O_CLOEXEC \<noteq> 0) SBFS_CLOEXEC newnode))]\<rparr>)))"

definition open_node ::
  "json_c \<Rightarrow> realfs \<Rightarrow> (nat \<Rightarrow> node) \<Rightarrow> string \<Rightarrow> 32 word \<Rightarrow> 32 word \<Rightarrow> ('a vfs_scheme, int) prog" where
  "open_node jc fs junk pathname flags mode =
    bnd (get_node jc fs junk pathname) (\<lambda>p.
    case p of
      None \<Rightarrow>
        bnd (set_err (if flags AND O_CREAT \<noteq> 0 then EROFS else ENOENT)) (\<lambda>_. ret (-1))
    | Some a \<Rightarrow>
        bnd (deref (Some a)) (\<lambda>(_, n).
        if has n SBFS_DIRECTORY \<and> mode AND (O_WRONLY OR O_RDWR) \<noteq> 0
        then bnd (set_err EISDIR) (\<lambda>_. ret (-1))
        else if mode AND (O_CREAT OR O_EXCL) \<noteq> 0
        then bnd (set_err EEXIST) (\<lambda>_. ret (-1))
        else if \<not> has n SBFS_WRITABLE \<and> mode AND (O_WRONLY OR O_RDWR) \<noteq> 0
        then bnd (set_err EROFS) (\<lambda>_. ret (-1))
        else if has n SBFS_DIRECTORY \<and> mode AND O_DIRECTORY = 0
        then bnd (set_err ENOTDIR) (\<lambda>_. ret (-1))
        else
          (case n_realpath n of
             Some rp \<Rightarrow>
               bnd (real_open fs rp flags mode) (\<lambda>realfd.
               if realfd = -1 then ret (-1) else new_fd n realfd flags)
           | None \<Rightarrow> new_fd n (-1) flags)))"

end
