(* ===== verification/Tree.thy ===== *)
theory Tree
  imports Vfs
begin

text \<open>
  What \<open>build_tree\<close> builds, and what \<open>get_node\<close> finds in it: the store represents the
  description, and an absolute path through virtual directories leads to the node of the entry
  it names.
\<close>

section \<open>Descriptions\<close>

text \<open>An entry of the format the comment in \<open>build_tree\<close> gives, and its JSON.\<close>

datatype entry = Entry
  (e_name: string) (e_realpath: "string option") (e_dir: bool) (e_follow: bool) (e_recurse: bool)
  (e_blacklist: bool) (e_proxy: bool) (e_writable: bool) (e_filter: "string list")
  (e_children: "entry list")

primrec entry_json :: "entry \<Rightarrow> json" where
  "entry_json (Entry name rp dir follow recurse black prox writable filt kids) = JObject
    [(''name'', JString name), (''realpath'', case rp of None \<Rightarrow> JNull | Some p \<Rightarrow> JString p),
     (''children'', JArray (map entry_json kids)), (''follow'', JBoolean follow),
     (''recurse'', JBoolean recurse), (''dir'', JBoolean dir),
     (''filter'', JArray (map JString filt)), (''blacklist'', JBoolean black),
     (''proxy'', JBoolean prox), (''writable'', JBoolean writable)]"

text \<open>Strings without NUL, and real paths that exist, here and below.\<close>

definition plain :: "string \<Rightarrow> bool" where "plain t \<longleftrightarrow> CHR 0x00 \<notin> set t"

primrec entry_ok :: "realfs \<Rightarrow> entry \<Rightarrow> bool" where
  "entry_ok fs (Entry name rp dir follow recurse black prox writable filt kids) \<longleftrightarrow>
     plain name \<and> (case rp of None \<Rightarrow> True | Some p \<Rightarrow> plain p \<and> (\<exists>ty. fs_stat fs p = Inr ty)) \<and>
     list_all plain filt \<and> list_all id (map (entry_ok fs) kids)"

primrec height :: "entry \<Rightarrow> nat" where
  "height (Entry name rp dir follow recurse black prox writable filt kids) =
     Suc (fold max (map height kids) 0)"

text \<open>The node an entry asks for, apart from its links.\<close>

definition is_dir :: "realfs \<Rightarrow> entry \<Rightarrow> bool" where
  "is_dir fs e = (case e_realpath e of Some p \<Rightarrow> fs_stat fs p = Inr Directory | None \<Rightarrow> e_dir e)"

definition entry_flags :: "realfs \<Rightarrow> entry \<Rightarrow> 32 word" where
  "entry_flags fs e =
     (if is_dir fs e then SBFS_DIRECTORY else 0) OR (if e_follow e then SBFS_FOLLOW else 0) OR
     (if e_recurse e then SBFS_RECURSE else 0) OR (if e_blacklist e then SBFS_BLACKLIST else 0) OR
     (if e_proxy e then SBFS_PROXY else 0) OR (if e_writable e then SBFS_WRITABLE else 0)"

definition entry_node :: "realfs \<Rightarrow> entry \<Rightarrow> nat \<Rightarrow> nat list \<Rightarrow> node" where
  "entry_node fs e parent kids =
     \<lparr>n_name = Some (e_name e), n_realpath = e_realpath e, n_parent = Some parent, n_children = kids,
      n_filter = (if e_filter e = [] then None else Some (map Some (e_filter e))),
      n_flags = entry_flags fs e\<rparr>"

text \<open>
  The store represents an entry at an address: its node is there, and its children, in reverse
  order and only if it is a directory, are represented at the addresses of its children.
\<close>

inductive represents :: "realfs \<Rightarrow> (nat \<Rightarrow> node option) \<Rightarrow> nat \<Rightarrow> entry \<Rightarrow> nat \<Rightarrow> bool"
  for fs h where
  "h a = Some (entry_node fs e parent cs) \<Longrightarrow>
   list_all2 (\<lambda>e' c. represents fs h a e' c) (if is_dir fs e then rev (e_children e) else []) cs \<Longrightarrow>
   represents fs h parent e a"

inductive_cases representsE: "represents fs h parent e a"

section \<open>Building\<close>

lemma add_flag_sel [simp]:
  "n_name (add_flag b f n) = n_name n" "n_realpath (add_flag b f n) = n_realpath n"
  "n_parent (add_flag b f n) = n_parent n" "n_children (add_flag b f n) = n_children n"
  "n_filter (add_flag b f n) = n_filter n"
  "n_flags (add_flag b f n) = n_flags n OR (if b then f else 0)"
  by (simp_all add: add_flag_def)

lemma add_flag_eq: "add_flag b f n = n\<lparr>n_flags := n_flags n OR (if b then f else 0)\<rparr>"
  by (simp add: add_flag_def)

lemma entry_json_eq:
  "entry_json e = JObject
    [(''name'', JString (e_name e)),
     (''realpath'', case e_realpath e of None \<Rightarrow> JNull | Some p \<Rightarrow> JString p),
     (''children'', JArray (map entry_json (e_children e))), (''follow'', JBoolean (e_follow e)),
     (''recurse'', JBoolean (e_recurse e)), (''dir'', JBoolean (e_dir e)),
     (''filter'', JArray (map JString (e_filter e))), (''blacklist'', JBoolean (e_blacklist e)),
     (''proxy'', JBoolean (e_proxy e)), (''writable'', JBoolean (e_writable e))]"
  by (cases e) simp

lemma entry_ok_eq:
  "entry_ok fs e \<longleftrightarrow> plain (e_name e) \<and>
     (case e_realpath e of None \<Rightarrow> True | Some p \<Rightarrow> plain p \<and> (\<exists>ty. fs_stat fs p = Inr ty)) \<and>
     list_all plain (e_filter e) \<and> (\<forall>k \<in> set (e_children e). entry_ok fs k)"
  by (cases e) (simp add: list_all_iff)

lemma member_simps [simp]:
  "json_c_ok jc \<Longrightarrow> bool_member jc (JObject mem) k =
    (case map_of mem k of Some t \<Rightarrow> get_boolean jc t | None \<Rightarrow> False)"
  by (simp add: bool_member_def)

lemma c_string_plain [simp]: "json_c_ok jc \<Longrightarrow> plain t \<Longrightarrow> c_string jc (JString t) = Some t"
  by (simp add: c_string_def plain_def)

lemma fill_node_entry:
  assumes "json_c_ok jc" and "entry_ok fs e"
  shows "fill_node jc fs (entry_json e) (zero_node\<lparr>n_parent := Some parent\<rparr>) =
    Inr (entry_node fs e parent [])"
proof -
  have filt: "map (\<lambda>i. c_string jc (array_get_idx jc (JArray (map JString (e_filter e))) i))
      [0..<length (e_filter e)] = map Some (e_filter e)"
    using assms by (intro nth_equalityI) (simp_all add: entry_ok_eq [of fs e] list_all_length)
  have path: "node_path jc fs (entry_json e) (zero_node\<lparr>n_parent := Some parent, n_name := Some (e_name e)\<rparr>) =
      Inr (add_flag (is_dir fs e) SBFS_DIRECTORY
        (zero_node\<lparr>n_parent := Some parent, n_name := Some (e_name e), n_realpath := e_realpath e\<rparr>))"
    using assms
    by (cases "e_realpath e")
       (auto simp: node_path_def entry_json_eq [of e] entry_ok_eq [of fs e] is_dir_def is_string_def zero_node_def)
  have name: "c_string jc (opt_json (get_ex jc (entry_json e) ''name'')) = Some (e_name e)"
    using assms by (simp add: entry_json_eq [of e] entry_ok_eq [of fs e] opt_json_def)
  have members: "bool_member jc (entry_json e) ''writable'' = e_writable e"
    "bool_member jc (entry_json e) ''proxy'' = e_proxy e"
    "bool_member jc (entry_json e) ''blacklist'' = e_blacklist e"
    "bool_member jc (entry_json e) ''recurse'' = e_recurse e"
    "bool_member jc (entry_json e) ''follow'' = e_follow e"
    using assms(1) by (simp_all add: entry_json_eq [of e])
  have filter: "node_filter jc (entry_json e) n =
      n\<lparr>n_filter := if e_filter e = [] then n_filter n else Some (map Some (e_filter e))\<rparr>" for n
  proof -
    have g: "get_ex jc (entry_json e) ''filter'' = Some (JArray (map JString (e_filter e)))"
      using assms(1) by (simp add: entry_json_eq [of e])
    have l: "array_length jc (JArray (map JString (e_filter e))) = length (e_filter e)"
      using assms(1) by simp
    show ?thesis unfolding node_filter_def g option.case Let_def l filt by simp
  qed
  show ?thesis
    unfolding fill_node_def Let_def name path members filter
    by (simp add: entry_node_def entry_flags_def zero_node_def add_flag_eq ac_simps split del: if_split cong: if_cong)
qed

text \<open>The memory \<open>malloc\<close> gives out happens to be zero.\<close>

definition clean :: "(nat \<Rightarrow> node) \<Rightarrow> bool" where
  "clean junk \<longleftrightarrow> (\<forall>a. junk a = zero_node)"

text \<open>
  What building one entry does to the state: the nodes from \<open>fresh\<close> on represent it, its parent
  has one more child in front, and the rest of the store and of the state is as it was.
\<close>

definition built ::
  "realfs \<Rightarrow> nat \<Rightarrow> node \<Rightarrow> 'a vfs_scheme \<Rightarrow> entry list \<Rightarrow> 'a vfs_scheme \<Rightarrow> bool" where
  "built fs parent pn s es s' \<longleftrightarrow>
    (\<exists>h f cs. s' = s\<lparr>nodes := h, fresh := f\<rparr> \<and> fresh s \<le> f \<and>
      h parent = Some (pn\<lparr>n_children := cs @ n_children pn\<rparr>) \<and>
      (\<forall>b < fresh s. b \<noteq> parent \<longrightarrow> h b = nodes s b) \<and>
      (\<forall>c \<in> set cs. fresh s \<le> c) \<and>
      (\<forall>h'. (\<forall>b. fresh s \<le> b \<and> b < f \<longrightarrow> h' b = h b) \<longrightarrow>
         list_all2 (\<lambda>e c. represents fs h' parent e c) (rev es) cs))"

lemma built_Nil: "nodes s parent = Some pn \<Longrightarrow> built fs parent pn s [] s"
  unfolding built_def
  by (intro exI [of _ "nodes s"] exI [of _ "fresh s"] exI [of _ "[]"]) simp

lemma built_Cons:
  assumes "built fs parent pn s [e] s1" and "parent < fresh s"
    and "\<And>pn1. nodes s1 parent = Some pn1 \<Longrightarrow> built fs parent pn1 s1 es s'"
  shows "built fs parent pn s (e # es) s'"
proof -
  from assms(1) obtain h f cs where 1: "s1 = s\<lparr>nodes := h, fresh := f\<rparr>" "fresh s \<le> f"
    "h parent = Some (pn\<lparr>n_children := cs @ n_children pn\<rparr>)"
    "\<forall>b < fresh s. b \<noteq> parent \<longrightarrow> h b = nodes s b" "\<forall>c \<in> set cs. fresh s \<le> c"
    "\<And>h'. (\<forall>b. fresh s \<le> b \<and> b < f \<longrightarrow> h' b = h b) \<Longrightarrow>
       list_all2 (\<lambda>e c. represents fs h' parent e c) [e] cs"
    unfolding built_def by auto
  let ?pn1 = "pn\<lparr>n_children := cs @ n_children pn\<rparr>"
  have "built fs parent ?pn1 s1 es s'" by (rule assms(3)) (simp add: 1)
  then obtain h2 f2 cs2 where 2: "s' = s\<lparr>nodes := h2, fresh := f2\<rparr>" "f \<le> f2"
    "h2 parent = Some (pn\<lparr>n_children := cs2 @ cs @ n_children pn\<rparr>)"
    "\<forall>b < f. b \<noteq> parent \<longrightarrow> h2 b = h b" "\<forall>c \<in> set cs2. f \<le> c"
    "\<And>h'. (\<forall>b. f \<le> b \<and> b < f2 \<longrightarrow> h' b = h2 b) \<Longrightarrow>
       list_all2 (\<lambda>e c. represents fs h' parent e c) (rev es) cs2"
    unfolding built_def by (auto simp: 1(1))
  have "list_all2 (\<lambda>e c. represents fs h' parent e c) (rev (e # es)) (cs2 @ cs)"
    if h': "\<forall>b. fresh s \<le> b \<and> b < f2 \<longrightarrow> h' b = h2 b" for h'
  proof -
    have "list_all2 (\<lambda>e c. represents fs h' parent e c) (rev es) cs2"
      using h' 1(2) by (intro 2(6)) auto
    moreover have "list_all2 (\<lambda>e c. represents fs h' parent e c) [e] cs"
      using h' 2(2,4) assms(2) by (intro 1(6)) auto
    ultimately show ?thesis by (simp add: list_all2_appendI)
  qed
  then show ?thesis
    unfolding built_def using 1(2,4,5) 2
    by (intro exI [of _ h2] exI [of _ f2] exI [of _ "cs2 @ cs"]) auto
qed

lemma max_fold_le: "x \<in> set xs \<Longrightarrow> x \<le> fold max xs (y :: nat)"
  by (metis Max_ge Max.set_eq_fold List.finite_set insertI2 list.simps(15))

lemma height_child: "e' \<in> set (e_children e) \<Longrightarrow> height e' < height e"
proof -
  assume "e' \<in> set (e_children e)"
  then have "height e' \<le> fold max (map height (e_children e)) 0"
    by (intro max_fold_le) simp
  then show ?thesis by (cases e) simp
qed

lemma for_each_built:
  assumes "list_all2 (\<lambda>i e. \<forall>s pn. parent < fresh s \<longrightarrow> nodes s parent = Some pn \<longrightarrow>
      (\<exists>s'. f i s = (Ret (), s') \<and> built fs parent pn s [e] s')) is es"
    and "parent < fresh s" and "nodes s parent = Some pn"
  shows "\<exists>s'. for_each is f s = (Ret (), s') \<and> built fs parent pn s es s'"
  using assms
proof (induction "is" es arbitrary: s pn rule: list_all2_induct)
  case Nil
  then show ?case using built_Nil by auto
next
  case (Cons i "is" e es)
  then obtain s1 where 1: "f i s = (Ret (), s1)" "built fs parent pn s [e] s1" by blast
  then obtain pn1 where 2: "nodes s1 parent = Some pn1" "parent < fresh s1"
    using Cons.prems(1) by (auto simp: built_def)
  with Cons.IH obtain s2 where "for_each is f s1 = (Ret (), s2)" "built fs parent pn1 s1 es s2" by blast
  moreover from this 2 have "built fs parent pn s (e # es) s2"
    by (intro built_Cons [OF 1(2) Cons.prems(1)]) simp
  ultimately show ?case using 1(1) by (simp add: bnd_def)
qed

lemma and_if: "(if b then w else 0) AND f = (if b then w AND f else (0 :: 32 word))"
  by simp

lemma has_directory: "has (entry_node fs e parent cs) SBFS_DIRECTORY \<longleftrightarrow> is_dir fs e"
  by (simp add: has_def entry_node_def entry_flags_def bit.conj_disj_distrib2 and_if)

lemma alloc_child_run:
  assumes "clean junk" and "parent < fresh s" and "nodes s parent = Some pn"
  shows "alloc_child junk parent s = (Ret (fresh s), s\<lparr>fresh := fresh s + 1,
    nodes := (nodes s)(fresh s \<mapsto> zero_node\<lparr>n_parent := Some parent\<rparr>,
      parent \<mapsto> pn\<lparr>n_children := fresh s # n_children pn\<rparr>)\<rparr>)"
  using assms by (simp add: alloc_child_def deref_def clean_def bnd_def)

text \<open>The state in which the children of a new node are built.\<close>

definition with_node :: "realfs \<Rightarrow> entry \<Rightarrow> nat \<Rightarrow> node \<Rightarrow> 'a vfs_scheme \<Rightarrow> 'a vfs_scheme" where
  "with_node fs e parent pn s = s\<lparr>fresh := fresh s + 1,
     nodes := (nodes s)(fresh s \<mapsto> entry_node fs e parent [],
       parent \<mapsto> pn\<lparr>n_children := fresh s # n_children pn\<rparr>)\<rparr>"

definition shown :: "realfs \<Rightarrow> entry \<Rightarrow> entry list" where
  "shown fs e = (if is_dir fs e then e_children e else [])"

lemma with_node_sel:
  assumes "parent < fresh s"
  shows "fresh (with_node fs e parent pn s) = fresh s + 1"
    "nodes (with_node fs e parent pn s) (fresh s) = Some (entry_node fs e parent [])"
    "nodes (with_node fs e parent pn s) parent = Some (pn\<lparr>n_children := fresh s # n_children pn\<rparr>)"
    "b \<noteq> parent \<Longrightarrow> b < fresh s \<Longrightarrow> nodes (with_node fs e parent pn s) b = nodes s b"
  using assms by (simp_all add: with_node_def)

lemma build_tree_head:
  assumes "json_c_ok jc" and "clean junk" and "entry_ok fs e" and "parent < fresh s"
    and "nodes s parent = Some pn"
  defines "kids \<equiv> JArray (map entry_json (e_children e))"
  shows "build_tree (Suc fuel) jc fs junk (entry_json e) parent s =
    (if is_dir fs e then for_each [0..<array_length jc kids]
       (\<lambda>i. build_tree fuel jc fs junk (array_get_idx jc kids i) (fresh s)) (with_node fs e parent pn s)
     else (Ret (), with_node fs e parent pn s))"
proof -
  have fill: "fill_node jc fs (entry_json e) (zero_node\<lparr>n_parent := Some parent\<rparr>) = Inr (entry_node fs e parent [])"
    using assms(1,3) by (rule fill_node_entry)
  have g: "get_ex jc (entry_json e) ''children'' = Some kids"
    using assms(1) by (simp add: entry_json_eq [of e] kids_def)
  have upd: "(nodes s)(fresh s \<mapsto> x, parent \<mapsto> y, fresh s \<mapsto> z) = (nodes s)(fresh s \<mapsto> z, parent \<mapsto> y)" for x y z
    using assms(4) by auto
  show ?thesis
    using assms(4)
    by (simp add: bnd_def alloc_child_run [OF assms(2,4,5)] deref_def fill g modify_def upd
        has_directory with_node_def)
qed

lemma built_parent:
  assumes "parent < fresh s"
    and "built fs (fresh s) (entry_node fs e parent []) (with_node fs e parent pn s) (shown fs e) s3"
  shows "built fs parent pn s [e] s3"
proof -
  let ?a = "fresh s"
  from assms(2) obtain h f cs where b: "s3 = s\<lparr>nodes := h, fresh := f\<rparr>" "?a + 1 \<le> f"
    "h ?a = Some (entry_node fs e parent cs)"
    "\<forall>b < ?a + 1. b \<noteq> ?a \<longrightarrow> h b = nodes (with_node fs e parent pn s) b"
    "\<And>h'. (\<forall>b. ?a + 1 \<le> b \<and> b < f \<longrightarrow> h' b = h b) \<Longrightarrow>
       list_all2 (\<lambda>e c. represents fs h' ?a e c) (rev (shown fs e)) cs"
    unfolding built_def by (auto simp: entry_node_def with_node_def)
  have "represents fs h' parent e ?a" if "\<forall>b. ?a \<le> b \<and> b < f \<longrightarrow> h' b = h b" for h'
  proof (rule represents.intros)
    show "h' ?a = Some (entry_node fs e parent cs)" using that b(2,3) by simp
    show "list_all2 (\<lambda>e' c. represents fs h' ?a e' c) (if is_dir fs e then rev (e_children e) else []) cs"
      using b(5) [of h'] that by (auto simp: shown_def split: if_splits)
  qed
  moreover have "h parent = Some (pn\<lparr>n_children := ?a # n_children pn\<rparr>)" "\<forall>b < ?a. b \<noteq> parent \<longrightarrow> h b = nodes s b"
    using b(4) assms(1) by (simp_all add: with_node_sel)
  ultimately show ?thesis
    unfolding built_def using b(1,2)
    by (intro exI [of _ h] exI [of _ f] exI [of _ "[?a]"]) auto
qed

lemma build_tree_built:
  fixes s :: "'a vfs_scheme"
  assumes ok: "json_c_ok jc" and clean: "clean junk"
    and "entry_ok fs e" and "height e \<le> fuel" and "parent < fresh s" and "nodes s parent = Some pn"
  shows "\<exists>s'. build_tree fuel jc fs junk (entry_json e) parent s = (Ret (), s') \<and>
    built fs parent pn s [e] s'"
  using assms(3-)
proof (induction fuel arbitrary: e parent s pn)
  case 0
  then show ?case by (cases e) simp
next
  case (Suc fuel)
  let ?kids = "JArray (map entry_json (e_children e))"
  note head = build_tree_head [OF ok clean Suc.prems(1,3,4), of fuel]
  note sel = with_node_sel [OF Suc.prems(3), where fs = fs and e = e and pn = pn]
  have "\<exists>s3. build_tree (Suc fuel) jc fs junk (entry_json e) parent s = (Ret (), s3) \<and>
      built fs (fresh s) (entry_node fs e parent []) (with_node fs e parent pn s) (shown fs e) s3"
  proof (cases "is_dir fs e")
    case False
    then show ?thesis using head sel by (auto simp: shown_def intro!: built_Nil)
  next
    case True
    have "list_all2 (\<lambda>i e'. \<forall>(st :: 'a vfs_scheme) pn. fresh s < fresh st \<longrightarrow> nodes st (fresh s) = Some pn \<longrightarrow>
        (\<exists>s'. build_tree fuel jc fs junk (array_get_idx jc ?kids i) (fresh s) st = (Ret (), s') \<and>
          built fs (fresh s) pn st [e'] s')) [0..<array_length jc ?kids] (e_children e)"
    proof (rule list_all2_all_nthI)
      show "length [0..<array_length jc ?kids] = length (e_children e)" using ok by simp
    next
      fix k assume k: "k < length [0..<array_length jc ?kids]"
      then have idx: "array_get_idx jc ?kids ([0..<array_length jc ?kids] ! k) =
          entry_json (e_children e ! k)" and m: "e_children e ! k \<in> set (e_children e)"
        using ok by simp_all
      have "entry_ok fs (e_children e ! k)" using Suc.prems(1) m entry_ok_eq [of fs e] by blast
      moreover have "height (e_children e ! k) \<le> fuel" using height_child [OF m] Suc.prems(2) by simp
      ultimately show "\<forall>(st :: 'a vfs_scheme) pn. fresh s < fresh st \<longrightarrow> nodes st (fresh s) = Some pn \<longrightarrow>
        (\<exists>s'. build_tree fuel jc fs junk (array_get_idx jc ?kids ([0..<array_length jc ?kids] ! k)) (fresh s) st =
            (Ret (), s') \<and> built fs (fresh s) pn st [e_children e ! k] s')"
        unfolding idx using Suc.IH by blast
    qed
    from for_each_built [OF this] sel True head show ?thesis by (simp add: shown_def)
  qed
  then show ?case using built_parent [OF Suc.prems(3)] by blast
qed

lemma fold_max_le: "(\<And>x. x \<in> set xs \<Longrightarrow> x \<le> k) \<Longrightarrow> y \<le> k \<Longrightarrow> fold max xs y \<le> (k :: nat)"
  by (induction xs arbitrary: y) auto

lemma size_list_member: "x \<in> set xs \<Longrightarrow> f x \<le> size_list f xs"
  by (induction xs) auto

lemma height_size: "height e \<le> Suc (size (entry_json e))"
proof (induction e)
  case (Entry name rp dir follow recurse black prox writable filt kids)
  have "fold max (map height kids) 0 \<le> Suc (size_list size (map entry_json kids))"
  proof (rule fold_max_le)
    fix x assume "x \<in> set (map height kids)"
    then obtain k where k: "k \<in> set kids" "x = height k" by auto
    have "size (entry_json k) \<le> size_list size (map entry_json kids)"
      using k(1) by (intro size_list_member) simp
    with Entry [OF k(1)] k(2) show "x \<le> Suc (size_list size (map entry_json kids))" by simp
  qed simp
  then show ?case by simp
qed

lemma load_tree_built:
  fixes s :: "'a vfs_scheme"
  assumes ok: "json_c_ok jc" and "clean junk" and "\<forall>e \<in> set es. entry_ok fs e"
    and "nodes s root = Some rn" and "root < fresh s"
  shows "\<exists>s'. load_tree jc fs junk (JArray (map entry_json es)) s = (Ret (), s') \<and>
    built fs root rn s es s'"
proof -
  let ?out = "JArray (map entry_json es)"
  have "list_all2 (\<lambda>i e. \<forall>(st :: 'a vfs_scheme) pn. root < fresh st \<longrightarrow> nodes st root = Some pn \<longrightarrow>
      (\<exists>s'. build_tree (Suc (size (array_get_idx jc ?out i))) jc fs junk (array_get_idx jc ?out i) root st =
        (Ret (), s') \<and> built fs root pn st [e] s')) [0..<array_length jc ?out] es"
  proof (rule list_all2_all_nthI)
    show "length [0..<array_length jc ?out] = length es" using ok by simp
  next
    fix k assume "k < length [0..<array_length jc ?out]"
    then have "array_get_idx jc ?out ([0..<array_length jc ?out] ! k) = entry_json (es ! k)"
      "es ! k \<in> set es" using ok by simp_all
    then show "\<forall>(st :: 'a vfs_scheme) pn. root < fresh st \<longrightarrow> nodes st root = Some pn \<longrightarrow>
      (\<exists>s'. build_tree (Suc (size (array_get_idx jc ?out ([0..<array_length jc ?out] ! k)))) jc fs junk
          (array_get_idx jc ?out ([0..<array_length jc ?out] ! k)) root st = (Ret (), s') \<and>
        built fs root pn st [es ! k] s')"
      using build_tree_built [OF ok assms(2)] assms(3) height_size by metis
  qed
  from for_each_built [OF this assms(5,4)] show ?thesis by (simp add: load_tree_def)
qed

section \<open>Looking up\<close>

text \<open>Of several siblings with one name the last one counts; a path stops at a proxied entry.\<close>

definition named :: "string \<Rightarrow> entry list \<Rightarrow> entry option" where
  "named name es = List.find (\<lambda>e. e_name e = name) (rev es)"

fun locate :: "realfs \<Rightarrow> entry list \<Rightarrow> string list \<Rightarrow> entry option" where
  "locate fs es [] = None"
| "locate fs es (name # names) =
    (case named name es of
       None \<Rightarrow> None
     | Some e \<Rightarrow>
         if names = [] then Some e
         else if e_proxy e then None
         else locate fs (if is_dir fs e then e_children e else []) names)"

lemma find_child_named:
  assumes "list_all2 (\<lambda>e c. represents fs (nodes s) parent e c) es cs"
  shows "(case List.find (\<lambda>e. e_name e = name) es of
      None \<Rightarrow> find_child name cs s = (Ret None, s)
    | Some e \<Rightarrow> \<exists>c. find_child name cs s = (Ret (Some c), s) \<and> represents fs (nodes s) parent e c)"
  using assms
proof (induction es cs rule: list_all2_induct)
  case (Cons e es c cs)
  from Cons.hyps(1) obtain kids where "nodes s c = Some (entry_node fs e parent kids)"
    by (elim representsE) blast
  then have "find_child name (c # cs) s =
      (if name = e_name e then (Ret (Some c), s) else find_child name cs s)"
    by (simp add: bnd_def deref_def entry_node_def)
  with Cons show ?case by (auto split: option.splits)
qed simp

lemma has_proxy: "has (entry_node fs e parent cs) SBFS_PROXY \<longleftrightarrow> e_proxy e"
  by (simp add: has_def entry_node_def entry_flags_def bit.conj_disj_distrib2 and_if)

lemma walk_locates:
  assumes "nodes s a = Some n" and "\<not> has n SBFS_PROXY"
    and "list_all2 (\<lambda>e c. represents fs (nodes s) a e c) (rev es) (n_children n)"
    and "''.'' \<notin> set names" and "''..'' \<notin> set names" and "locate fs es names = Some e"
  shows "\<exists>c parent. walk jc fs junk path names (Some a) s = (Ret (Some c), s) \<and>
    represents fs (nodes s) parent e c"
  using assms
proof (induction names arbitrary: a n es)
  case (Cons name names)
  from Cons.prems(6) obtain e1 where e1: "named name es = Some e1" by (auto split: option.splits)
  with find_child_named [OF Cons.prems(3), of name] obtain c where
    c: "find_child name (n_children n) s = (Ret (Some c), s)" "represents fs (nodes s) a e1 c"
    by (auto simp: named_def)
  have step: "visit_name jc fs junk path name (Some a) s = (Ret (Go (Some c)), s)"
    using Cons.prems(1,2,4,5) c(1) by (auto simp: visit_name_def bnd_def deref_def)
  show ?case
  proof (cases "names = []")
    case True
    with Cons.prems(6) e1 c(2) step show ?thesis by (auto simp: bnd_def)
  next
    case False
    with Cons.prems(6) e1 have l: "\<not> e_proxy e1"
      "locate fs (if is_dir fs e1 then e_children e1 else []) names = Some e"
      by (auto split: if_splits)
    from c(2) obtain kids where kids: "nodes s c = Some (entry_node fs e1 a kids)"
      "list_all2 (\<lambda>e' x. represents fs (nodes s) c e' x)
        (rev (if is_dir fs e1 then e_children e1 else [])) kids"
      by (elim representsE) (auto split: if_splits)
    have "\<exists>d parent. walk jc fs junk path names (Some c) s = (Ret (Some d), s) \<and>
        represents fs (nodes s) parent e d"
    proof (rule Cons.IH [OF kids(1)])
      show "\<not> has (entry_node fs e1 a kids) SBFS_PROXY" using l(1) by (simp add: has_proxy)
      have "n_children (entry_node fs e1 a kids) = kids" by (simp add: entry_node_def)
      then show "list_all2 (\<lambda>e x. represents fs (nodes s) c e x)
          (rev (if is_dir fs e1 then e_children e1 else [])) (n_children (entry_node fs e1 a kids))"
        using kids(2) by simp
    qed (use l(2) Cons.prems(4,5) in auto)
    then show ?thesis using step by (auto simp: bnd_def)
  qed
qed simp

section \<open>Properties\<close>


text \<open>A description, and the state before it is loaded, to run the model with.\<close>

definition demo_entries :: "entry list" where
  "demo_entries =
    [Entry ''tmp'' None True False False False False True []
       [Entry ''main.py'' None False False False False False False [] [],
        Entry ''x'' None False False False False False True [] []],
     Entry ''data'' (Some ''/srv/data'') False False True False False False [''*.txt''] []]"

definition demo_fs :: realfs where
  "demo_fs = \<lparr>fs_entries = (\<lambda>_. Inr [''a.txt'', ''b'']), fs_lstat = (\<lambda>_. Inr Regular),
     fs_stat = (\<lambda>_. Inr Directory), fs_open = (\<lambda>_ _ _. Inr 5), fs_fnmatch = (\<lambda>f n. f = n)\<rparr>"

definition boot :: vfs where
  "boot = \<lparr>pipe_in = [], pipe_out = [], out_error = None, out_eof = False, errno = 0,
     nodes = (\<lambda>a. if a = root then Some (zero_node\<lparr>n_parent := Some root\<rparr>)
       else if a = proxy then Some zero_node else None),
     fresh = 2, opens = [], fd_table = replicate 64 (0, None)\<rparr>"

lemma demo_entries_ok: "\<forall>e \<in> set demo_entries. entry_ok demo_fs e"
  by (simp add: demo_entries_def demo_fs_def plain_def)

lemma boot_facts:
  "nodes boot root = Some (zero_node\<lparr>n_parent := Some root\<rparr>)" "root < fresh boot"
  "n_children (zero_node\<lparr>n_parent := Some root\<rparr>) = []"
  "\<not> has (zero_node\<lparr>n_parent := Some root\<rparr>) SBFS_PROXY"
  by (simp_all add: boot_def root_def zero_node_def has_def)


end
