(* ===== verification/Access.thy ===== *)
theory Access
  imports Tree
begin

text \<open>
  What the lookup and \<open>open_node\<close> let a sandboxed program reach: the filters of real
  directories, the checks before a real \<open>open\<close>, and the table of descriptors.
\<close>

section \<open>What a lookup leaves alone\<close>

text \<open>
  A piece of code that neither opens a real file nor touches the descriptor table, nor any field
  other components add to the state.
\<close>

named_theorems keeps_intros \<open>programs that leave opens and descriptors alone\<close>

definition keeps :: "('a vfs_scheme, 'b) prog \<Rightarrow> bool" where
  "keeps m \<longleftrightarrow> (\<forall>s. fd_table (snd (m s)) = fd_table s \<and> opens (snd (m s)) = opens s \<and>
     vfs.more (snd (m s)) = vfs.more s)"

lemma keepsD:
  fixes s :: "'a vfs_scheme"
  shows "keeps m \<Longrightarrow> m s = (r, s') \<Longrightarrow> fd_table s' = fd_table s \<and> opens s' = opens s \<and>
    vfs.more s' = vfs.more s"
  by (metis keeps_def snd_conv)

lemma keeps_pure [keeps_intros]:
  "keeps (ret a)" "keeps (exit_with n)" "keeps (fault_with e)" "keeps (set_err n)"
  "keeps (modify b f)" "keeps (deref p)" "keeps (alloc_child junk b)"
proof -
  show "keeps (deref p)" "keeps (modify b f)" "keeps (set_err n)" "keeps (ret a)"
    "keeps (exit_with n)" "keeps (fault_with e)"
    by (auto simp: keeps_def set_err_def modify_def deref_def split: option.splits)
  show "keeps (alloc_child junk b)"
    by (auto simp: keeps_def alloc_child_def bnd_def deref_def split: option.splits)
qed

interpretation keeps: frame "\<lambda>s t. fd_table t = fd_table s \<and> opens t = opens s \<and>
    vfs.more t = vfs.more (s :: 'a vfs_scheme)"
  by unfold_locales simp_all

lemma keeps_within: "keeps = within (\<lambda>s t. fd_table t = fd_table s \<and> opens t = opens s \<and>
    vfs.more t = vfs.more s)"
  by (simp add: fun_eq_iff keeps_def within_def)

lemmas keeps_frame [keeps_intros] =
  keeps.bnd [folded keeps_within] keeps.need [folded keeps_within] keeps.basic(4) [folded keeps_within]

lemma keeps_trampoline [keeps_intros]:
  "keeps (trampoline jc want ns fname n vargs :: ('a vfs_scheme, int \<times> json) prog)"
proof -
  have "fd_table t = fd_table s \<and> opens t = opens s \<and> vfs.more t = vfs.more s" if "rpc.more t = rpc.more s" for s t :: "'a vfs_scheme"
    using that by (cases s; cases t) simp
  then show ?thesis unfolding keeps_def using trampoline_more by blast
qed

lemma keeps_for_each [keeps_intros]: "(\<And>x. keeps (f x)) \<Longrightarrow> keeps (for_each xs f)"
  by (induction xs) (auto intro!: keeps_intros)

lemma keeps_build_tree [keeps_intros]:
  "keeps (build_tree fuel jc fs junk json parent :: ('a vfs_scheme, unit) prog)"
  by (induction fuel arbitrary: json parent)
     (auto intro!: keeps_intros split: sum.split option.split prod.split)

lemma keeps_find_child [keeps_intros]: "keeps (find_child name cs :: ('a vfs_scheme, nat option) prog)"
  by (induction cs) (auto intro!: keeps_intros)

lemma keeps_filter_allows [keeps_intros]: "keeps (filter_allows fs black name cells)"
  by (induction fs black name cells rule: filter_allows.induct) (auto intro!: keeps_intros)

lemma keeps_copy_filters [keeps_intros]: "keeps (copy_filters fs name cells)"
  by (auto simp: copy_filters_def Let_def intro!: keeps_intros)

lemma keeps_enter_real [keeps_intros]: "keeps (enter_real fs cur rp name)"
  by (auto simp: enter_real_def Let_def intro!: keeps_intros split: sum.split option.split prod.split)

lemma keeps_visit_real [keeps_intros]: "keeps (visit_real fs cur n rp name)"
  by (auto simp: visit_real_def intro!: keeps_intros split: sum.split option.split)

lemma keeps_free_proxied [keeps_intros]: "keeps free_proxied"
  by (auto simp: keeps_def free_proxied_def bnd_def deref_def split: option.split)

lemma keeps_visit_proxied [keeps_intros]: "keeps (visit_proxied jc fs junk path n name)"
  unfolding visit_proxied_def
  by (auto intro!: keeps_intros split: prod.split simp del: build_tree.simps)

lemma keeps_visit_name [keeps_intros]: "keeps (visit_name jc fs junk path name cur)"
  by (auto simp: visit_name_def intro!: keeps_intros split: option.split prod.split)

lemma keeps_walk [keeps_intros]: "keeps (walk jc fs junk path names cur)"
  by (induction names arbitrary: cur) (auto intro!: keeps_intros split: visit.split)

lemma keeps_get_node [keeps_intros]: "keeps (get_node jc fs junk path)"
proof -
  have "fd_table (snd (get_node jc fs junk path s)) = fd_table s \<and>
      opens (snd (get_node jc fs junk path s)) = opens s \<and>
      vfs.more (snd (get_node jc fs junk path s)) = vfs.more s" for path and s :: "'a vfs_scheme"
  proof (induction jc fs junk path s rule: get_node.induct)
    case (1 jc fs junk path s)
    note w = keeps_walk [unfolded keeps_def, rule_format]
    show ?case
    proof (cases "path \<noteq> [] \<and> hd path = slash")
      case True
      then show ?thesis by (subst (1 2 3) get_node.simps) (simp add: w)
    next
      case False
      obtain r s1 where t: "trampoline jc True NS_SYS ''getcwd'' 0 [] s = (r, s1)"
        by (metis surj_pair)
      have k: "fd_table s1 = fd_table s \<and> opens s1 = opens s \<and> vfs.more s1 = vfs.more s"
        using keepsD [OF keeps_trampoline t] .
      show ?thesis
        using False k t "1" [OF False]
        by (subst (1 2 3) get_node.simps)
           (auto simp: w split: outcome.split option.split prod.split, (metis keepsD keeps_walk snd_conv)+)
    qed
  qed
  then show ?thesis by (simp add: keeps_def)
qed

lemma keeps_load_tree [keeps_intros]:
  "keeps (load_tree jc fs junk out :: ('a vfs_scheme, unit) prog)"
  unfolding load_tree_def by (intro keeps_intros)

section \<open>Filters\<close>

text \<open>An array that ends in a null cell is searched as one would expect.\<close>

lemma filter_allows_terminated:
  "filter_allows fs black name (map Some fl @ [None]) s =
    (Ret (if \<exists>f \<in> set fl. fs_fnmatch fs (filter_top f) name then \<not> black else black), s)"
  by (induction fl) auto

text \<open>One without is left when nothing matches.\<close>

lemma filter_allows_open_ended:
  "filter_allows fs black name (map Some fl) s =
    (if \<exists>f \<in> set fl. fs_fnmatch fs (filter_top f) name then Ret (\<not> black) else Fault Out_Of_Bounds, s)"
  by (induction fl) auto

lemma visit_name_real:
  assumes "nodes s a = Some n" and "\<not> has n SBFS_PROXY" and "has n SBFS_RECURSE"
    and "n_children n = []" and "n_realpath n = Some rp" and "name \<noteq> ''.''" and "name \<noteq> ''..''"
  shows "visit_name jc fs junk path name (Some a) s = visit_real fs a n rp name s"
  using assms by (simp add: visit_name_def bnd_def deref_def)

text \<open>
  Entering an entry of the directory \<open>proxy\<close> itself: its filters are cleared before they could
  be copied.
\<close>

lemma enter_real_proxy:
  assumes "nodes s proxy = Some p" and "fs_lstat fs (rp @ slash # name) = Inr ty" and "ty \<noteq> Symlink"
  shows "enter_real fs proxy rp name s = (Ret (Go (Some proxy)), s\<lparr>nodes := (nodes s)(proxy \<mapsto>
    add_flag (ty = Directory) SBFS_DIRECTORY (p\<lparr>n_name := Some name, n_realpath := Some (rp @ slash # name),
      n_flags := n_flags p AND NOT SBFS_DIRECTORY, n_filter := None\<rparr>))\<rparr>)"
  using assms by (simp add: enter_real_def Let_def bnd_def deref_def modify_def)

lemma keep_other_flags:
  assumes "(d :: 32 word) AND f = 0"
  shows "((w AND NOT d) OR (if b then d else 0)) AND f = w AND f"
  using assms by (auto simp: bit_eq_iff bit_simps)

text \<open>One real directory below the static node, past a filter or without one.\<close>

lemma visit_below_proxy:
  assumes "nodes s proxy = Some p" and "\<not> has p SBFS_PROXY" and "has p SBFS_RECURSE"
    and "n_children p = []" and "n_realpath p = Some rp" and "name \<noteq> ''.''" and "name \<noteq> ''..''"
    and "case n_filter p of None \<Rightarrow> True
      | Some cells \<Rightarrow> filter_allows fs (has p SBFS_BLACKLIST) name cells s = (Ret True, s)"
    and "fs_entries fs rp = Inr names" and "name \<in> set names"
    and "fs_lstat fs (rp @ slash # name) = Inr ty" and "ty \<noteq> Symlink"
  shows "\<exists>q. visit_name jc fs junk path name (Some proxy) s =
      (Ret (Go (Some proxy)), s\<lparr>nodes := (nodes s)(proxy \<mapsto> q)\<rparr>) \<and>
    n_realpath q = Some (rp @ slash # name) \<and> n_filter q = None \<and> n_children q = [] \<and>
    has q SBFS_RECURSE \<and> \<not> has q SBFS_PROXY"
proof -
  have "visit_name jc fs junk path name (Some proxy) s = visit_real fs proxy p rp name s"
    using assms(1-7) by (intro visit_name_real)
  also have "\<dots> = enter_real fs proxy rp name s"
    using assms(8-10) by (cases "n_filter p") (simp_all add: visit_real_def bnd_def)
  finally have run: "visit_name jc fs junk path name (Some proxy) s = enter_real fs proxy rp name s" .
  let ?q = "add_flag (ty = Directory) SBFS_DIRECTORY (p\<lparr>n_name := Some name,
    n_realpath := Some (rp @ slash # name), n_flags := n_flags p AND NOT SBFS_DIRECTORY, n_filter := None\<rparr>)"
  show ?thesis
    unfolding run enter_real_proxy [OF assms(1,11,12)]
    using assms(2-4) keep_other_flags [of SBFS_DIRECTORY SBFS_RECURSE "n_flags p" "ty = Directory"]
      keep_other_flags [of SBFS_DIRECTORY SBFS_PROXY "n_flags p" "ty = Directory"]
    by (intro exI [of _ ?q]) (simp add: has_def)
qed

section \<open>Opening\<close>

lemma new_fd_run:
  "new_fd n realfd flags s =
    (case free_slot (fd_table s) of
       None \<Rightarrow> (Ret (-1), s\<lparr>errno := EMFILE\<rparr>)
     | Some i \<Rightarrow>
         (case n_name n of
            None \<Rightarrow> (Fault Null_Deref, s)
          | Some name \<Rightarrow> (Ret (int i), s\<lparr>fd_table := (fd_table s)[i := (realfd, Some
              (add_flag (realfd < 0 \<and> flags AND O_CLOEXEC \<noteq> 0) SBFS_CLOEXEC
                (zero_node\<lparr>n_name := Some name, n_flags := n_flags n, n_realpath := n_realpath n\<rparr>)))]\<rparr>)))"
  by (simp add: new_fd_def Let_def split: option.split)

text \<open>A slot that is given out: from 4 on, below the size of the table, and free.\<close>

lemma find_upt:
  assumes "List.find P [m..<n] = Some i"
  shows "m \<le> i \<and> i < n \<and> P i \<and> (\<forall>j. m \<le> j \<and> j < i \<longrightarrow> \<not> P j)"
proof -
  from assms obtain k where k: "k < n - m" "i = m + k" "P i" "\<forall>j<k. \<not> P (m + j)"
    by (auto simp: find_Some_iff)
  have "\<not> P j" if "m \<le> j" "j < i" for j
    using k(4) [rule_format, of "j - m"] that k(2) by simp
  with k show ?thesis by simp
qed

lemma find_upt_None: "List.find P [m..<n] = None \<longleftrightarrow> (\<forall>j. m \<le> j \<and> j < n \<longrightarrow> \<not> P j)"
  by (auto simp: find_None_iff)

lemma free_slotD:
  "free_slot tab = Some i \<Longrightarrow>
   4 \<le> i \<and> i < 64 \<and> fst (tab ! i) = 0 \<and> (\<forall>j. 4 \<le> j \<and> j < i \<longrightarrow> fst (tab ! j) \<noteq> 0)"
  unfolding free_slot_def by (rule find_upt)

lemma free_slot_None: "free_slot tab = None \<longleftrightarrow> (\<forall>i. 4 \<le> i \<and> i < 64 \<longrightarrow> fst (tab ! i) \<noteq> 0)"
  unfolding free_slot_def by (rule find_upt_None)

lemma new_fd_Ret:
  fixes t t' :: "'a vfs_scheme"
  assumes "new_fd n realfd flags t = (Ret r, t')"
  shows "r = -1 \<and> fd_table t' = fd_table t \<and> opens t' = opens t \<or>
    (\<exists>i n'. r = int i \<and> free_slot (fd_table t) = Some i \<and> opens t' = opens t \<and>
      fd_table t' = (fd_table t)[i := (realfd, Some n')])"
  using assms by (auto simp: new_fd_run split: option.splits)

lemma real_open_Ret:
  fixes t t' :: "'a vfs_scheme"
  assumes "real_open fs rp flags mode t = (Ret realfd, t')"
  shows "fd_table t' = fd_table t \<and> opens t' = opens t @ [(rp, flags, mode)] \<and>
    (realfd = -1 \<or> fs_open fs rp flags mode = Inr realfd)"
  using assms by (auto simp: real_open_def Let_def split: sum.splits)

text \<open>The four ways \<open>open_node\<close> returns; finding the node has changed no descriptor before.\<close>

lemma open_node_cases:
  fixes s s' :: "'a vfs_scheme"
  assumes "open_node jc fs junk path flags mode s = (Ret r, s')"
  obtains (failed) "r = -1" "fd_table s' = fd_table s" "opens s' = opens s"
    | (refused) rp t where "fd_table t = fd_table s \<and> opens t = opens s"
        "real_open fs rp flags mode t = (Ret (-1), s')" "r = -1"
    | (opened) n rp realfd t0 t where "fd_table t0 = fd_table s \<and> opens t0 = opens s"
        "real_open fs rp flags mode t0 = (Ret realfd, t)" "realfd \<noteq> -1"
        "new_fd n realfd flags t = (Ret r, s')"
    | (virtual) n t where "fd_table t = fd_table s \<and> opens t = opens s" "new_fd n (-1) flags t = (Ret r, s')"
proof -
  obtain p s1 where g: "get_node jc fs junk path s = (Ret p, s1)"
    using assms by (auto simp: open_node_def bnd_Ret_iff)
  have k: "fd_table s1 = fd_table s \<and> opens s1 = opens s"
    using keepsD [OF keeps_get_node g] by simp
  show thesis
  proof (cases "r = -1 \<and> (\<exists>e. s' = s1\<lparr>errno := e\<rparr>)")
    case True
    with k that(1) show ?thesis by auto
  next
    case False
    with assms obtain a n where p: "p = Some a" "nodes s1 a = Some n"
      by (cases p) (auto simp: open_node_def bnd_def g set_err_def deref_def split: option.splits)
    have run: "(case n_realpath n of
           Some rp \<Rightarrow> bnd (real_open fs rp flags mode)
             (\<lambda>realfd. if realfd = -1 then ret (-1) else new_fd n realfd flags) s1
         | None \<Rightarrow> new_fd n (-1) flags s1) = (Ret r, s')"
      using assms False
      by (auto simp: open_node_def bnd_def [of "get_node _ _ _ _"] bnd_def [of "deref _"]
          bnd_def [of "set_err _"] g p deref_def set_err_def split: if_splits option.splits)
    show ?thesis
    proof (cases "n_realpath n")
      case None
      with run k that(4) show ?thesis by simp
    next
      case (Some rp)
      with run obtain realfd t where o: "real_open fs rp flags mode s1 = (Ret realfd, t)"
        "(if realfd = -1 then ret (-1) else new_fd n realfd flags) t = (Ret r, s')"
        by (auto simp: bnd_Ret_iff)
      with k that(2) [of s1 rp] that(3) [of s1 rp realfd t n] show ?thesis
        by (cases "realfd = -1") auto
    qed
  qed
qed

section \<open>Properties\<close>

text \<open>
  C35. A filter that comes with the description has no null cell at its end. Looking for a name
  that none of its patterns matches, in any real directory of the tree that has a filter, reads on
  behind the array: neither a whitelist nor a blacklist ever gets to refuse or to admit it.
\<close>

theorem filter_array_overrun:
  assumes "nodes s a = Some (entry_node fs e parent [])"
    and "e_realpath e = Some rp" and "e_recurse e" and "\<not> e_proxy e" and "e_filter e \<noteq> []"
    and "\<forall>f \<in> set (e_filter e). \<not> fs_fnmatch fs (filter_top f) name"
    and "name \<noteq> ''.''" and "name \<noteq> ''..''"
  shows "walk jc fs junk path (name # names) (Some a) s = (Fault Out_Of_Bounds, s)"
proof -
  let ?n = "entry_node fs e parent []"
  have r: "has ?n SBFS_RECURSE"
    using assms(3) by (simp add: has_def entry_node_def entry_flags_def bit.conj_disj_distrib2 and_if)
  have "visit_name jc fs junk path name (Some a) s = visit_real fs a ?n rp name s"
    using assms by (intro visit_name_real r) (simp_all add: has_proxy, simp_all add: entry_node_def)
  also have "\<dots> = (Fault Out_Of_Bounds, s)"
    using assms(5,6)
    by (simp add: visit_real_def bnd_def entry_node_def filter_allows_open_ended)
  finally show ?thesis by (simp add: bnd_def)
qed

theorem filter_array_overrun_witness:
  "walk (json_c_with (\<lambda>_. JNull)) demo_fs (\<lambda>_. zero_node) ''/data/b'' [''b''] (Some 2)
    (boot\<lparr>nodes := (nodes boot)(2 \<mapsto> entry_node demo_fs (demo_entries ! 1) root [])\<rparr>) =
   (Fault Out_Of_Bounds,
    boot\<lparr>nodes := (nodes boot)(2 \<mapsto> entry_node demo_fs (demo_entries ! 1) root [])\<rparr>)"
  by (rule filter_array_overrun [where e = "demo_entries ! 1" and rp = "''/srv/data''" and parent = root])
     (simp_all add: demo_entries_def demo_fs_def filter_top_def)

text \<open>
  C34. A whitelist ends two directories below the one it was given for. Once the lookup has entered
  a real directory through the static node, entering an entry of it clears the filters before they
  are copied, so that whatever name comes next is only looked for in the real file system, however
  narrow the patterns were.
\<close>

theorem filters_lost:
  assumes "nodes s proxy = Some p" and "\<not> has p SBFS_PROXY" and "has p SBFS_RECURSE"
    and "n_children p = []" and "n_realpath p = Some rp" and "n_filter p = Some (map Some fl @ [None])"
    and "f \<in> set fl" and "fs_fnmatch fs (filter_top f) nameA" and "\<not> has p SBFS_BLACKLIST"
    and "fs_entries fs rp = Inr entriesA" and "nameA \<in> set entriesA"
    and "fs_entries fs (rp @ slash # nameA) = Inr entriesB" and "nameB \<in> set entriesB"
    and "fs_lstat fs (rp @ slash # nameA) = Inr Directory"
    and "fs_lstat fs (rp @ slash # nameA @ slash # nameB) = Inr Regular"
    and "\<forall>n \<in> {nameA, nameB}. n \<noteq> ''.'' \<and> n \<noteq> ''..''"
  shows "\<exists>s'. walk jc fs junk path [nameA, nameB] (Some proxy) s = (Ret (Some proxy), s') \<and>
    map_option n_realpath (nodes s' proxy) = Some (Some (rp @ slash # nameA @ slash # nameB))"
proof -
  have "\<exists>f \<in> set fl. fs_fnmatch fs (filter_top f) nameA" using assms(7,8) by blast
  then have allowed: "filter_allows fs (has p SBFS_BLACKLIST) nameA (map Some fl @ [None]) s = (Ret True, s)"
    using assms(9) by (simp add: filter_allows_terminated)
  obtain q where q: "visit_name jc fs junk path nameA (Some proxy) s =
      (Ret (Go (Some proxy)), s\<lparr>nodes := (nodes s)(proxy \<mapsto> q)\<rparr>)"
    "n_realpath q = Some (rp @ slash # nameA)" "n_filter q = None" "n_children q = []"
    "has q SBFS_RECURSE" "\<not> has q SBFS_PROXY"
    using visit_below_proxy [OF assms(1-5) _ _ _ assms(10,11,14), of jc junk path] assms(6,16) allowed
    by auto
  have "\<exists>q'. visit_name jc fs junk path nameB (Some proxy) (s\<lparr>nodes := (nodes s)(proxy \<mapsto> q)\<rparr>) =
      (Ret (Go (Some proxy)), s\<lparr>nodes := (nodes s)(proxy \<mapsto> q')\<rparr>) \<and>
      n_realpath q' = Some (rp @ slash # nameA @ slash # nameB)"
    using visit_below_proxy [where s = "s\<lparr>nodes := (nodes s)(proxy \<mapsto> q)\<rparr>" and p = q and fs = fs
        and jc = jc and junk = junk and path = path, OF _ q(6,5,4,2) _ _ _ assms(12,13), of Regular]
      q(3) assms(15,16)
    by auto
  with q(1) show ?thesis by (auto simp: bnd_def)
qed

theorem filters_lost_witness:
  "\<exists>s'. walk (json_c_with (\<lambda>_. JNull)) (demo_fs\<lparr>fs_lstat := \<lambda>p. Inr (if p = ''/d/b'' then Directory else Regular)\<rparr>)
      (\<lambda>_. zero_node) ''/d/b/a.txt'' [''b'', ''a.txt''] (Some proxy)
      (boot\<lparr>nodes := (nodes boot)(proxy \<mapsto> zero_node\<lparr>n_realpath := Some ''/d'', n_flags := SBFS_RECURSE,
         n_filter := Some (map Some [''b/*.pdf''] @ [None])\<rparr>)\<rparr>) = (Ret (Some proxy), s') \<and>
    map_option n_realpath (nodes s' proxy) = Some (Some ''/d/b/a.txt'')"
  using filters_lost [where rp = "''/d''" and nameA = "''b''" and nameB = "''a.txt''"
      and entriesA = "[''a.txt'', ''b'']" and entriesB = "[''a.txt'', ''b'']" and fl = "[''b/*.pdf'']"
      and f = "''b/*.pdf''" and p = "zero_node\<lparr>n_realpath := Some ''/d'', n_flags := SBFS_RECURSE,
         n_filter := Some (map Some [''b/*.pdf''] @ [None])\<rparr>"
      and fs = "demo_fs\<lparr>fs_lstat := \<lambda>p. Inr (if p = ''/d/b'' then Directory else Regular)\<rparr>"
      and jc = "json_c_with (\<lambda>_. JNull)" and junk = "\<lambda>_. zero_node" and path = "''/d/b/a.txt''"
      and s = "boot\<lparr>nodes := (nodes boot)(proxy \<mapsto> zero_node\<lparr>n_realpath := Some ''/d'', n_flags := SBFS_RECURSE,
         n_filter := Some (map Some [''b/*.pdf''] @ [None])\<rparr>)\<rparr>"]
  by (simp add: has_def zero_node_def demo_fs_def filter_top_def)

text \<open>
  C33. Which real files are opened is decided by \<open>mode\<close> alone. For a real file that the lookup
  finds, the real \<open>open\<close> is called exactly if \<open>mode\<close> has neither of the bits of \<open>O_CREAT\<close> and
  \<open>O_EXCL\<close> and, for a file that is not writable, neither access bit; the flags are passed on
  whatever they are, so that a file that is not writable is opened for writing when \<open>mode\<close> is 0,
  and an existing file is not opened with the usual mode 0644.
\<close>

theorem open_decides_by_mode:
  fixes s :: "'a vfs_scheme"
  assumes "get_node jc fs junk path s = (Ret (Some a), s1)" and "nodes s1 a = Some n"
    and "n_realpath n = Some rp" and "\<not> has n SBFS_DIRECTORY"
  shows "opens (snd (open_node jc fs junk path flags mode s)) =
    (if mode AND (O_CREAT OR O_EXCL) \<noteq> 0 \<or> \<not> has n SBFS_WRITABLE \<and> mode AND (O_WRONLY OR O_RDWR) \<noteq> 0
     then opens s else opens s @ [(rp, flags, mode)])"
proof -
  have k: "opens s1 = opens s" using keepsD [OF keeps_get_node assms(1)] by simp
  have "opens (snd (new_fd n realfd flags t)) = opens t" for realfd and t :: "'a vfs_scheme"
    by (simp add: new_fd_run split: option.split)
  then show ?thesis
    using assms(2-4) k
    by (simp add: open_node_def bnd_def assms(1) deref_def set_err_def real_open_def Let_def
        split: sum.split)
qed

text \<open>A state whose root is a real file, which the path \<open>/\<close> finds.\<close>

definition real_root :: vfs where
  "real_root = boot\<lparr>nodes := (nodes boot)(root \<mapsto>
     zero_node\<lparr>n_name := Some ''f'', n_realpath := Some ''/srv/f''\<rparr>)\<rparr>"

lemma real_root_found:
  "get_node jc fs junk ''/'' real_root = (Ret (Some root), real_root)"
  "nodes real_root root = Some (zero_node\<lparr>n_name := Some ''f'', n_realpath := Some ''/srv/f''\<rparr>)"
  by (subst get_node.simps) (simp_all add: tokens_def real_root_def)

theorem open_decides_by_mode_witness:
  "opens (snd (open_node (json_c_with (\<lambda>_. JNull)) demo_fs (\<lambda>_. zero_node) ''/'' O_WRONLY 0 real_root)) =
    [(''/srv/f'', O_WRONLY, 0)] \<and>
   \<not> has (zero_node\<lparr>n_name := Some ''f'', n_realpath := Some ''/srv/f''\<rparr>) SBFS_WRITABLE"
  using open_decides_by_mode [OF real_root_found, of "''/srv/f''" "json_c_with (\<lambda>_. JNull)" demo_fs
      "\<lambda>_. zero_node" O_WRONLY 0]
  by (simp add: has_def zero_node_def) (simp add: real_root_def boot_def)

text \<open>
  C10. Descriptors are given out properly: a call that returns a descriptor has taken an entry of the
  table that was free, from 4 on and the first such, and changed no other; a call that fails has
  changed none. No call makes more than one real \<open>open\<close>.
\<close>

theorem open_slots:
  fixes s :: "'a vfs_scheme"
  assumes "open_node jc fs junk path flags mode s = (Ret r, s')"
  shows "r = -1 \<and> fd_table s' = fd_table s \<and> (opens s' = opens s \<or> (\<exists>x. opens s' = opens s @ [x])) \<or>
    (\<exists>i realfd n. r = int i \<and> 4 \<le> i \<and> i < 64 \<and> fst (fd_table s ! i) = 0 \<and>
       (\<forall>j. 4 \<le> j \<and> j < i \<longrightarrow> fst (fd_table s ! j) \<noteq> 0) \<and>
       fd_table s' = (fd_table s)[i := (realfd, Some n)] \<and>
       (realfd = -1 \<and> opens s' = opens s \<or>
        (\<exists>rp. fs_open fs rp flags mode = Inr realfd \<and> opens s' = opens s @ [(rp, flags, mode)])))"
  using assms
proof (cases rule: open_node_cases)
  case failed
  then show ?thesis by simp
next
  case (refused rp t)
  with real_open_Ret [OF refused(2)] show ?thesis by auto
next
  case (opened n rp realfd t0 t)
  from real_open_Ret [OF opened(2)] opened(1,3) have t: "fd_table t = fd_table s"
    "opens t = opens s @ [(rp, flags, mode)]" "fs_open fs rp flags mode = Inr realfd"
    by simp_all
  from new_fd_Ret [OF opened(4)] t show ?thesis by (auto dest!: free_slotD)
next
  case (virtual n t)
  from new_fd_Ret [OF virtual(2)] virtual(1) show ?thesis by (auto dest!: free_slotD)
qed

lemma real_root_opens:
  "open_node (json_c_with (\<lambda>_. JNull)) demo_fs (\<lambda>_. zero_node) ''/'' 0 0 real_root =
    (Ret 4, real_root\<lparr>opens := [(''/srv/f'', 0, 0)], fd_table := (fd_table real_root)[4 := (5, Some
      (zero_node\<lparr>n_name := Some ''f'', n_realpath := Some ''/srv/f''\<rparr>))]\<rparr>)"
proof -
  have "free_slot (replicate 64 (0, None)) = Some 4" by (simp add: free_slot_def)
  then have "free_slot (fd_table real_root) = Some 4" by (simp add: real_root_def boot_def)
  then show ?thesis
    by (simp add: open_node_def bnd_def real_root_found deref_def has_def zero_node_def real_open_def
        Let_def demo_fs_def new_fd_def add_flag_def)
       (simp add: real_root_def boot_def)
qed

theorem open_slots_witness:
  "\<exists>i realfd n s'. open_node (json_c_with (\<lambda>_. JNull)) demo_fs (\<lambda>_. zero_node) ''/'' 0 0 real_root =
      (Ret (int i), s') \<and> fst (fd_table real_root ! i) = 0 \<and>
    fd_table s' = (fd_table real_root)[i := (realfd, Some n)]"
  using open_slots [OF real_root_opens] real_root_opens by fastforce

text \<open>
  C36. Opening a name at the top level that the description does not have ends the parent process.
  A lookup that finds no child in a virtual directory stays at the directory, which here is the
  root; the root has no name, and its name is copied into the new descriptor. Nothing but a free
  slot and a \<open>mode\<close> without the checked bits is needed.
\<close>

theorem missing_top_level_crashes:
  fixes s :: "'a vfs_scheme"
  assumes "nodes s root = Some rn" and "n_name rn = None" and "n_realpath rn = None"
    and "n_flags rn = 0"
    and "list_all2 (\<lambda>e c. represents fs (nodes s) root e c) (rev es) (n_children rn)"
    and "named name es = None" and "path = slash # name" and "tokens path = [name]"
    and "name \<noteq> ''.''" and "name \<noteq> ''..''"
    and "mode AND (O_WRONLY OR O_RDWR) = 0" and "mode AND (O_CREAT OR O_EXCL) = 0"
    and "free_slot (fd_table s) = Some i"
  shows "open_node jc fs junk path flags mode s = (Fault Null_Deref, s)"
proof -
  have fc: "find_child name (n_children rn) s = (Ret None, s)"
    using find_child_named [OF assms(5), of name] assms(6) by (simp add: named_def)
  have g: "get_node jc fs junk path s = (Ret (Some root), s)"
    using assms(1,3,4,7-10) fc
    by (subst get_node.simps) (simp add: visit_name_def bnd_def deref_def has_def)
  show ?thesis
    using assms(1-4,11-13) by (simp add: open_node_def bnd_def g deref_def has_def new_fd_def)
qed

theorem missing_top_level_crashes_witness:
  "\<exists>s. load_tree (json_c_with (\<lambda>_. JNull)) demo_fs (\<lambda>_. zero_node) (JArray (map entry_json demo_entries)) boot
      = (Ret (), s) \<and>
    open_node (json_c_with (\<lambda>_. JNull)) demo_fs (\<lambda>_. zero_node) ''/nope'' 0 0 s = (Fault Null_Deref, s)"
proof -
  have clean: "clean (\<lambda>_. zero_node)" by (simp add: clean_def)
  obtain s where s: "load_tree (json_c_with (\<lambda>_. JNull)) demo_fs (\<lambda>_. zero_node)
      (JArray (map entry_json demo_entries)) boot = (Ret (), s)"
    "built demo_fs root (zero_node\<lparr>n_parent := Some root\<rparr>) boot demo_entries s"
    using load_tree_built [OF json_c_with_ok clean demo_entries_ok boot_facts(1,2)] by blast
  then obtain h f cs where b: "s = boot\<lparr>nodes := h, fresh := f\<rparr>"
    "h root = Some (zero_node\<lparr>n_parent := Some root, n_children := cs\<rparr>)"
    "list_all2 (\<lambda>e c. represents demo_fs h root e c) (rev demo_entries) cs"
    by (auto simp: built_def zero_node_def)
  have "free_slot (replicate 64 (0, None)) = Some 4" by (simp add: free_slot_def)
  then have "free_slot (fd_table s) = Some 4" by (simp add: b(1) boot_def)
  then have "open_node (json_c_with (\<lambda>_. JNull)) demo_fs (\<lambda>_. zero_node) ''/nope'' 0 0 s =
      (Fault Null_Deref, s)"
    using b
    by (intro missing_top_level_crashes [where es = demo_entries and name = "''nope''" and i = 4
          and rn = "zero_node\<lparr>n_parent := Some root, n_children := cs\<rparr>"])
       (simp_all add: zero_node_def tokens_def named_def demo_entries_def)
  with s(1) show ?thesis by blast
qed

end
