(* ===== verification/Protocol.thy ===== *)
theory Protocol
  imports Syscalls Prelude
begin

text \<open>
  The messages between the sandboxed child and its parent: how \<open>open\<close>, the only call that
  speaks this protocol so far, packs its arguments (\<open>sbio.c\<close>), and how the request loop takes
  the argument area apart (\<open>sandbox-parent.c\<close>). The socket carries datagrams.
\<close>

section \<open>The child's side of open\<close>

text \<open>
  The static variables the child receives into, what it has sent, and its errno. A request is one
  \<open>writev\<close>; \<open>NR_open\<close> is \<open>__NR_open\<close>.
\<close>

record child_io =
  syscode :: "32 word"
  syserrno :: "32 word"
  c_errno :: int
  dgrams :: "byte list list"

abbreviation (input) "NR_open \<equiv> (2::int)"

definition word_bytes :: "32 word \<Rightarrow> byte list" where
  "word_bytes w = le_bytes 4 (uint w)"

definition bytes_word :: "byte list \<Rightarrow> 32 word" where
  "bytes_word bs = word_of_nat (le_nat bs)"

definition open_args :: "string \<Rightarrow> 32 word \<Rightarrow> 32 word \<Rightarrow> byte list" where
  "open_args pathname flags mode =
     map byte_of_char (cstr pathname) @ word_bytes flags @ word_bytes mode"

definition open_request :: "string \<Rightarrow> 32 word \<Rightarrow> 32 word \<Rightarrow> byte list" where
  "open_request pathname flags mode =
     le_bytes 2 0 @ le_bytes 2 NR_open @ le_bytes 2 (int (strlen pathname) + 4 + 4) @
     open_args pathname flags mode"

text \<open>
  \<open>readv\<close> into \<open>syscode\<close> and \<open>syserrno\<close>: a datagram of fewer than 8 bytes fills only the first
  of their bytes.
\<close>

definition receive :: "byte list \<Rightarrow> child_io \<Rightarrow> child_io" where
  "receive d s =
    (let old = word_bytes (syscode s) @ word_bytes (syserrno s); new = take 8 d @ drop (length (take 8 d)) old
     in s\<lparr>syscode := bytes_word (take 4 new), syserrno := bytes_word (drop 4 new)\<rparr>)"

text \<open>
  \<open>send\<close> is what \<open>writev\<close> reports, \<open>None\<close> for success, and \<open>reply\<close> what \<open>readv\<close> then gives.
\<close>

definition sb_open_child ::
  "int option \<Rightarrow> int + byte list \<Rightarrow> string \<Rightarrow> 32 word \<Rightarrow> 32 word \<Rightarrow> (child_io, int) prog" where
  "sb_open_child send reply pathname flags mode s =
    (case send of
       Some e \<Rightarrow> (Exit EIO, s\<lparr>c_errno := e\<rparr>)
     | None \<Rightarrow>
        (let s1 = s\<lparr>dgrams := dgrams s @ [open_request pathname flags mode]\<rparr> in
         case reply of
           Inl e \<Rightarrow> (Exit EIO, s1\<lparr>c_errno := e\<rparr>)
         | Inr d \<Rightarrow> (let s2 = receive d s1 in
             (Ret (sint (syscode s2)), s2\<lparr>c_errno := sint (syserrno s2)\<rparr>))))"

section \<open>The parent's argument area\<close>

text \<open>
  The buffer of 65537 bytes, cleared and then filled with the arguments. Argument \<open>i\<close> starts
  where the one before ends: behind the NUL of a string for the length 0, after a fixed number of
  bytes for a positive length, at the same place for a negative one.
\<close>

definition arg_buffer :: "byte list \<Rightarrow> byte list" where
  "arg_buffer args = take 65537 (args @ replicate 65537 0)"

definition strlen_at :: "byte list \<Rightarrow> nat \<Rightarrow> nat" where
  "strlen_at buf off = length (takeWhile (\<lambda>b. b \<noteq> 0) (drop off buf))"

fun arg_offsets :: "int list \<Rightarrow> byte list \<Rightarrow> nat \<Rightarrow> nat list option" where
  "arg_offsets [] buf arg_off = Some []"
| "arg_offsets (len # lens) buf arg_off =
    (if arg_off \<ge> 65536 then None
     else map_option (Cons arg_off) (arg_offsets lens buf
       (if len = 0 then arg_off + strlen_at buf arg_off + 1
        else if len > 0 then arg_off + nat len else arg_off)))"

text \<open>An \<open>int\<close> and a string at an offset; \<open>None\<close> behind the end of the buffer.\<close>

definition int_at :: "byte list \<Rightarrow> nat \<Rightarrow> 32 word option" where
  "int_at buf off = (if off + 4 \<le> length buf then Some (bytes_word (take 4 (drop off buf))) else None)"

definition string_at :: "byte list \<Rightarrow> nat \<Rightarrow> string" where
  "string_at buf off = map char_of_byte (takeWhile (\<lambda>b. b \<noteq> 0) (drop off buf))"

text \<open>
  What the parent's half of \<open>open\<close> reads: the path at the first argument and the values the second
  and the third point to.
\<close>

definition decode_open :: "byte list \<Rightarrow> (string \<times> 32 word \<times> 32 word) option" where
  "decode_open buf =
    (case arg_offsets (take 3 (arglen (arg_map ! 0))) buf 0 of
       Some [p0, p1, p2] \<Rightarrow>
         (case (int_at buf p1, int_at buf p2) of
            (Some flags, Some mode) \<Rightarrow> Some (string_at buf p0, flags, mode)
          | _ \<Rightarrow> None)
     | _ \<Rightarrow> None)"

section \<open>Packing and unpacking\<close>

lemma bytes_word_bytes [simp]: "bytes_word (word_bytes w) = w"
proof -
  have "uint w < 2 ^ 32" "0 \<le> uint w" using unsigned_less [of w] by simp_all
  then have "int (le_nat (le_bytes 4 (uint w))) = uint w"
    by (simp add: le_nat_le_bytes)
  then have "word_of_nat (le_nat (le_bytes 4 (uint w))) = (word_of_int (uint w) :: 32 word)"
    by (metis of_int_of_nat_eq)
  then show ?thesis by (simp add: bytes_word_def word_bytes_def)
qed

lemma length_word_bytes [simp]: "length (word_bytes w) = 4"
  by (simp add: word_bytes_def)

lemma receive_full: "length d = 8 \<Longrightarrow>
  receive d s = s\<lparr>syscode := bytes_word (take 4 d), syserrno := bytes_word (drop 4 d)\<rparr>"
  by (simp add: receive_def Let_def)

lemma takeWhile_bytes:
  "CHR 0x00 \<notin> set p \<Longrightarrow>
   takeWhile (\<lambda>b. b \<noteq> 0) (map byte_of_char p @ (0 :: byte) # rest) = map byte_of_char p"
  by (induction p) auto

lemma arg_buffer_split:
  "length args \<le> 65537 \<Longrightarrow> arg_buffer args = args @ replicate (65537 - length args) 0"
  by (simp add: arg_buffer_def)

lemma decode_open_at:
  assumes "buf = map byte_of_char p @ (0 :: byte) # x1 @ x2 @ rest" and "CHR 0x00 \<notin> set p"
    and "length x1 = 4" and "length x2 = 4" and "length p + 5 < 65536"
  shows "decode_open buf = Some (p, bytes_word x1, bytes_word x2)"
proof -
  have sl: "strlen_at buf 0 = length p"
    using assms(1,2) by (simp add: strlen_at_def takeWhile_bytes)
  have st: "string_at buf 0 = p"
    using assms(1,2) by (simp add: string_at_def takeWhile_bytes comp_def)
  have "take 3 (arglen (arg_map ! 0)) = [0, 4, 4]" by (simp add: arg_map_def asys_def)
  then have "arg_offsets (take 3 (arglen (arg_map ! 0))) buf 0 =
      Some [0, length p + 1, length p + 5]"
    using assms(5) by (simp add: sl)
  moreover have "int_at buf (length p + 1) = Some (bytes_word x1)"
    "int_at buf (length p + 5) = Some (bytes_word x2)"
    using assms(1,3,4) by (simp_all add: int_at_def)
  ultimately show ?thesis by (simp add: decode_open_def st)
qed

lemma word_bytes_inject: "word_bytes v = word_bytes w \<longleftrightarrow> v = w"
  by (metis bytes_word_bytes)

lemma word_bytes_word:
  assumes "length bs = 4"
  shows "word_bytes (bytes_word bs) = bs"
proof -
  have "le_nat bs < 256 ^ 4" using le_nat_bound [of bs] assms by simp
  then have "uint (word_of_nat (le_nat bs) :: 32 word) = int (le_nat bs)"
    by (simp add: unsigned_of_nat take_bit_eq_mod)
  then show ?thesis
    using le_bytes_le_nat [of bs] assms by (simp add: word_bytes_def bytes_word_def)
qed

lemma decode_open_path: "decode_open buf = Some (q, flags, mode) \<Longrightarrow> q = string_at buf 0"
  by (auto simp: decode_open_def arg_map_def asys_def split: option.splits list.splits if_splits)

text \<open>With a NUL behind the path, every path, flags and mode would come out as they went in.\<close>

lemma open_args_with_nul:
  assumes "CHR 0x00 \<notin> set p" and "length p < 65500"
  shows "decode_open (arg_buffer (map byte_of_char p @ [0] @ word_bytes flags @ word_bytes mode)) =
    Some (p, flags, mode)"
proof -
  let ?args = "map byte_of_char p @ [0] @ word_bytes flags @ word_bytes mode"
  have "arg_buffer ?args = map byte_of_char p @ 0 # word_bytes flags @ word_bytes mode @
      replicate (65537 - length ?args) 0"
    using assms(2) by (subst arg_buffer_split) simp_all
  from decode_open_at [OF this assms(1)] assms(2) show ?thesis by simp
qed

section \<open>Properties\<close>

text \<open>
  C31. The child sends the path without its NUL. Then the parent takes the bytes of the flags for
  part of the path, or is one byte off: for no path do the arguments arrive as they were sent,
  unless the flags and the mode are both 0.
\<close>

theorem open_args_misread:
  assumes "CHR 0x00 \<notin> set p" and "length p < 65500"
  shows "decode_open (arg_buffer (open_args p flags mode)) = Some (p, flags, mode) \<longleftrightarrow>
    flags = 0 \<and> mode = 0"
proof -
  obtain f0 f1 f2 f3 where f: "word_bytes flags = [f0, f1, f2, f3]"
    using list4 [OF length_word_bytes [of flags]] by blast
  obtain m0 m1 m2 m3 where m: "word_bytes mode = [m0, m1, m2, m3]"
    using list4 [OF length_word_bytes [of mode]] by blast
  define pad where "pad = replicate (65536 - length (open_args p flags mode)) (0 :: byte)"
  have "length (open_args p flags mode) = length p + 8"
    using assms(1) by (simp add: open_args_def)
  then have buf: "arg_buffer (open_args p flags mode) =
      map byte_of_char p @ [f0, f1, f2, f3] @ [m0, m1, m2, m3] @ 0 # pad"
    using assms by (simp add: arg_buffer_split open_args_def f m pad_def Suc_diff_le flip: replicate_Suc)
  have zero: "word_bytes 0 = [0, 0, 0, 0]" by (simp add: word_bytes_def numeral_eq_Suc)
  show ?thesis
  proof (cases "f0 = 0")
    case True
    have "arg_buffer (open_args p flags mode) =
        map byte_of_char p @ 0 # [f1, f2, f3, m0] @ [m1, m2, m3, 0] @ pad"
      by (simp add: buf True)
    from decode_open_at [OF this assms(1)] assms(2)
    have "decode_open (arg_buffer (open_args p flags mode)) =
        Some (p, bytes_word [f1, f2, f3, m0], bytes_word [m1, m2, m3, 0])" by simp
    moreover have "bytes_word [f1, f2, f3, m0] = flags \<longleftrightarrow> [f1, f2, f3, m0] = [f0, f1, f2, f3]"
      "bytes_word [m1, m2, m3, 0] = mode \<longleftrightarrow> [m1, m2, m3, 0] = [m0, m1, m2, m3]"
      by (metis bytes_word_bytes f word_bytes_word length_Cons list.size(3) numeral_eq_Suc(1) length_word_bytes,
          metis bytes_word_bytes m word_bytes_word length_Cons list.size(3) length_word_bytes)
    moreover have "flags = 0 \<longleftrightarrow> [f0, f1, f2, f3] = [0, 0, 0, 0]"
      "mode = 0 \<longleftrightarrow> [m0, m1, m2, m3] = [0, 0, 0, 0]"
      by (metis f zero word_bytes_inject, metis m zero word_bytes_inject)
    ultimately show ?thesis using True by auto
  next
    case False
    have "length (string_at (arg_buffer (open_args p flags mode)) 0) > length p"
      unfolding buf string_at_def drop_0 length_map
      by (subst takeWhile_append2) (use assms(1) False in auto)
    moreover have "flags \<noteq> 0" using False f zero by auto
    ultimately show ?thesis using decode_open_path by fastforce
  qed
qed

theorem open_args_misread_witness:
  "decode_open (arg_buffer (open_args ''/x'' 0 420)) \<noteq> Some (''/x'', 0, 420)"
  using open_args_misread [of "''/x''" 0 420] by simp

end
