(* ===== verification/Parent.thy ===== *)
theory Parent
  imports Access Protocol Forward
begin

text \<open>
  \<open>run_parent\<close> (\<open>sandbox-parent.c\<close>): what the parent tells the child at start-up, and the loop
  that takes the child's requests. The socket is a datagram socket: a read takes one datagram and
  drops what of it does not fit.
\<close>

section \<open>State\<close>

text \<open>
  What the child sends, one datagram per element, what has been sent to it, whether it was killed,
  and the three variables of the loop that a short header leaves as they were.
\<close>

record parent = vfs +
  sock_in :: "byte list list"
  sock_out :: "byte list list"
  killed :: bool
  hdr_namespace :: "16 word"
  hdr_fnamelen :: "16 word"
  hdr_length :: "16 word"

text \<open>The outside: which sends succeed, as a function of all that was sent, this one included.\<close>

definition send_dgram ::
  "(byte list list \<Rightarrow> bool) \<Rightarrow> byte list \<Rightarrow> ('a parent_scheme, bool) prog" where
  "send_dgram send_ok d s =
    (let s1 = s\<lparr>sock_out := sock_out s @ [d]\<rparr> in
     if send_ok (sock_out s1) then (Ret True, s1) else (Ret False, s))"

section \<open>Start-up\<close>

text \<open>
  \<open>limits\<close> has three elements, of which two are assigned and all are sent; \<open>unset\<close> is what the
  third one holds.
\<close>

definition limits_dgram :: "32 word \<Rightarrow> 32 word \<Rightarrow> 32 word \<Rightarrow> byte list" where
  "limits_dgram mem cpu unset = word_bytes mem @ word_bytes cpu @ word_bytes unset"

definition member_int :: "json_c \<Rightarrow> json \<Rightarrow> string \<Rightarrow> int" where
  "member_int jc out k = get_int64 jc (opt_json (get_ex jc out k))"

definition std_node :: "string \<Rightarrow> 32 word \<Rightarrow> node" where
  "std_node name flags = zero_node\<lparr>n_name := Some name, n_flags := flags\<rparr>"

text \<open>
  The descriptors 0, 1 and 2. The source writes the node of the third into a member \<open>flags\<close> that
  the structure does not have; it is meant to be \<open>node\<close>.
\<close>

definition std_fds :: "('a vfs_scheme, unit) prog" where
  "std_fds s = (Ret (), s\<lparr>fd_table := (fd_table s)
     [0 := (-1, Some (std_node ''stdin'' 0x1000)),
      1 := (-2, Some (std_node ''stdout'' (SBFS_WRITABLE OR 0x1000))),
      2 := (-3, Some (std_node ''stderr'' (SBFS_WRITABLE OR 0x1000)))]\<rparr>)"

definition path_dgram :: "json_c \<Rightarrow> json \<Rightarrow> byte list" where
  "path_dgram jc out =
    (let len = get_string_len jc out in
     le_bytes 4 (int len) @
     map byte_of_char (take len (case get_string jc out of Some t \<Rightarrow> t | None \<Rightarrow> [])))"

text \<open>\<open>Inl\<close> is the value \<open>run_parent\<close> returns before the loop.\<close>

definition start_up ::
  "json_c \<Rightarrow> realfs \<Rightarrow> (nat \<Rightarrow> node) \<Rightarrow> 32 word \<Rightarrow> (byte list list \<Rightarrow> bool) \<Rightarrow>
   ('a parent_scheme, int + unit) prog" where
  "start_up jc fs junk unset send_ok =
    bnd (trampoline jc True NS_SB ''getlimits'' 0 []) (\<lambda>(r, out).
    if r \<noteq> 0 then ret (Inl r)
    else
      bnd (send_dgram send_ok (limits_dgram (word_of_int (member_int jc out ''mem''))
        (word_of_int (member_int jc out ''cpu'')) unset)) (\<lambda>ok.
      if \<not> ok then ret (Inl (-1))
      else
        bnd (trampoline jc True NS_SB ''getfs'' 0 []) (\<lambda>(r, out).
        if r \<noteq> 0 then ret (Inl r)
        else
          bnd (modify root (\<lambda>n. n\<lparr>n_parent := Some root\<rparr>)) (\<lambda>_.
          bnd (load_tree jc fs junk out) (\<lambda>_.
          bnd (trampoline jc True NS_SB ''getpythonpath'' 0 []) (\<lambda>(r, out).
          if r \<noteq> 0 then ret (Inl r)
          else
            bnd (send_dgram send_ok (path_dgram jc out)) (\<lambda>ok.
            if \<not> ok then ret (Inl (-1))
            else bnd std_fds (\<lambda>_. ret (Inr ())))))))))"

section \<open>The request loop\<close>

text \<open>One read of the socket: the next datagram, cut to the room there is; \<open>None\<close> waits.\<close>

definition recv_dgram :: "nat \<Rightarrow> ('a parent_scheme, byte list option) prog" where
  "recv_dgram room s =
    (case sock_in s of
       [] \<Rightarrow> (Ret None, s)
     | d # ds \<Rightarrow> (Ret (Some (take room d)), s\<lparr>sock_in := ds\<rparr>))"

text \<open>The header: three 16-bit words, of which a short datagram sets only the first bytes.\<close>

definition bytes_half :: "byte list \<Rightarrow> 16 word" where
  "bytes_half bs = word_of_nat (le_nat bs)"

definition set_header :: "byte list \<Rightarrow> 'a parent_scheme \<Rightarrow> 'a parent_scheme" where
  "set_header d s =
    (let old = le_bytes 2 (uint (hdr_namespace s)) @ le_bytes 2 (uint (hdr_fnamelen s)) @
           le_bytes 2 (uint (hdr_length s));
         new = d @ drop (length d) old
     in s\<lparr>hdr_namespace := bytes_half (take 2 new), hdr_fnamelen := bytes_half (take 2 (drop 2 new)),
          hdr_length := bytes_half (drop 4 new)\<rparr>)"

text \<open>
  What became of one turn: the loop goes on, it stops with a value after killing the child, or it
  waits for a datagram that does not come.
\<close>

datatype turn = Next | Stop int | Waiting

definition kill_child :: "int \<Rightarrow> ('a parent_scheme, turn) prog" where
  "kill_child r s = (Ret (Stop r), s\<lparr>killed := True\<rparr>)"

text \<open>
  \<open>dispatch\<close> with the pointers into the buffer, for the entries the search can find. The parent's
  half of \<open>open\<close> clears the first four bytes of the buffer. \<open>fcntl\<close> takes its pointers for the
  values themselves: \<open>at\<close> is the address of the buffer and \<open>view\<close> what the memory at an address
  holds. The result is the return value and the buffer.
\<close>

definition low_int :: "64 word \<Rightarrow> int" where
  "low_int p = sint (ucast p :: 32 word)"

definition dispatch ::
  "json_c \<Rightarrow> realfs \<Rightarrow> (nat \<Rightarrow> node) \<Rightarrow> 64 word \<Rightarrow> (64 word \<Rightarrow> fcntl_arg) \<Rightarrow> sys_arg_map \<Rightarrow>
   nat list \<Rightarrow> byte list \<Rightarrow> ('a parent_scheme, int \<times> byte list) prog" where
  "dispatch jc fs junk at view e params buf =
    (case (func e, params) of
       (Some Sb_open, [p0, p1, p2]) \<Rightarrow>
         bnd (need (int_at buf p1) (fault_with Out_Of_Bounds)) (\<lambda>flags.
         bnd (need (int_at buf p2) (fault_with Out_Of_Bounds)) (\<lambda>mode.
         bnd (open_node jc fs junk (string_at buf p0) flags mode) (\<lambda>r.
         ret (r, replicate 4 0 @ drop 4 buf))))
     | (Some Sb_fcntl, [p0, p1, p2]) \<Rightarrow>
         bnd (sb_fcntl jc (low_int (at + word_of_nat p0)) (low_int (at + word_of_nat p1))
           (view (at + word_of_nat p2))) (\<lambda>r. ret (r, buf))
     | _ \<Rightarrow> fault_with Uninitialised)"

text \<open>The response: the value, errno, and as many bytes of the buffer as its first word says.\<close>

definition response ::
  "int \<Rightarrow> byte list \<Rightarrow> 'a parent_scheme \<Rightarrow> byte list option" where
  "response r buf s =
    (let n = le_nat (take 4 buf) in
     if 4 + n \<le> length buf
     then Some (word_bytes (word_of_int r) @ word_bytes (word_of_int (errno s)) @ take n (drop 4 buf))
     else None)"

text \<open>
  That first word is an \<open>int\<close>. A negative one makes a length \<open>writev\<close> refuses with -1; the value the
  code expects back is that length and 8, modulo \<open>2 ^ 64\<close>, which is -1 too if the word is -9.
\<close>

definition send_response ::
  "(byte list list \<Rightarrow> bool) \<Rightarrow> int \<times> byte list \<Rightarrow> ('a parent_scheme, turn) prog" where
  "send_response send_ok v s =
    (let len = sint (bytes_word (take 4 (snd v))) in
     if len < 0 then (if len = -9 then ret Next else kill_child (-1)) s
     else
       case response (fst v) (snd v) s of
         None \<Rightarrow> (Fault Out_Of_Bounds, s)
       | Some d \<Rightarrow> bnd (send_dgram send_ok d) (\<lambda>ok. if ok then ret Next else kill_child (-1)) s)"

text \<open>The call with the number \<open>nr\<close>, once its arguments \<open>d\<close> are there.\<close>

definition run_call ::
  "json_c \<Rightarrow> realfs \<Rightarrow> (nat \<Rightarrow> node) \<Rightarrow> 64 word \<Rightarrow> (64 word \<Rightarrow> fcntl_arg) \<Rightarrow> (byte list list \<Rightarrow> bool) \<Rightarrow>
   nat \<Rightarrow> byte list \<Rightarrow> ('a parent_scheme, turn) prog" where
  "run_call jc fs junk at view send_ok nr d =
    (let buf = arg_buffer d in
     case parent_entry arg_map (syscalls_x86_64 ! nr) of
       None \<Rightarrow> fault_with Out_Of_Bounds
     | Some e \<Rightarrow>
         (case arg_offsets (take (nargs e) (arglen e)) buf 0 of
            None \<Rightarrow> kill_child (-1)
          | Some params \<Rightarrow> bnd (dispatch jc fs junk at view e params buf) (send_response send_ok)))"

definition recv_args :: "nat \<Rightarrow> ('a parent_scheme, byte list option) prog" where
  "recv_args len = (if len > 0 then recv_dgram len else ret (Some []))"

definition serve_syscall ::
  "json_c \<Rightarrow> realfs \<Rightarrow> (nat \<Rightarrow> node) \<Rightarrow> 64 word \<Rightarrow> (64 word \<Rightarrow> fcntl_arg) \<Rightarrow> (byte list list \<Rightarrow> bool) \<Rightarrow>
   int \<Rightarrow> ('a parent_scheme, turn) prog" where
  "serve_syscall jc fs junk at view send_ok r s =
    (let nr = unat (hdr_fnamelen s); len = unat (hdr_length s) in
     if nr \<ge> nsyscalls_x86_64 then kill_child r s
     else
       bnd (recv_args len) (\<lambda>data.
       case data of
         None \<Rightarrow> ret Waiting
       | Some d \<Rightarrow>
           if length d \<noteq> len then kill_child (int (length d))
           else run_call jc fs junk at view send_ok nr d) s)"

text \<open>
  A request in another namespace: the name and a JSON array in one datagram. It is passed on, and
  the reply is kept.
\<close>

definition pass_on :: "json_c \<Rightarrow> int \<Rightarrow> nat \<Rightarrow> byte list \<Rightarrow> ('a parent_scheme, turn) prog" where
  "pass_on jc ns fn d =
    (let buf = arg_buffer d; json_args = tokener_parse jc (string_at buf fn) in
     if \<not> is_array json_args then kill_child (int (length d))
     else bnd (trampoline jc True ns (string_at buf 0) (-1) [json_args]) (\<lambda>_. ret Next))"

definition serve_other :: "json_c \<Rightarrow> int \<Rightarrow> ('a parent_scheme, turn) prog" where
  "serve_other jc r s =
    (let fn = unat (hdr_fnamelen s); len = unat (hdr_length s) in
     if fn + len > 65536 then kill_child r s
     else
       bnd (recv_dgram (fn + len)) (\<lambda>data.
       case data of
         None \<Rightarrow> ret Waiting
       | Some d \<Rightarrow>
           if length d \<noteq> fn + len then kill_child (-1)
           else pass_on jc (sint (hdr_namespace s)) fn d) s)"

definition serve ::
  "json_c \<Rightarrow> realfs \<Rightarrow> (nat \<Rightarrow> node) \<Rightarrow> 64 word \<Rightarrow> (64 word \<Rightarrow> fcntl_arg) \<Rightarrow> (byte list list \<Rightarrow> bool) \<Rightarrow>
   ('a parent_scheme, turn) prog" where
  "serve jc fs junk at view send_ok =
    bnd (recv_dgram 6) (\<lambda>header.
    case header of
      None \<Rightarrow> ret Waiting
    | Some d \<Rightarrow> (\<lambda>s.
        let s = set_header d s in
        if length d \<noteq> 4 then kill_child (int (length d)) s
        else if hdr_namespace s = 0 then serve_syscall jc fs junk at view send_ok 4 s
        else serve_other jc 4 s))"

section \<open>Frames\<close>

lemma more_socket:
  fixes s t :: "'a parent_scheme"
  assumes "vfs.more t = vfs.more s"
  shows "sock_in t = sock_in s \<and> sock_out t = sock_out s \<and> killed t = killed s"
  using assms by (cases s; cases t) simp

text \<open>What the virtual file system and the calls to the overall parent do, seen from the socket.\<close>

lemma keeps_socket:
  fixes s :: "'a parent_scheme"
  assumes "keeps m" and "m s = (r, s')"
  shows "sock_in s' = sock_in s \<and> sock_out s' = sock_out s \<and> killed s' = killed s"
  using keepsD [OF assms] by (intro more_socket) simp

lemma header_sel [simp]:
  "sock_in (set_header d s) = sock_in s" "sock_out (set_header d s) = sock_out s"
  "pipe_out (set_header d s) = pipe_out s" "opens (set_header d s) = opens s"
  "fd_table (set_header d s) = fd_table s" "killed (set_header d s) = killed s"
  by (simp_all add: set_header_def Let_def)

lemma header_not_four:
  assumes "sock_in s = d # ds" and "length (take 6 d) \<noteq> 4"
  shows "serve jc fs junk at view send_ok s =
    (Ret (Stop (int (length (take 6 d)))),
     (set_header (take 6 d) (s\<lparr>sock_in := ds\<rparr>))\<lparr>killed := True\<rparr>)"
  using assms(2)
  by (simp add: serve_def bnd_def recv_dgram_def assms(1) kill_child_def Let_def del: length_take)

lemma length_open_request: "6 < length (open_request p flags mode)"
  by (simp add: open_request_def open_args_def)

text \<open>Code that sends the child nothing.\<close>

definition silent :: "('a parent_scheme, 'b) prog \<Rightarrow> bool" where
  "silent m \<longleftrightarrow> (\<forall>s. sock_out (snd (m s)) = sock_out s)"

interpretation silent: frame "\<lambda>s t. sock_out t = sock_out (s :: 'a parent_scheme)"
  by unfold_locales simp_all

lemma silent_within: "silent = within (\<lambda>s t. sock_out t = sock_out s)"
  by (simp add: fun_eq_iff silent_def within_def)

lemmas silent_bnd = silent.bnd [folded silent_within]

lemma silent_basic: "silent (ret a)" "silent (Pair x)" "silent (recv_dgram n)" "silent (kill_child r)"
  by (auto simp: silent_def recv_dgram_def kill_child_def split: list.split)

lemma silent_keeps: "keeps m \<Longrightarrow> silent (m :: ('a parent_scheme, 'b) prog)"
  unfolding silent_def using keeps_socket by (metis prod.collapse)

lemmas silent_intros = silent_bnd silent_basic silent_keeps [OF keeps_trampoline]

lemma silent_pass_on: "silent (pass_on jc ns fn d)"
  unfolding pass_on_def Let_def by (auto intro!: silent_intros)

lemma silent_serve_other: "silent (serve_other jc r :: ('a parent_scheme, turn) prog)"
proof -
  have "silent (bnd (recv_dgram n) (\<lambda>data. case data of None \<Rightarrow> ret Waiting
       | Some d \<Rightarrow> if length d \<noteq> n then kill_child (-1) else pass_on jc ns fn d)
        :: ('a parent_scheme, turn) prog)" for n fn ns
    by (auto intro!: silent_intros silent_pass_on split: option.split)
  moreover have "silent (kill_child r :: ('a parent_scheme, turn) prog)" by (rule silent_basic)
  ultimately show ?thesis by (simp add: silent_def serve_other_def Let_def)
qed

lemma sendD: "send_dgram send_ok d s = (Ret True, s') \<Longrightarrow> s' = s\<lparr>sock_out := sock_out s @ [d]\<rparr>"
  by (auto simp: send_dgram_def Let_def split: if_splits)

section \<open>Properties\<close>


text \<open>A parent with one request waiting.\<close>

definition waiting_parent :: "byte list list \<Rightarrow> parent" where
  "waiting_parent ds = vfs.extend boot
     \<lparr>sock_in = ds, sock_out = [], killed = False, hdr_namespace = 0, hdr_fnamelen = 0, hdr_length = 0\<rparr>"




text \<open>
  Start-up, when it completes, has sent the child exactly two datagrams: twelve bytes that begin
  with the two limits, then the length of the virtual path of python and the path. Descriptors 0,
  1 and 2 are then the three standard streams, negative like every descriptor the overall parent
  serves, and no other entry of the table has changed.
\<close>

theorem start_up_handshake:
  fixes s :: "'a parent_scheme"
  assumes "start_up jc fs junk unset send_ok s = (Ret (Inr ()), s')" and "3 \<le> length (fd_table s)"
  shows "\<exists>mem cpu out. sock_out s' = sock_out s @ [limits_dgram mem cpu unset, path_dgram jc out] \<and>
    length (limits_dgram mem cpu unset) = 12 \<and>
    map fst (take 3 (fd_table s')) = [-1, -2, -3] \<and> drop 3 (fd_table s') = drop 3 (fd_table s) \<and>
    opens s' = opens s"
proof -
  from assms(1) obtain out1 s1 s2 out2 s3 s4 s5 out3 s6 s7 where
    1: "trampoline jc True NS_SB ''getlimits'' 0 [] s = (Ret (0, out1), s1)" and
    2: "send_dgram send_ok (limits_dgram (word_of_int (member_int jc out1 ''mem''))
      (word_of_int (member_int jc out1 ''cpu'')) unset) s1 = (Ret True, s2)" and
    3: "trampoline jc True NS_SB ''getfs'' 0 [] s2 = (Ret (0, out2), s3)" and
    4: "modify root (\<lambda>n. n\<lparr>n_parent := Some root\<rparr>) s3 = (Ret (), s4)" and
    5: "load_tree jc fs junk out2 s4 = (Ret (), s5)" and
    6: "trampoline jc True NS_SB ''getpythonpath'' 0 [] s5 = (Ret (0, out3), s6)" and
    7: "send_dgram send_ok (path_dgram jc out3) s6 = (Ret True, s7)" and
    8: "std_fds s7 = (Ret (), s')"
    unfolding start_up_def
    by (auto simp: bnd_Ret_iff split: if_splits)
  have k: "sock_out s1 = sock_out s" "sock_out s3 = sock_out s2" "sock_out s4 = sock_out s3"
    "sock_out s5 = sock_out s4" "sock_out s6 = sock_out s5"
    using keeps_socket [OF keeps_trampoline 1] keeps_socket [OF keeps_trampoline 3]
      keeps_socket [OF keeps_pure(5) 4] keeps_socket [OF keeps_load_tree 5]
      keeps_socket [OF keeps_trampoline 6] by simp_all
  have t: "fd_table s1 = fd_table s \<and> opens s1 = opens s" "fd_table s3 = fd_table s2 \<and> opens s3 = opens s2"
    "fd_table s4 = fd_table s3 \<and> opens s4 = opens s3" "fd_table s5 = fd_table s4 \<and> opens s5 = opens s4"
    "fd_table s6 = fd_table s5 \<and> opens s6 = opens s5"
    using keepsD [OF keeps_trampoline 1] keepsD [OF keeps_trampoline 3] keepsD [OF keeps_pure(5) 4]
      keepsD [OF keeps_load_tree 5] keepsD [OF keeps_trampoline 6] by simp_all
  obtain a b c rest where tab: "fd_table s = a # b # c # rest"
    using assms(2) by (auto simp: numeral_eq_Suc Suc_le_length_iff)
  have s': "s' = s7\<lparr>fd_table := [(-1, Some (std_node ''stdin'' 0x1000)),
      (-2, Some (std_node ''stdout'' (SBFS_WRITABLE OR 0x1000))),
      (-3, Some (std_node ''stderr'' (SBFS_WRITABLE OR 0x1000)))] @ rest\<rparr>"
    using 8 t sendD [OF 2] sendD [OF 7] tab by (simp add: std_fds_def numeral_eq_Suc)
  show ?thesis
    using k t tab sendD [OF 2] sendD [OF 7]
    by (intro exI [of _ "word_of_int (member_int jc out1 ''mem'')"]
          exI [of _ "word_of_int (member_int jc out1 ''cpu'')"] exI [of _ out3])
       (simp add: s' limits_dgram_def)
qed

text \<open>An overall parent that answers the three questions of start-up.\<close>

definition start_replies :: "string \<Rightarrow> json" where
  "start_replies l = JObject [(''result'', JObject [(''code'', JInt 0), (''data'',
     if l = ''l'' @ [newline] then JObject [(''mem'', JInt 1000), (''cpu'', JInt 5)]
     else if l = ''f'' @ [newline] then JArray []
     else JString ''/usr/bin/python'')])]"

definition starting_parent :: parent where
  "starting_parent = (waiting_parent [])\<lparr>pipe_in := ''l'' @ newline # ''f'' @ newline # ''p'' @ [newline]\<rparr>"

lemma start_up_runs:
  "fst (start_up (json_c_with start_replies) demo_fs (\<lambda>_. zero_node) 7 (\<lambda>_. True) starting_parent) = Ret (Inr ())"
  by (simp add: start_up_def bnd_def trampoline_def ns_prefix_def call_args_def writejson_def
      readjson_def fgets_def handle_response_def decode_data_def json_c_with_def start_replies_def
      opt_json_def starting_parent_def waiting_parent_def vfs.defs boot_def clamp_def Let_def
      send_dgram_def modify_def load_tree_def std_fds_def cstr_def)

theorem start_up_handshake_witness:
  "\<exists>mem cpu out. sock_out (snd (start_up (json_c_with start_replies) demo_fs (\<lambda>_. zero_node) 7 (\<lambda>_. True)
      starting_parent)) = [limits_dgram mem cpu 7, path_dgram (json_c_with start_replies) out]"
proof -
  obtain s' where run: "start_up (json_c_with start_replies) demo_fs (\<lambda>_. zero_node) 7 (\<lambda>_. True)
      starting_parent = (Ret (Inr ()), s')"
    using start_up_runs by (metis prod.collapse)
  have "3 \<le> length (fd_table starting_parent)" "sock_out starting_parent = []"
    by (simp_all add: starting_parent_def waiting_parent_def vfs.defs boot_def)
  with start_up_handshake [OF run] run show ?thesis by auto
qed

end
