(* ===== verification/Trap.thy ===== *)
theory Trap
  imports Seccomp Parent
begin

text \<open>
  A trapped \<open>open\<close> from the register of the program to the answer of the parent and back:
  \<open>sigsys_handler\<close> (\<open>sandbox-child.c\<close>), the child's \<open>open\<close> (\<open>sbio.c\<close>) and the response of the
  request loop (\<open>sandbox-parent.c\<close>).
\<close>

section \<open>Dispatch in the child\<close>

text \<open>
  What \<open>dispatch\<close> calls for the entry of \<open>open\<close>: the path is the string at the first register, flags
  and mode are the low halves of the next two. \<open>str\<close> is what the memory of the program shows at an
  address; the other entries are a parameter.
\<close>

definition run_trapped ::
  "int option \<Rightarrow> int + byte list \<Rightarrow> (64 word \<Rightarrow> string) \<Rightarrow>
   (sysfunc \<Rightarrow> 64 word list \<Rightarrow> (child_io, 64 word) prog) \<Rightarrow> sysfunc \<Rightarrow> 64 word list \<Rightarrow>
   (child_io, 64 word) prog" where
  "run_trapped send reply str other f ps =
    (if f = Sb_open
     then bnd (sb_open_child send reply (str (ps ! 0)) (ucast (ps ! 1)) (ucast (ps ! 2)))
       (\<lambda>r. ret (word_of_int r))
     else other f ps)"

lemma open_at_2: "handler_of syscalls_x86_64 2 = Some Sb_open"
  using x86_64.handler_at [of 2] by (simp add: length_syscalls handled_x86_64_def)

lemma trapped_open:
  assumes "sb_open_child send reply (str (REG_RDI ctx)) (ucast (REG_RSI ctx)) (ucast (REG_RDX ctx)) s =
    (Ret r, s')"
  shows "sigsys_handler syscalls_x86_64 nsyscalls_x86_64 (run_trapped send reply str other)
    SIGSYS 1 2 ctx s = (Ret (ctx\<lparr>REG_RAX := word_of_int r\<rparr>), s')"
  using assms
  by (simp add: sigsys_handler_def nsyscalls_x86_64_def length_syscalls open_at_2 run_trapped_def
      SB_P_def bnd_def)

lemma receive_response:
  assumes "response r buf p = Some d"
  shows "receive d c = c\<lparr>syscode := word_of_int r, syserrno := word_of_int (errno p)\<rparr>"
proof -
  obtain rest where "d = word_bytes (word_of_int r) @ word_bytes (word_of_int (errno p)) @ rest"
    using assms by (auto simp: response_def Let_def split: if_splits)
  then show ?thesis by (simp add: receive_def Let_def)
qed

section \<open>Properties\<close>

text \<open>
  C32. When the parent answers \<open>open\<close> with -1 and an errno, the child stores that errno and puts -1
  in the result register. A kernel's result register holds the negated errno, so the C library of
  the program makes 1 of it: whatever went wrong, the program is told EPERM. A descriptor arrives as
  it was sent.
\<close>

theorem open_result:
  assumes "response r buf p = Some d" and "- (2 ^ 31) \<le> r" and "r < 2 ^ 31"
  shows "\<exists>ctx' s'. sigsys_handler syscalls_x86_64 nsyscalls_x86_64 (run_trapped None (Inr d) str other)
      SIGSYS 1 2 ctx s = (Ret ctx', s') \<and>
    ctx' = ctx\<lparr>REG_RAX := word_of_int r\<rparr> \<and> c_errno s' = sint (word_of_int (errno p) :: 32 word) \<and>
    (r = -1 \<longrightarrow> syscall_result (REG_RAX ctx') = Inl EPERM) \<and>
    (0 \<le> r \<longrightarrow> syscall_result (REG_RAX ctx') = Inr (word_of_int r))"
proof -
  let ?path = "str (REG_RDI ctx)" and ?flags = "ucast (REG_RSI ctx)" and ?mode = "ucast (REG_RDX ctx)"
  have i: "sint (word_of_int r :: 32 word) = r"
    using assms(2,3) by (simp add: signed_of_int signed_take_bit_int_eq_self)
  have j: "sint (word_of_int r :: 64 word) = r"
    using assms(2,3) by (simp add: signed_of_int signed_take_bit_int_eq_self)
  obtain s' where "sb_open_child None (Inr d) ?path ?flags ?mode s = (Ret r, s')"
    "c_errno s' = sint (word_of_int (errno p) :: 32 word)"
    by (simp add: sb_open_child_def receive_response [OF assms(1)] Let_def i)
  then show ?thesis
    using trapped_open [of None "Inr d" str ctx s r s'] by (simp add: syscall_result_def j)
qed

theorem open_result_witness:
  "\<exists>ctx' s'. sigsys_handler syscalls_x86_64 nsyscalls_x86_64
      (run_trapped None (Inr (word_bytes (- 1) @ word_bytes 2)) (\<lambda>_. ''/x'') (\<lambda>f ps. ret 0))
      SIGSYS 1 2 (regs 0x1000 0 0) \<lparr>syscode = 0, syserrno = 0, c_errno = 0, dgrams = []\<rparr> = (Ret ctx', s') \<and>
    syscall_result (REG_RAX ctx') = Inl EPERM \<and> c_errno s' = 2"
proof -
  have d: "response (- 1) (replicate 4 0) ((waiting_parent [])\<lparr>errno := 2\<rparr>) = Some (word_bytes (- 1) @ word_bytes 2)"
    by (simp add: response_def Let_def numeral_eq_Suc)
  show ?thesis
    using open_result [OF d, of "\<lambda>_. ''/x''" "\<lambda>f ps. ret 0" "regs 0x1000 0 0"
      "\<lparr>syscode = 0, syserrno = 0, c_errno = 0, dgrams = []\<rparr>"] by auto
qed

end
