(* ===== verification/Runs.thy ===== *)
theory Runs
  imports Parent
begin

text \<open>
  Runs of the parent's request loop (\<open>sandbox-parent.c\<close>): turns of the loop, with datagrams of the
  child and lines of the overall parent arriving in between, and what all of them leave alone.
\<close>

section \<open>What a turn does to the state\<close>

text \<open>
  A turn is made of reading from the socket, sending, killing the child, opening a node and asking
  the overall parent. What all of these do to the state, a turn does.
\<close>

locale parent_frame = frame R for R :: "'a parent_scheme \<Rightarrow> 'a parent_scheme \<Rightarrow> bool" +
  fixes jc :: json_c and fs :: realfs and junk :: "nat \<Rightarrow> node"
  assumes receives: "within R (recv_dgram n)"
    and sends: "within R (send_dgram send_ok d)"
    and kills: "within R (kill_child r)"
    and asks: "within R (trampoline jc want ns fname num vargs)"
    and opens: "within R (open_node jc fs junk path flags mode)"
begin

lemmas parts = bnd need basic receives sends kills asks opens

lemma fcntls: "within R (sb_fcntl jc fd cmd a)"
  unfolding sb_fcntl_def code_of_def Let_def
  by (intro parts) (auto intro!: parts)

lemma dispatches: "within R (dispatch jc fs junk at view e params buf)"
  unfolding dispatch_def
  by (auto intro!: parts fcntls split: option.split sysfunc.split list.split)

lemma responds: "within R (send_response send_ok v)"
proof -
  have "within R (bnd (send_dgram send_ok d) (\<lambda>ok. if ok then ret Next else kill_child (-1)))" for d
    by (auto intro!: parts)
  then show ?thesis
    using kills basic(1) by (simp add: within_def send_response_def Let_def same split: option.split)
qed

lemma calls: "within R (run_call jc fs junk at view send_ok nr d)"
  unfolding run_call_def Let_def by (auto intro!: parts dispatches responds split: option.split)

lemma serves_syscall: "within R (serve_syscall jc fs junk at view send_ok r)"
proof -
  have "within R (bnd (recv_args len) (\<lambda>data. case data of None \<Rightarrow> ret Waiting
       | Some d \<Rightarrow> if length d \<noteq> len then kill_child (int (length d))
           else run_call jc fs junk at view send_ok nr d))" for len nr
    unfolding recv_args_def by (auto intro!: parts calls split: option.split)
  with kills show ?thesis by (simp add: within_def serve_syscall_def Let_def)
qed

lemma passes_on: "within R (pass_on jc ns fn d)"
  unfolding pass_on_def Let_def by (auto intro!: parts)

lemma serves_other: "within R (serve_other jc r)"
proof -
  have "within R (bnd (recv_dgram n) (\<lambda>data. case data of None \<Rightarrow> ret Waiting
       | Some d \<Rightarrow> if length d \<noteq> n then kill_child (-1) else pass_on jc ns fn d))" for n fn ns
    by (auto intro!: parts passes_on split: option.split)
  with kills show ?thesis by (simp add: within_def serve_other_def Let_def)
qed

text \<open>So does the loop, if it goes on, provided a complete header is in the relation.\<close>

lemma serves:
  assumes "serve jc fs junk at view send_ok s = (Ret Next, t)"
    and "\<And>d ds. sock_in s = d # ds \<Longrightarrow> length (take 6 d) = 4 \<Longrightarrow>
      R s (set_header (take 6 d) (s\<lparr>sock_in := ds\<rparr>))"
  shows "R s t"
proof (cases "sock_in s")
  case Nil
  with assms show ?thesis by (simp add: serve_def recv_dgram_def bnd_def)
next
  case (Cons d ds)
  let ?h = "set_header (take 6 d) (s\<lparr>sock_in := ds\<rparr>)"
  have four: "length (take 6 d) = 4"
    using header_not_four [OF Cons, of jc fs junk at view send_ok] assms(1) by (cases "length (take 6 d) = 4") simp_all
  have "(if hdr_namespace ?h = 0 then serve_syscall jc fs junk at view send_ok 4 else serve_other jc 4) ?h =
      (Ret Next, t)"
    using assms(1) four by (simp add: serve_def recv_dgram_def bnd_def Cons Let_def del: length_take split: if_splits)
  then have "R ?h t"
    using withinD [OF serves_syscall] withinD [OF serves_other] by (auto split: if_splits)
  with assms(2) [OF Cons four] show ?thesis by (rule further)
qed

end

section \<open>What a turn leaves alone\<close>

text \<open>
  An entry of the table of descriptors that is reserved or in use is never changed, and neither is
  the argument length of the header.
\<close>

definition kept :: "'a parent_scheme \<Rightarrow> 'a parent_scheme \<Rightarrow> bool" where
  "kept s t \<longleftrightarrow> length (fd_table t) = length (fd_table s) \<and>
     (\<forall>i. i < 4 \<or> fst (fd_table s ! i) \<noteq> 0 \<longrightarrow> fd_table t ! i = fd_table s ! i) \<and>
     hdr_length t = hdr_length s"

lemma kept_refl [simp]: "kept s s"
  by (simp add: kept_def)

lemma kept_trans: "kept s t \<Longrightarrow> kept t u \<Longrightarrow> kept s u"
  by (simp add: kept_def)

lemma kept_same: "fd_table t = fd_table s \<Longrightarrow> hdr_length t = hdr_length s \<Longrightarrow> kept s t"
  by (simp add: kept_def)

lemma kept_free:
  assumes "4 \<le> i" and "fst (fd_table s ! i) = 0"
  shows "kept s (s\<lparr>fd_table := (fd_table s)[i := x]\<rparr>)"
proof -
  have "(fd_table s)[i := x] ! j = fd_table s ! j" if "j < 4 \<or> fst (fd_table s ! j) \<noteq> 0" for j
    using that assms by (intro nth_list_update_neq) auto
  then show ?thesis by (simp add: kept_def)
qed

lemma kept_fields [simp]:
  "kept s (t\<lparr>errno := e\<rparr>) = kept s t" "kept s (t\<lparr>sock_in := ds\<rparr>) = kept s t"
  "kept s (t\<lparr>pipe_in := line\<rparr>) = kept s t"
  by (simp_all add: kept_def)

named_theorems stable_intros \<open>code that keeps descriptors, by the structure of the program\<close>

definition stable :: "('a parent_scheme, 'b) prog \<Rightarrow> bool" where
  "stable m \<longleftrightarrow> (\<forall>s. kept s (snd (m s)))"

lemma stable_within: "stable = within kept"
  by (simp add: fun_eq_iff stable_def within_def)

interpretation stable: frame kept
  by unfold_locales (auto intro: kept_trans)

lemmas stableD = withinD [of kept, folded stable_within]

lemmas stable_frame [stable_intros] =
  stable.bnd [folded stable_within] stable.need [folded stable_within] stable.basic [folded stable_within]

lemma stable_keeps: "keeps m \<Longrightarrow> stable (m :: ('a parent_scheme, 'b) prog)"
  unfolding stable_def
proof
  fix s :: "'a parent_scheme"
  assume "keeps m"
  then have "fd_table (snd (m s)) = fd_table s" "vfs.more (snd (m s)) = vfs.more s"
    by (simp_all add: keeps_def)
  then show "kept s (snd (m s))"
    by (intro kept_same) (cases s; cases "snd (m s)"; simp)+
qed

lemma stable_basic [stable_intros]:
  "stable (ret a)" "stable (fault_with e)" "stable (kill_child r)" "stable (recv_dgram n)"
  "stable (send_dgram send_ok d)" "stable (real_open fs path flags mode)" "stable (set_err n')"
  by (auto simp: stable_def kill_child_def recv_dgram_def send_dgram_def real_open_def set_err_def
      Let_def split: list.split sum.split intro!: kept_same)

lemma stable_new_fd [stable_intros]: "stable (new_fd n realfd flags)"
  unfolding stable_def new_fd_run
  by (auto split: option.split dest!: free_slotD intro!: kept_free)

lemmas stable_calls [stable_intros] =
  stable_keeps [OF keeps_trampoline] stable_keeps [OF keeps_get_node] stable_keeps [OF keeps_pure(6)]

lemma stable_open_node [stable_intros]: "stable (open_node jc fs junk path flags mode)"
  unfolding open_node_def
  by (intro stable_intros) (auto intro!: stable_intros split: option.split)

interpretation turns: parent_frame kept jc fs junk for jc fs junk
  by unfold_locales (rule stable_intros [unfolded stable_within])+

lemma header_four: "length d = 4 \<Longrightarrow> kept s (set_header d s)"
proof -
  assume d: "length d = 4"
  have "bytes_half (le_bytes 2 (uint (hdr_length s))) = hdr_length s"
  proof -
    have "uint (hdr_length s) < 2 ^ 16" "0 \<le> uint (hdr_length s)"
      using unsigned_less [of "hdr_length s"] by simp_all
    then have "int (le_nat (le_bytes 2 (uint (hdr_length s)))) = uint (hdr_length s)"
      by (simp add: le_nat_le_bytes)
    then show ?thesis by (metis bytes_half_def of_int_of_nat_eq word_of_int_uint)
  qed
  with d show ?thesis by (simp add: kept_def set_header_def Let_def)
qed

lemma serve_kept:
  assumes "serve jc fs junk at view send_ok s = (Ret Next, t)"
  shows "kept s t"
  using assms
proof (rule turns.serves)
  fix d :: "byte list" and ds assume "length (take 6 d) = 4"
  then have "kept (s\<lparr>sock_in := ds\<rparr>) (set_header (take 6 d) (s\<lparr>sock_in := ds\<rparr>))" by (rule header_four)
  then show "kept s (set_header (take 6 d) (s\<lparr>sock_in := ds\<rparr>))"
    by (rule kept_trans [rotated]) simp
qed

section \<open>Runs\<close>

inductive served ::
  "json_c \<Rightarrow> realfs \<Rightarrow> (nat \<Rightarrow> node) \<Rightarrow> 64 word \<Rightarrow> (64 word \<Rightarrow> fcntl_arg) \<Rightarrow> (byte list list \<Rightarrow> bool) \<Rightarrow>
   'a parent_scheme \<Rightarrow> 'a parent_scheme \<Rightarrow> bool"
  for jc fs junk at view send_ok s where
  start: "served jc fs junk at view send_ok s s"
| turn: "served jc fs junk at view send_ok s t \<Longrightarrow>
    serve jc fs junk at view send_ok t = (Ret Next, u) \<Longrightarrow> served jc fs junk at view send_ok s u"
| child_sends: "served jc fs junk at view send_ok s t \<Longrightarrow>
    served jc fs junk at view send_ok s (t\<lparr>sock_in := sock_in t @ ds\<rparr>)"
| overall_parent_sends: "served jc fs junk at view send_ok s t \<Longrightarrow>
    served jc fs junk at view send_ok s (t\<lparr>pipe_in := pipe_in t @ line\<rparr>)"

lemma served_kept: "served jc fs junk at view send_ok s t \<Longrightarrow> kept s t"
  by (induction rule: served.induct)
     (auto intro: kept_trans serve_kept kept_same)

section \<open>Properties\<close>

text \<open>
  C8. However many requests the loop serves, whatever the child and the overall parent send and in
  whatever order: an entry of the table of descriptors, once it is in use, never comes to mean
  something else, the first four are never given out, the table keeps its size, and the length of the
  arguments is for ever the one the loop began with, since a turn that goes on has read a header of
  four bytes, which ends before it.
\<close>

theorem descriptors_stable:
  assumes "served jc fs junk at view send_ok s t"
  shows "length (fd_table t) = length (fd_table s) \<and>
    (\<forall>i. i < 4 \<or> fst (fd_table s ! i) \<noteq> 0 \<longrightarrow> fd_table t ! i = fd_table s ! i) \<and>
    hdr_length t = hdr_length s"
  using served_kept [OF assms] by (simp add: kept_def)

text \<open>
  A child that gets a call with a header of four bytes served: number 3, without arguments, which is
  taken for \<open>open\<close> of the empty path. The overall parent does not tell the working directory.
\<close>

definition short_parent :: parent where
  "short_parent = (waiting_parent [[0, 0, 3, 0]])\<lparr>pipe_in := ''x'' @ [newline]\<rparr>"

lemma zeros:
  "strlen_at (replicate n 0) k = 0" "string_at (replicate n 0) k = []"
  "k + 4 \<le> n \<Longrightarrow> int_at (replicate n 0) k = Some 0"
proof -
  show "strlen_at (replicate n 0) k = 0" "string_at (replicate n 0) k = []"
    by (cases "n - k"; simp add: strlen_at_def string_at_def)+
  have "bytes_word (replicate 4 0) = 0" by (simp add: bytes_word_def numeral_eq_Suc)
  then show "k + 4 \<le> n \<Longrightarrow> int_at (replicate n 0) k = Some 0"
    by (cases "4 \<le> n - k") (simp_all add: int_at_def min_def)
qed

lemma le_nat_zeros [simp]: "le_nat (replicate n 0) = 0"
  by (induction n) simp_all

lemma demo_refusal:
  "handle_response (json_c_with p) True demo_error s =
    (Ret (- 1, JObject [(''code'', JInt 2), (''message'', JString ''no'')]), s\<lparr>errno := 2\<rparr>)"
  by (subst handle_error [OF json_c_with_ok, of demo_error "[(''code'', JInt 2), (''message'', JString ''no'')]" 2])
     (simp_all add: demo_error_def error_of_def clamp_def)

lemma no_directory:
  fixes s :: "'a vfs_scheme"
  assumes "pipe_in s = ''x'' @ [newline]" and "out_error s = None" and "\<not> out_eof s"
  shows "\<exists>t. open_node (json_c_with (\<lambda>_. demo_error)) fs junk [] 0 0 s = (Ret (- 1), t)"
proof -
  have p: "peer_answers (json_c_with (\<lambda>_. demo_error)) s demo_error []"
    using assms by (simp add: peer_answers_def)
  have "trampoline (json_c_with (\<lambda>_. demo_error)) True NS_SYS ''getcwd'' 0 [] s =
    handle_response (json_c_with (\<lambda>_. demo_error)) True demo_error
      (sent (json_c_with (\<lambda>_. demo_error)) ''sys.getcwd'' (JArray []) [] s)"
    using trampoline_answered [OF p, of NS_SYS "''sys.''" 0 "[]" "JArray []" True "''getcwd''"]
    by (simp add: ns_prefix_def call_args_def)
  then show ?thesis
    by (simp add: open_node_def get_node.simps [of _ _ _ "[]"] bnd_def set_err_def demo_refusal)
qed

lemma short_call:
  fixes s :: "'a parent_scheme"
  assumes "pipe_in s = ''x'' @ [newline]" and "out_error s = None" and "\<not> out_eof s"
  shows "\<exists>t. run_call (json_c_with (\<lambda>_. demo_error)) fs junk at view (\<lambda>_. True) 3 [] s = (Ret Next, t)"
proof -
  have buf: "arg_buffer [] = replicate 65537 0" by (simp add: arg_buffer_def)
  have nr: "syscalls_x86_64 ! 3 = ''close''" by (simp add: syscalls_x86_64_def x86_64_tables)
  have e: "parent_entry arg_map (syscalls_x86_64 ! 3) = Some (asys ''open'' 3 Sb_open [0, 4, 4])"
    by (simp add: nr parent_arg_map)
  have sel: "take (nargs (asys ''open'' 3 Sb_open [0, 4, 4])) (arglen (asys ''open'' 3 Sb_open [0, 4, 4])) = [0, 4, 4]"
    "func (asys ''open'' 3 Sb_open [0, 4, 4]) = Some Sb_open"
    by (simp_all add: asys_def)
  have i: "int_at (replicate 65537 0) (Suc 0) = Some 0" "int_at (replicate 65537 0) 5 = Some 0"
    "string_at (replicate 65537 0) 0 = []"
    by (rule zeros; simp)+
  obtain t where o: "open_node (json_c_with (\<lambda>_. demo_error)) fs junk [] 0 0 s = (Ret (- 1), t)"
    using no_directory [of s fs junk] assms by blast
  obtain d where "response (- 1) (replicate 4 0 @ drop 4 (replicate 65537 0)) t = Some d"
    by (simp add: response_def Let_def)
  then have "send_response (\<lambda>_. True) (- 1, replicate 4 0 @ drop 4 (replicate 65537 0)) t =
      (Ret Next, t\<lparr>sock_out := sock_out t @ [d]\<rparr>)"
    by (simp add: send_response_def send_dgram_def bnd_def Let_def bytes_word_def del: drop_replicate)
  moreover have "dispatch (json_c_with (\<lambda>_. demo_error)) fs junk at view (asys ''open'' 3 Sb_open [0, 4, 4])
      [0, 1, 5] (replicate 65537 0) s = (Ret (- 1, replicate 4 0 @ drop 4 (replicate 65537 0)), t)"
    by (simp add: dispatch_def sel i bnd_def o del: drop_replicate)
  ultimately show ?thesis
    by (simp add: run_call_def Let_def buf e sel zeros(1) bnd_def del: drop_replicate)
qed

lemma short_request:
  "\<exists>t. serve (json_c_with (\<lambda>_. demo_error)) demo_fs (\<lambda>_. zero_node) 0
     (\<lambda>_. \<lparr>as_int = 0, as_flock = None, as_owner = None\<rparr>) (\<lambda>_. True) short_parent = (Ret Next, t)"
proof -
  let ?s = "set_header [0, 0, 3, 0] (short_parent\<lparr>sock_in := []\<rparr>)"
  have z: "le_bytes 2 0 = [0, 0]" by (simp add: numeral_2_eq_2)
  have h: "hdr_namespace ?s = 0" "hdr_fnamelen ?s = 3" "hdr_length ?s = 0"
    by (simp_all add: set_header_def Let_def short_parent_def waiting_parent_def vfs.defs bytes_half_def z)
  have f: "sock_in short_parent = [[0, 0, 3, 0]]" "pipe_in ?s = ''x'' @ [newline]" "out_error ?s = None"
    "\<not> out_eof ?s"
    by (simp_all add: short_parent_def waiting_parent_def vfs.defs boot_def set_header_def Let_def)
  obtain t where "run_call (json_c_with (\<lambda>_. demo_error)) demo_fs (\<lambda>_. zero_node) 0
     (\<lambda>_. \<lparr>as_int = 0, as_flock = None, as_owner = None\<rparr>) (\<lambda>_. True) 3 [] ?s = (Ret Next, t)"
    using short_call [OF f(2-4)] by blast
  then show ?thesis
    by (simp add: serve_def recv_dgram_def f(1) bnd_def Let_def h serve_syscall_def nsyscalls_x86_64_def
        recv_args_def)
qed

theorem descriptors_stable_witness:
  "\<exists>t. serve (json_c_with (\<lambda>_. demo_error)) demo_fs (\<lambda>_. zero_node) 0
      (\<lambda>_. \<lparr>as_int = 0, as_flock = None, as_owner = None\<rparr>) (\<lambda>_. True) short_parent = (Ret Next, t) \<and>
    length (fd_table t) = 64 \<and> hdr_length t = 0"
proof -
  obtain t where t: "serve (json_c_with (\<lambda>_. demo_error)) demo_fs (\<lambda>_. zero_node) 0
      (\<lambda>_. \<lparr>as_int = 0, as_flock = None, as_owner = None\<rparr>) (\<lambda>_. True) short_parent = (Ret Next, t)"
    using short_request by blast
  have "length (fd_table short_parent) = 64" "hdr_length short_parent = 0"
    by (simp_all add: short_parent_def waiting_parent_def vfs.defs boot_def)
  with descriptors_stable [OF served.turn [OF served.start t]] t show ?thesis by simp
qed

end
