(* ===== verification/Links.thy ===== *)
theory Links
  imports Runs
begin

text \<open>
  The links of the virtual file system (\<open>sandbox-parent.c\<close>): what \<open>child\<close> and \<open>next\<close> lead to is
  allocated, although the lookup frees nodes, in every state the parent can get into.
\<close>

section \<open>The invariant\<close>

text \<open>
  Every child of a node is an allocated node other than the two static ones, a child of one node
  only, and once. Addresses in use are below the next one \<open>malloc\<close> gives out.
\<close>

definition kids :: "'a vfs_scheme \<Rightarrow> nat \<Rightarrow> nat list" where
  "kids s a = (case nodes s a of Some n \<Rightarrow> n_children n | None \<Rightarrow> [])"

definition linked :: "'a vfs_scheme \<Rightarrow> bool" where
  "linked s \<longleftrightarrow> 2 \<le> fresh s \<and> (\<forall>a. nodes s a \<noteq> None \<longrightarrow> a < fresh s) \<and>
    (\<forall>a. distinct (kids s a) \<and> (\<forall>c \<in> set (kids s a). 2 \<le> c \<and> nodes s c \<noteq> None)) \<and>
    (\<forall>a b. a \<noteq> b \<longrightarrow> set (kids s a) \<inter> set (kids s b) = {})"

lemma linked_cong:
  assumes "fresh t = fresh s" and "kids t = kids s" and "\<And>a. nodes t a = None \<longleftrightarrow> nodes s a = None"
  shows "linked t = linked s"
  by (simp add: linked_def assms)

lemma linked_same: "nodes t = nodes s \<Longrightarrow> fresh t = fresh s \<Longrightarrow> linked t = linked s"
  by (rule linked_cong) (simp_all add: kids_def fun_eq_iff)

named_theorems links_intros \<open>code that keeps the links, by the structure of the program\<close>

definition links :: "('a vfs_scheme, 'b) prog \<Rightarrow> bool" where
  "links m \<longleftrightarrow> (\<forall>s. linked s \<longrightarrow> linked (snd (m s)))"

lemma links_within: "links = within (\<lambda>s t. linked s \<longrightarrow> linked t)"
  by (simp add: fun_eq_iff links_def within_def)

interpretation links: frame "\<lambda>s t. linked s \<longrightarrow> linked t"
  by unfold_locales simp_all

lemmas links_frame [links_intros] =
  links.bnd [folded links_within] links.need [folded links_within] links.basic [folded links_within]

text \<open>Code that leaves the store alone.\<close>

definition storeless :: "('a vfs_scheme, 'b) prog \<Rightarrow> bool" where
  "storeless m \<longleftrightarrow> (\<forall>s. nodes (snd (m s)) = nodes s \<and> fresh (snd (m s)) = fresh s)"

lemma links_storeless: "storeless m \<Longrightarrow> links m"
  unfolding links_def storeless_def by (metis linked_same)

lemma storeless_basic: "storeless (set_err n)" "storeless (deref p)"
  by (simp_all add: storeless_def set_err_def deref_def split: option.split)

lemma storeless_open: "storeless (real_open fs path flags mode)" "storeless (new_fd nd realfd flags)"
  unfolding storeless_def real_open_def new_fd_run Let_def
  by (simp split: sum.split, simp split: option.split)

lemma storeless_trampoline:
  "storeless (trampoline jc want ns fname n vargs :: ('a vfs_scheme, int \<times> json) prog)"
proof -
  have "nodes t = nodes s \<and> fresh t = fresh s" if "rpc.more t = rpc.more s" for s t :: "'a vfs_scheme"
    using that by (cases s; cases t) simp
  then show ?thesis unfolding storeless_def using trampoline_more by blast
qed

lemmas links_basic [links_intros] = storeless_basic [THEN links_storeless]
  storeless_open [THEN links_storeless]
  storeless_trampoline [THEN links_storeless]

lemma links_for_each [links_intros]: "(\<And>x. links (f x)) \<Longrightarrow> links (for_each xs f)"
  by (induction xs) (auto intro!: links_intros)

section \<open>Every operation keeps it\<close>

text \<open>A change of a node that is not one of its children.\<close>

lemma linked_update:
  assumes "nodes s a = Some n" and "n_children n' = n_children n"
  shows "linked (s\<lparr>nodes := (nodes s)(a := Some n')\<rparr>) = linked s"
  by (rule linked_cong) (use assms in \<open>auto simp: kids_def\<close>)

lemma links_modify [links_intros]:
  assumes "\<And>n. n_children (f n) = n_children n"
  shows "links (modify a f)"
proof -
  have "linked (snd (modify a f s)) = linked s" for s :: "'a vfs_scheme"
    by (rule linked_cong) (auto simp: modify_def kids_def assms split: option.split)
  then show ?thesis by (simp add: links_def)
qed

text \<open>A new child in front of the others.\<close>

lemma linked_new:
  assumes l: "linked s" and "nodes s parent = Some pn" and "n_children n = []"
  shows "linked (s\<lparr>fresh := fresh s + 1,
    nodes := (nodes s)(fresh s \<mapsto> n, parent \<mapsto> pn\<lparr>n_children := fresh s # n_children pn\<rparr>)\<rparr>)"
    (is "linked ?t")
proof -
  have new: "nodes s (fresh s) = None" using l by (auto simp: linked_def)
  with assms(2) have ne: "parent \<noteq> fresh s" by auto
  have k: "kids ?t = (kids s)(parent := fresh s # kids s parent)"
    using assms(2,3) new ne by (auto simp: kids_def fun_eq_iff)
  have out: "fresh s \<notin> set (kids s a)" for a
    using l new by (metis linked_def)
  show ?thesis
    unfolding linked_def k using l out assms(2) ne by (auto simp: linked_def fun_upd_def)
qed

text \<open>Memory that \<open>malloc\<close> returns and that happens to hold no children.\<close>

definition bare :: "(nat \<Rightarrow> node) \<Rightarrow> bool" where
  "bare junk \<longleftrightarrow> (\<forall>a. n_children (junk a) = [])"

lemma links_alloc_child [links_intros]:
  assumes "bare junk"
  shows "links (alloc_child junk parent)"
  using assms unfolding links_def alloc_child_def bare_def
  by (auto simp: deref_def bnd_def intro!: linked_new [simplified] split: option.split)

text \<open>The child of the static node is freed.\<close>

lemma linked_free:
  assumes l: "linked s" and "nodes s proxy = Some p" and "n_children p = c # cs"
  shows "linked (s\<lparr>nodes := (nodes s)(c := None, proxy \<mapsto> p\<lparr>n_children := []\<rparr>)\<rparr>)" (is "linked ?t")
proof -
  have "kids s proxy = c # cs" using assms(2,3) by (simp add: kids_def)
  then have c: "2 \<le> c" "\<And>a. a \<noteq> proxy \<Longrightarrow> c \<notin> set (kids s a)"
    using l unfolding linked_def by (metis list.set_intros(1), metis disjoint_iff list.set_intros(1))
  then have ne: "c \<noteq> proxy" by (auto simp: proxy_def)
  have k: "kids ?t = (kids s)(proxy := [], c := [])"
    using ne by (auto simp: kids_def fun_eq_iff)
  show ?thesis
    unfolding linked_def k using l c ne assms(2) by (auto simp: linked_def)
qed

lemma fill_node_children: "fill_node jc fs json n = Inr n' \<Longrightarrow> n_children n' = n_children n"
proof -
  have f: "n_children (add_flag b f m) = n_children m" for b f m by (simp add: add_flag_def)
  have g: "n_children (node_filter jc json m) = n_children m" for m
    by (simp add: node_filter_def Let_def split: option.split)
  have p: "node_path jc fs json m = Inr m' \<Longrightarrow> n_children m' = n_children m" for m m'
    by (auto simp: node_path_def Let_def f split: option.splits sum.splits if_splits)
  show "fill_node jc fs json n = Inr n' \<Longrightarrow> n_children n' = n_children n"
    by (auto simp: fill_node_def Let_def f g dest!: p split: sum.splits)
qed

lemma links_fill:
  assumes "\<And>n. links (k n)"
  shows "links (bnd (deref (Some a)) (\<lambda>(_, n). case fill_node jc fs json n of
      Inl e \<Rightarrow> exit_with e | Inr n \<Rightarrow> bnd (modify a (\<lambda>_. n)) (\<lambda>_. k n)))"
    (is "links ?m")
  unfolding links_def
proof (intro allI impI)
  fix s :: "'a vfs_scheme"
  assume l: "linked s"
  show "linked (snd (?m s))"
  proof (cases "\<exists>n n'. nodes s a = Some n \<and> fill_node jc fs json n = Inr n'")
    case False
    with l show ?thesis by (auto simp: bnd_def deref_def split: option.split sum.split)
  next
    case True
    then obtain n n' where t: "nodes s a = Some n" "fill_node jc fs json n = Inr n'" by blast
    have "linked (s\<lparr>nodes := (nodes s)(a := Some n')\<rparr>)"
      using linked_update [OF t(1) fill_node_children [OF t(2)]] l by simp
    then show ?thesis
      using assms [of n'] t by (simp add: bnd_def deref_def modify_def links_def)
  qed
qed

lemma links_build_tree [links_intros]:
  assumes "bare junk"
  shows "links (build_tree fuel jc fs junk json parent :: ('a vfs_scheme, unit) prog)"
proof (induction fuel arbitrary: json parent)
  case 0
  show ?case by (auto intro!: links_intros)
next
  case (Suc fuel)
  show ?case
    by (auto intro!: links_intros links_fill assms Suc split: option.split)
qed

lemma links_load_tree [links_intros]:
  "bare junk \<Longrightarrow> links (load_tree jc fs junk out :: ('a vfs_scheme, unit) prog)"
  unfolding load_tree_def by (intro links_intros)

lemma links_find_child [links_intros]: "links (find_child name cs :: ('a vfs_scheme, nat option) prog)"
  by (induction cs) (auto intro!: links_intros)

lemma links_filter_allows [links_intros]: "links (filter_allows fs black name cells)"
  by (induction fs black name cells rule: filter_allows.induct) (auto intro!: links_intros)

lemma links_copy_filters [links_intros]: "links (copy_filters fs name cells)"
  by (auto simp: copy_filters_def Let_def intro!: links_intros)

lemma links_enter_real [links_intros]: "links (enter_real fs cur rp name)"
  by (auto simp: enter_real_def Let_def add_flag_def intro!: links_intros
      split: sum.split option.split prod.split)

lemma links_visit_real [links_intros]: "links (visit_real fs cur n rp name)"
  by (auto simp: visit_real_def intro!: links_intros split: sum.split option.split)

lemma links_free_proxied [links_intros]: "links free_proxied"
proof -
  have "linked (s\<lparr>nodes := (nodes s)(hd (n_children p) := None, proxy \<mapsto> p\<lparr>n_children := []\<rparr>)\<rparr>)"
    if "linked s" "nodes s proxy = Some p" "n_children p \<noteq> []" for s :: "'a vfs_scheme" and p
    using linked_free [OF that(1,2)] that(3) by (cases "n_children p") auto
  then show ?thesis
    by (auto simp: links_def free_proxied_def bnd_def deref_def split: option.split)
qed

lemma links_visit_proxied [links_intros]:
  "bare junk \<Longrightarrow> links (visit_proxied jc fs junk path n name)"
  unfolding visit_proxied_def
  by (auto intro!: links_intros split: prod.split simp del: build_tree.simps)

lemma links_visit_name [links_intros]:
  "bare junk \<Longrightarrow> links (visit_name jc fs junk path name cur)"
  by (auto simp: visit_name_def intro!: links_intros split: option.split prod.split)

lemma links_walk [links_intros]:
  "bare junk \<Longrightarrow> links (walk jc fs junk path names cur)"
  by (induction names arbitrary: cur) (auto intro!: links_intros split: visit.split)

lemma links_get_node [links_intros]:
  assumes "bare junk"
  shows "links (get_node jc fs junk path :: ('a vfs_scheme, nat option) prog)"
proof -
  have "linked s \<longrightarrow> linked (snd (get_node jc fs junk path s))" for path and s :: "'a vfs_scheme"
    using assms
  proof (induction jc fs junk path s rule: get_node.induct)
    case (1 jc fs junk path s)
    have w: "linked t \<Longrightarrow> linked (snd (walk jc fs junk p ns cur t))" for p ns cur and t :: "'a vfs_scheme"
      by (rule links_walk [unfolded links_def, rule_format]) (rule "1.prems", assumption)
    show ?case
    proof (cases "path \<noteq> [] \<and> hd path = slash")
      case True
      then show ?thesis by (subst get_node.simps) (simp add: w)
    next
      case False
      obtain r s1 where t: "trampoline jc True NS_SYS ''getcwd'' 0 [] s = (r, s1)"
        by (metis surj_pair)
      have l: "linked s \<longrightarrow> linked s1"
        using storeless_trampoline [THEN links_storeless] t unfolding links_def by (metis snd_conv)
      show ?thesis
        using False l t "1.IH" [OF False] "1.prems"
        by (subst get_node.simps)
           (auto simp: w split: outcome.split option.split prod.split, (metis snd_conv w)+)
    qed
  qed
  then show ?thesis by (simp add: links_def)
qed

lemma links_open_node [links_intros]:
  "bare junk \<Longrightarrow> links (open_node jc fs junk path flags mode)"
  unfolding open_node_def
  by (intro links_intros) (auto intro!: links_intros split: option.split)

lemma storeless_parent:
  "storeless (send_dgram send_ok d)" "storeless (recv_dgram n)" "storeless (kill_child r)" "storeless std_fds"
  by (simp_all add: storeless_def send_dgram_def recv_dgram_def kill_child_def std_fds_def Let_def
      split: list.split)

lemmas links_parent [links_intros] = storeless_parent [THEN links_storeless]

lemma links_turns:
  "bare junk \<Longrightarrow> parent_frame (\<lambda>s t. linked s \<longrightarrow> linked t) jc fs junk"
  by unfold_locales (rule links_intros [unfolded links_within], simp?)+

lemma links_serve:
  fixes s :: "'a parent_scheme"
  assumes "bare junk" and "serve jc fs junk at view send_ok s = (Ret Next, t)"
    and "linked s"
  shows "linked t"
proof -
  have "linked (set_header d (s\<lparr>sock_in := ds\<rparr>)) = linked s" for d ds
    by (rule linked_same) (simp_all add: set_header_def Let_def)
  with parent_frame.serves [OF links_turns [OF assms(1)] assms(2)] assms(3) show ?thesis by blast
qed

lemma links_start_up:
  "bare junk \<Longrightarrow> links (start_up jc fs junk unset send_ok)"
  unfolding start_up_def
  by (auto intro!: links_intros simp del: build_tree.simps)

lemma links_served:
  fixes s t :: "'a parent_scheme"
  assumes "served jc fs junk at view send_ok s t" and "bare junk" and "linked s"
  shows "linked t"
  using assms(1)
proof (induction rule: served.induct)
  case (turn t u)
  then show ?case using links_serve [OF assms(2)] by blast
next
  case (child_sends t ds)
  moreover have "linked (t\<lparr>sock_in := sock_in t @ ds\<rparr>) = linked t" by (rule linked_same) simp_all
  ultimately show ?case by simp
next
  case (overall_parent_sends t line)
  moreover have "linked (t\<lparr>pipe_in := pipe_in t @ line\<rparr>) = linked t" by (rule linked_same) simp_all
  ultimately show ?case by simp
qed (rule assms(3))

section \<open>Properties\<close>


text \<open>Start-up with one node in the description.\<close>

definition tree_replies :: "string \<Rightarrow> json" where
  "tree_replies l = JObject [(''result'', JObject [(''code'', JInt 0), (''data'',
     if l = ''l'' @ [newline] then JObject [(''mem'', JInt 1000), (''cpu'', JInt 5)]
     else if l = ''f'' @ [newline] then JArray [JObject [(''name'', JString ''tmp'')]]
     else JString ''/usr/bin/python'')])]"

lemma tree_start_up:
  "\<exists>p'. start_up (json_c_with tree_replies) demo_fs (\<lambda>_. zero_node) 7 (\<lambda>_. True) starting_parent =
     (Ret (Inr ()), p') \<and> (\<exists>n. nodes p' root = Some n \<and> 2 \<in> set (n_children n))"
  by (simp add: start_up_def bnd_def trampoline_def ns_prefix_def call_args_def writejson_def
      readjson_def fgets_def handle_response_def decode_data_def json_c_with_def tree_replies_def
      opt_json_def starting_parent_def waiting_parent_def vfs.defs boot_def clamp_def Let_def
      send_dgram_def modify_def load_tree_def std_fds_def cstr_def alloc_child_def deref_def fill_node_def
      node_path_def node_filter_def bool_member_def add_flag_def c_string_def zero_node_def root_def proxy_def)

lemma starting_linked: "linked starting_parent"
  by (simp add: linked_def kids_def starting_parent_def waiting_parent_def vfs.defs boot_def zero_node_def
      root_def proxy_def)


end
