(* ===== verification/Child.thy ===== *)
theory Child
  imports Parent Seccomp
begin

text \<open>
  \<open>run_child\<close> (\<open>sandbox-child.c\<close>), which limits the process, loads the filter and starts python.
\<close>

section \<open>Starting up\<close>

text \<open>
  The calls \<open>run_child\<close> makes, in their order. What a call answers is a parameter, a function of
  all the calls so far, this one included: the value of a call that gives an integer, 0 for a null
  pointer. The socket holds what its reads will give: a datagram, or a failure.
\<close>

datatype resource = RLIMIT_AS | RLIMIT_CORE | RLIMIT_CPU

datatype child_event =
    Set_limit resource "64 word"
  | Set_handler
  | Filter_init
  | Filter_rule rule
  | Filter_load
  | Find_enable_sandbox
  | Enable_sandbox
  | Set_program_name string
  | Py_initialize
  | Open_file string
  | Run_file string
  | Import_sandbox
  | Find_complete_init
  | Call_complete_init
  | Py_finalize

record child =
  events :: "child_event list"
  c_in :: "byte list option list"

text \<open>How it ends early: at the label \<open>cleanup\<close> with a value of \<open>ret\<close>, or in a read that waits.\<close>

datatype stop = Cleanup int | Blocked

definition andthen ::
  "('s, stop + 'a) prog \<Rightarrow> ('a \<Rightarrow> ('s, stop + 'b) prog) \<Rightarrow> ('s, stop + 'b) prog" where
  "andthen m f = bnd m (\<lambda>x. case x of Inl e \<Rightarrow> ret (Inl e) | Inr a \<Rightarrow> f a)"

definition act :: "(child_event list \<Rightarrow> int) \<Rightarrow> child_event \<Rightarrow> ('a child_scheme, int) prog" where
  "act ans e s = (Ret (ans (events s @ [e])), s\<lparr>events := events s @ [e]\<rparr>)"

definition goto_cleanup :: "int \<Rightarrow> ('s, stop + 'a) prog" where
  "goto_cleanup r = ret (Inl (Cleanup r))"

definition attempt :: "(child_event list \<Rightarrow> int) \<Rightarrow> child_event \<Rightarrow> ('a child_scheme, stop + int) prog" where
  "attempt ans e = bnd (act ans e) (\<lambda>r. if r < 0 then goto_cleanup r else ret (Inr r))"

text \<open>A pointer is needed; \<open>r\<close> is the value of \<open>ret\<close> otherwise.\<close>

definition pointer ::
  "(child_event list \<Rightarrow> int) \<Rightarrow> child_event \<Rightarrow> int \<Rightarrow> ('a child_scheme, stop + int) prog" where
  "pointer ans e r = bnd (act ans e) (\<lambda>p. if p = 0 then goto_cleanup r else ret (Inr r))"

definition sock_read :: "nat \<Rightarrow> ('a child_scheme, stop + (int \<times> byte list)) prog" where
  "sock_read n s =
    (case c_in s of
       [] \<Rightarrow> (Ret (Inl Blocked), s)
     | None # ds \<Rightarrow> (Ret (Inr (-1, [])), s\<lparr>c_in := ds\<rparr>)
     | Some d # ds \<Rightarrow> (Ret (Inr (int (min n (length d)), take n d)), s\<lparr>c_in := ds\<rparr>))"

definition limit_or :: "64 word \<Rightarrow> byte list \<Rightarrow> 64 word" where
  "limit_or dflt bs = (let v = word_of_nat (le_nat bs) in if v = 0 then dflt else v)"

definition get_limits :: "('a child_scheme, stop + (64 word \<times> 64 word)) prog" where
  "get_limits = andthen (sock_read 16) (\<lambda>(r, bs).
     if r \<noteq> 16 then goto_cleanup r
     else ret (Inr (limit_or 209715200 (take 8 bs), limit_or 5 (drop 8 bs))))"

fun add_rules :: "(child_event list \<Rightarrow> int) \<Rightarrow> rule list \<Rightarrow> ('a child_scheme, stop + int) prog" where
  "add_rules ans [] = ret (Inr 0)"
| "add_rules ans (r # rs) = andthen (attempt ans (Filter_rule r)) (\<lambda>_. add_rules ans rs)"

definition confine ::
  "(child_event list \<Rightarrow> int) \<Rightarrow> rule list \<Rightarrow> 64 word \<Rightarrow> 64 word \<Rightarrow> ('a child_scheme, stop + int) prog" where
  "confine ans rules mem cpu =
    andthen (attempt ans (Set_limit RLIMIT_AS mem)) (\<lambda>_.
    andthen (attempt ans (Set_limit RLIMIT_CORE 0)) (\<lambda>_.
    andthen (attempt ans (Set_limit RLIMIT_CPU cpu)) (\<lambda>r.
    andthen (bnd (act ans Set_handler) (\<lambda>_. ret (Inr r))) (\<lambda>r.
    andthen (pointer ans Filter_init r) (\<lambda>_.
    andthen (add_rules ans rules) (\<lambda>_.
    andthen (attempt ans Filter_load) (\<lambda>_.
    andthen (pointer ans Find_enable_sandbox (-1)) (\<lambda>_.
    bnd (act ans Enable_sandbox) (\<lambda>_. ret (Inr 0))))))))))"

text \<open>
  The path of python: the length in one read, the bytes in another, the last of them replaced by
  the NUL. \<open>mbs\<close> is \<open>mbstowcs\<close> for a null pointer or room for a number of wide characters.
\<close>

definition get_path ::
  "(string \<Rightarrow> nat option \<Rightarrow> int) \<Rightarrow> ('a child_scheme, stop + string) prog" where
  "get_path mbs =
    andthen (sock_read 4) (\<lambda>(r, bs).
    let vpathsz = sint (bytes_word bs) in
    if r \<noteq> 4 \<or> vpathsz \<le> 0 then goto_cleanup r
    else andthen (sock_read (nat vpathsz)) (\<lambda>(r, bs).
      if r \<noteq> vpathsz then goto_cleanup r
      else
        let vpath = cstr (map char_of_byte (bs[nat vpathsz - 1 := 0]));
            programlen = nat ((mbs vpath None + 1) mod 2 ^ 64)
        in if mbs vpath (Some programlen) = -1 then goto_cleanup (-1) else ret (Inr vpath)))"

definition run_init :: "(child_event list \<Rightarrow> int) \<Rightarrow> ('a child_scheme, stop + int) prog" where
  "run_init ans =
    bnd (act ans (Open_file ''init.py'')) (\<lambda>f.
    if f = 0 then ret (Inr 0)
    else bnd (act ans (Run_file ''init.py'')) (\<lambda>r. if r \<noteq> 0 then goto_cleanup r else ret (Inr r)))"

text \<open>\<open>errno\<close> after an unsuccessful \<open>fopen\<close> is \<open>err\<close> of the calls so far.\<close>

definition run_main ::
  "(child_event list \<Rightarrow> int) \<Rightarrow> (child_event list \<Rightarrow> int) \<Rightarrow> ('a child_scheme, stop + int) prog" where
  "run_main ans err =
    bnd (act ans (Open_file ''main.py'')) (\<lambda>f.
    if f = 0 then (\<lambda>s. goto_cleanup (err (events s)) s)
    else bnd (act ans (Run_file ''main.py'')) (\<lambda>r. ret (Inr r)))"

definition start_python ::
  "(child_event list \<Rightarrow> int) \<Rightarrow> (child_event list \<Rightarrow> int) \<Rightarrow> string \<Rightarrow> ('a child_scheme, stop + int) prog" where
  "start_python ans err vpath =
    bnd (act ans (Set_program_name vpath)) (\<lambda>_.
    bnd (act ans Py_initialize) (\<lambda>_.
    andthen (run_init ans) (\<lambda>_.
    andthen (pointer ans Import_sandbox (-1)) (\<lambda>_.
    andthen (pointer ans Find_complete_init (-1)) (\<lambda>_.
    andthen (pointer ans Call_complete_init (-1)) (\<lambda>_.
    run_main ans err))))))"

definition child_body ::
  "(child_event list \<Rightarrow> int) \<Rightarrow> (child_event list \<Rightarrow> int) \<Rightarrow> (string \<Rightarrow> nat option \<Rightarrow> int) \<Rightarrow> rule list \<Rightarrow>
   ('a child_scheme, stop + int) prog" where
  "child_body ans err mbs rules =
    andthen get_limits (\<lambda>(mem, cpu).
    andthen (confine ans rules mem cpu) (\<lambda>_.
    andthen (get_path mbs) (start_python ans err)))"

text \<open>\<open>None\<close> when a read waits for ever.\<close>

definition run_child ::
  "(child_event list \<Rightarrow> int) \<Rightarrow> (child_event list \<Rightarrow> int) \<Rightarrow> (string \<Rightarrow> nat option \<Rightarrow> int) \<Rightarrow> rule list \<Rightarrow>
   ('a child_scheme, int option) prog" where
  "run_child ans err mbs rules =
    bnd (child_body ans err mbs rules) (\<lambda>x.
    case x of
      Inl Blocked \<Rightarrow> ret None
    | Inl (Cleanup r) \<Rightarrow> bnd (act ans Py_finalize) (\<lambda>_. ret (Some (- r)))
    | Inr r \<Rightarrow> bnd (act ans Py_finalize) (\<lambda>_. ret (Some (- r))))"

section \<open>Calls in a fixed order\<close>

text \<open>
  Code that makes the calls of a list in their order: it has made all of them when it goes on, and
  some first part of them when it does not.
\<close>

named_theorems script_intros \<open>calls in a fixed order, by the structure of the program\<close>

definition scripted :: "child_event list \<Rightarrow> ('a child_scheme, stop + 'b) prog \<Rightarrow> bool" where
  "scripted es m \<longleftrightarrow> (\<forall>s. \<exists>x k s'. m s = (Ret x, s') \<and> c_in s' = c_in s \<and>
     events s' = events s @ take k es \<and> k \<le> length es \<and> ((\<exists>a. x = Inr a) \<longrightarrow> k = length es))"

lemma scriptedE:
  assumes "scripted es m"
  obtains x k s' where "m s = (Ret x, s')" "c_in s' = c_in s" "events s' = events s @ take k es"
    "k \<le> length es" "\<And>a. x = Inr a \<Longrightarrow> k = length es"
  using assms unfolding scripted_def by meson

lemma andthen_Inl [simp]: "m s = (Ret (Inl e), s') \<Longrightarrow> andthen m f s = (Ret (Inl e), s')"
  by (simp add: andthen_def)

lemma andthen_Inr [simp]: "m s = (Ret (Inr a), s') \<Longrightarrow> andthen m f s = f a s'"
  by (simp add: andthen_def)

lemma andthen_run:
  "m s = (Ret x, s1) \<Longrightarrow>
   andthen m f s = (case x of Inl e \<Rightarrow> (Ret (Inl e), s1) | Inr a \<Rightarrow> f a s1)"
  by (simp split: sum.split)

lemma scripted_andthen [script_intros]:
  assumes "scripted es m" and "\<And>a. scripted fs (f a)"
  shows "scripted (es @ fs) (andthen m f)"
  unfolding scripted_def
proof
  fix s
  obtain x k s1 where m: "m s = (Ret x, s1)" "c_in s1 = c_in s" "events s1 = events s @ take k es"
    "k \<le> length es" "\<And>a. x = Inr a \<Longrightarrow> k = length es"
    by (rule scriptedE [OF assms(1), of s]) blast
  show "\<exists>x k s'. andthen m f s = (Ret x, s') \<and> c_in s' = c_in s \<and>
     events s' = events s @ take k (es @ fs) \<and> k \<le> length (es @ fs) \<and>
     ((\<exists>a. x = Inr a) \<longrightarrow> k = length (es @ fs))"
  proof (cases x)
    case (Inl e)
    with m show ?thesis by (intro exI [of _ "Inl e"] exI [of _ k] exI [of _ s1]) simp
  next
    case (Inr a)
    obtain y j s2 where f: "f a s1 = (Ret y, s2)" "c_in s2 = c_in s1"
      "events s2 = events s1 @ take j fs" "j \<le> length fs" "\<And>b. y = Inr b \<Longrightarrow> j = length fs"
      by (rule scriptedE [OF assms(2), of a s1]) blast
    from m(5) [OF Inr] m(1-3) f Inr show ?thesis
      by (intro exI [of _ y] exI [of _ "length es + j"] exI [of _ s2]) auto
  qed
qed

lemma scripted_attempt [script_intros]: "scripted [e] (attempt ans e)"
  unfolding scripted_def attempt_def goto_cleanup_def bnd_def act_def
  by (auto intro!: exI [of _ 1])

lemma scripted_pointer [script_intros]: "scripted [e] (pointer ans e r)"
  unfolding scripted_def pointer_def goto_cleanup_def bnd_def act_def
  by (auto intro!: exI [of _ 1])

lemma scripted_act [script_intros]: "scripted [e] (bnd (act ans e) (\<lambda>_. ret (Inr r)))"
  unfolding scripted_def bnd_def act_def by (auto intro!: exI [of _ 1])

lemma scripted_ret: "scripted [] (Pair (Ret (Inr r)))" "scripted [] (ret (Inr r))"
  by (simp_all add: scripted_def)

lemma scripted_rules [script_intros]: "scripted (map Filter_rule rules) (add_rules ans rules)"
proof (induction rules)
  case (Cons r rs)
  from scripted_andthen [OF scripted_attempt Cons] show ?case by simp
qed (simp add: scripted_ret)

definition confinement :: "rule list \<Rightarrow> 64 word \<Rightarrow> 64 word \<Rightarrow> child_event list" where
  "confinement rules mem cpu =
    [Set_limit RLIMIT_AS mem] @ [Set_limit RLIMIT_CORE 0] @ [Set_limit RLIMIT_CPU cpu] @
    [Set_handler] @ [Filter_init] @ map Filter_rule rules @ [Filter_load] @
    [Find_enable_sandbox] @ [Enable_sandbox]"

lemma scripted_confine: "scripted (confinement rules mem cpu) (confine ans rules mem cpu)"
  unfolding confinement_def confine_def by (intro script_intros)

text \<open>Code that returns and only adds to the calls made.\<close>

named_theorems append_intros \<open>code that only adds calls, by the structure of the program\<close>

definition appends :: "('a child_scheme, 'b) prog \<Rightarrow> bool" where
  "appends m \<longleftrightarrow> (\<forall>s. \<exists>x s' es. m s = (Ret x, s') \<and> events s' = events s @ es)"

lemma appends_bnd [append_intros]:
  assumes "appends m" and "\<And>a. appends (f a)"
  shows "appends (bnd m f)"
  unfolding appends_def
proof
  fix s
  obtain a s1 es where "m s = (Ret a, s1)" "events s1 = events s @ es"
    using assms(1) by (meson appends_def)
  moreover obtain b s2 fs where "f a s1 = (Ret b, s2)" "events s2 = events s1 @ fs"
    using assms(2) by (meson appends_def)
  ultimately show "\<exists>x s' es. bnd m f s = (Ret x, s') \<and> events s' = events s @ es" by simp
qed

lemma appends_ret [append_intros]: "appends (ret a)" "appends (goto_cleanup r)"
  "appends (\<lambda>s. goto_cleanup (err (events s)) s)"
  by (simp_all add: appends_def goto_cleanup_def)

lemma appends_act [append_intros]: "appends (act ans e)"
  by (simp add: appends_def act_def)

lemma appends_read [append_intros]: "appends (sock_read n)"
  by (auto simp: appends_def sock_read_def split: list.split option.split)

lemma appends_if [append_intros]: "appends m \<Longrightarrow> appends m' \<Longrightarrow> appends (if b then m else m')"
  by simp

lemma appends_andthen [append_intros]:
  "appends m \<Longrightarrow> (\<And>a. appends (f a)) \<Longrightarrow> appends (andthen m f)"
  unfolding andthen_def by (intro appends_bnd) (auto simp: append_intros split: sum.split)

lemma appends_pointer [append_intros]: "appends (pointer ans e r)"
  unfolding pointer_def by (intro append_intros)

lemma appends_path [append_intros]: "appends (get_path mbs)"
  unfolding get_path_def Let_def by (intro append_intros) (auto intro!: append_intros)

lemma appends_python [append_intros]: "appends (start_python ans err vpath)"
  unfolding start_python_def run_init_def run_main_def by (intro append_intros)

lemma limit_or_nonzero: "d \<noteq> 0 \<Longrightarrow> limit_or d bs \<noteq> 0"
  by (simp add: limit_or_def Let_def)

lemma get_limits_run:
  "(\<exists>e s'. get_limits s = (Ret (Inl e), s') \<and> events s' = events s) \<or>
   (\<exists>mem cpu s'. get_limits s = (Ret (Inr (mem, cpu)), s') \<and> events s' = events s \<and>
     mem \<noteq> 0 \<and> cpu \<noteq> 0)"
  by (auto simp: get_limits_def sock_read_def andthen_def bnd_def goto_cleanup_def limit_or_nonzero
      split: list.splits option.splits)

text \<open>What the calls of \<open>run_child\<close> answer when nothing goes wrong.\<close>

definition is_pointer :: "child_event \<Rightarrow> bool" where
  "is_pointer e \<longleftrightarrow> e \<in> {Filter_init, Find_enable_sandbox, Open_file ''init.py'', Open_file ''main.py'',
     Import_sandbox, Find_complete_init, Call_complete_init}"

definition goes_well :: "(child_event list \<Rightarrow> int) \<Rightarrow> bool" where
  "goes_well ans \<longleftrightarrow> (\<forall>h e. (is_pointer e \<longrightarrow> ans (h @ [e]) \<noteq> 0) \<and>
     (\<not> is_pointer e \<and> (\<forall>f. e \<noteq> Run_file f) \<longrightarrow> ans (h @ [e]) \<ge> 0) \<and>
     (e = Run_file ''init.py'' \<longrightarrow> ans (h @ [e]) = 0))"

lemma goes_well_act:
  assumes "goes_well ans"
  shows "is_pointer e \<Longrightarrow> pointer ans e r s = (Ret (Inr r), s\<lparr>events := events s @ [e]\<rparr>)"
    and "\<not> is_pointer e \<Longrightarrow> (\<And>f. e \<noteq> Run_file f) \<Longrightarrow>
      attempt ans e s = (Ret (Inr (ans (events s @ [e]))), s\<lparr>events := events s @ [e]\<rparr>)"
proof -
  show "pointer ans e r s = (Ret (Inr r), s\<lparr>events := events s @ [e]\<rparr>)" if "is_pointer e"
    using assms that by (simp add: goes_well_def pointer_def bnd_def act_def)
  show "attempt ans e s = (Ret (Inr (ans (events s @ [e]))), s\<lparr>events := events s @ [e]\<rparr>)"
    if "\<not> is_pointer e" "\<And>f. e \<noteq> Run_file f"
  proof -
    have "0 \<le> ans (events s @ [e])" using assms that by (simp add: goes_well_def)
    then show ?thesis by (simp add: attempt_def bnd_def act_def)
  qed
qed

lemma add_rules_well:
  assumes "goes_well ans"
  shows "\<exists>r. add_rules ans rules s = (Ret (Inr r), s\<lparr>events := events s @ map Filter_rule rules\<rparr>)"
proof (induction rules arbitrary: s)
  case (Cons r rs)
  have "attempt ans (Filter_rule r) s = (Ret (Inr (ans (events s @ [Filter_rule r]))),
      s\<lparr>events := events s @ [Filter_rule r]\<rparr>)"
    by (rule goes_well_act(2) [OF assms]) (simp_all add: is_pointer_def)
  with Cons [of "s\<lparr>events := events s @ [Filter_rule r]\<rparr>"] show ?case by simp
qed simp

lemma confine_well:
  assumes "goes_well ans"
  shows "confine ans rules mem cpu s =
    (Ret (Inr 0), s\<lparr>events := events s @ confinement rules mem cpu\<rparr>)"
proof -
  let ?s = "s\<lparr>events := events s @ [Set_limit RLIMIT_AS mem, Set_limit RLIMIT_CORE 0,
    Set_limit RLIMIT_CPU cpu, Set_handler, Filter_init]\<rparr>"
  from add_rules_well [OF assms, of rules ?s] obtain r where
    "add_rules ans rules ?s = (Ret (Inr r), ?s\<lparr>events := events ?s @ map Filter_rule rules\<rparr>)" by blast
  then show ?thesis
    unfolding confine_def confinement_def
    by (simp add: goes_well_act [OF assms] is_pointer_def bnd_def [of "act _ _"] act_def)
qed

section \<open>Properties of start-up\<close>

text \<open>What the calls of the body are: a first part of the confinement, or all of it and then more.\<close>

lemma child_body_calls:
  "\<exists>x t mem cpu k rest. child_body ans err mbs rules s = (Ret x, t) \<and> mem \<noteq> 0 \<and> cpu \<noteq> 0 \<and>
    events t = events s @ take k (confinement rules mem cpu) @ rest \<and>
    (k = length (confinement rules mem cpu) \<or> rest = [])"
proof -
  consider (none) e s1 where "get_limits s = (Ret (Inl e), s1)" "events s1 = events s"
    | (some) mem cpu s1 where "get_limits s = (Ret (Inr (mem, cpu)), s1)" "events s1 = events s"
        "mem \<noteq> 0" "cpu \<noteq> 0"
    using get_limits_run [of s] by blast
  then show ?thesis
  proof cases
    case none
    then have "child_body ans err mbs rules s = (Ret (Inl e), s1)" by (simp add: child_body_def)
    with none(2) show ?thesis
      by (intro exI [of _ "Inl e"] exI [of _ s1] exI [of _ 1] exI [of _ 0] exI [of _ "[]"]) simp
  next
    case some
    obtain x k s2 where c: "confine ans rules mem cpu s1 = (Ret x, s2)"
      "events s2 = events s1 @ take k (confinement rules mem cpu)"
      "\<And>a. x = Inr a \<Longrightarrow> k = length (confinement rules mem cpu)"
      by (rule scriptedE [OF scripted_confine, of ans rules mem cpu s1]) blast
    have b: "child_body ans err mbs rules s =
      (case x of Inl e \<Rightarrow> (Ret (Inl e), s2) | Inr a \<Rightarrow> andthen (get_path mbs) (start_python ans err) s2)"
      using some(1) c(1) by (simp add: child_body_def split: sum.split)
    have "appends (andthen (get_path mbs) (start_python ans err) :: ('a child_scheme, stop + int) prog)"
      by (intro append_intros)
    then obtain y s3 es where p: "andthen (get_path mbs) (start_python ans err) s2 = (Ret y, s3)"
      "events s3 = events s2 @ es" by (meson appends_def)
    show ?thesis
    proof (cases x)
      case (Inl e)
      with b c(2) some show ?thesis by (metis append_Nil2 sum.simps(5))
    next
      case (Inr a)
      with b p(1) have "child_body ans err mbs rules s = (Ret y, s3)" by simp
      moreover have "events s3 = events s @ take k (confinement rules mem cpu) @ es"
        using some(2) c(2) p(2) by simp
      ultimately show ?thesis using c(3) [OF Inr] some(3,4) by blast
    qed
  qed
qed

lemma run_child_ends:
  assumes "child_body ans err mbs rules s = (Ret x, t)"
  shows "\<exists>v s' es. run_child ans err mbs rules s = (Ret v, s') \<and> events s' = events t @ es \<and>
    set es \<subseteq> {Py_finalize}"
  using assms by (auto simp: run_child_def bnd_def act_def split: sum.split stop.split)


text \<open>The path of python, sent as the length and the path, each in its own datagram.\<close>

definition python_run :: "string \<Rightarrow> child_event list" where
  "python_run vpath = [Set_program_name vpath, Py_initialize, Open_file ''init.py'',
     Run_file ''init.py'', Import_sandbox, Find_complete_init, Call_complete_init,
     Open_file ''main.py'']"

lemma goes_well_answers:
  assumes "goes_well ans"
  shows "is_pointer e \<Longrightarrow> ans (h @ [e]) \<noteq> 0" "ans (h @ [Run_file ''init.py'']) = 0"
  using assms by (simp_all add: goes_well_def)

lemma run_init_well:
  "goes_well ans \<Longrightarrow> run_init ans s =
    (Ret (Inr 0), s\<lparr>events := events s @ [Open_file ''init.py'', Run_file ''init.py'']\<rparr>)"
  using goes_well_answers(1) [of ans "Open_file ''init.py''" "events s"]
    goes_well_answers(2) [of ans "events s @ [Open_file ''init.py'']"]
  by (simp add: run_init_def bnd_def act_def is_pointer_def)

lemma run_main_well:
  "goes_well ans \<Longrightarrow> run_main ans err s =
    (Ret (Inr (ans (events s @ [Open_file ''main.py'', Run_file ''main.py'']))),
     s\<lparr>events := events s @ [Open_file ''main.py'', Run_file ''main.py'']\<rparr>)"
  using goes_well_answers(1) [of ans "Open_file ''main.py''" "events s"]
  by (simp add: run_main_def bnd_def act_def is_pointer_def)

lemma start_python_well:
  assumes "goes_well ans"
  shows "start_python ans err vpath s =
    (Ret (Inr (ans (events s @ python_run vpath @ [Run_file ''main.py'']))),
     s\<lparr>events := events s @ python_run vpath @ [Run_file ''main.py'']\<rparr>)"
  by (simp add: start_python_def bnd_def [of "act _ _"] act_def run_init_well [OF assms]
      run_main_well [OF assms] goes_well_act(1) [OF assms] is_pointer_def python_run_def)

lemma get_limits_well:
  "c_in s = Some d # ds \<Longrightarrow> length d = 16 \<Longrightarrow> get_limits s =
    (Ret (Inr (limit_or 209715200 (take 8 d), limit_or 5 (drop 8 d))), s\<lparr>c_in := ds\<rparr>)"
  by (simp add: get_limits_def sock_read_def andthen_def bnd_def)

lemma child_confined_well:
  assumes "goes_well ans" and "c_in s = Some lim # ds" and "length lim = 16"
  shows "child_body ans err mbs rules s = andthen (get_path mbs) (start_python ans err)
    (s\<lparr>c_in := ds, events := events s @
       confinement rules (limit_or 209715200 (take 8 lim)) (limit_or 5 (drop 8 lim))\<rparr>)"
  by (simp add: child_body_def get_limits_well [OF assms(2,3)] confine_well [OF assms(1)])

text \<open>The string the child makes of the bytes it reads: without the last one.\<close>

definition path_read :: "byte list \<Rightarrow> string" where
  "path_read bs = cstr (map char_of_byte (butlast bs))"

lemma cstr_trailing_nul: "cstr (p @ [CHR 0x00]) = cstr p"
  unfolding cstr_def by (induction p) simp_all

lemma path_read:
  assumes "bs \<noteq> []"
  shows "cstr (map char_of_byte (bs[length bs - 1 := 0])) = path_read bs"
proof -
  have "bs[length bs - 1 := 0] = butlast bs @ [0]"
    using assms by (metis append_butlast_last_id length_butlast list_update_length)
  moreover have "char_of_byte 0 = CHR 0x00" by (simp add: char_of_byte_def char_of_def)
  ultimately show ?thesis by (simp add: path_read_def cstr_trailing_nul)
qed

lemma size_read: "0 < n \<Longrightarrow> n < 2 ^ 31 \<Longrightarrow> sint (bytes_word (le_bytes 4 (int n))) = int n"
proof -
  assume n: "0 < n" "n < 2 ^ 31"
  then have "le_nat (le_bytes 4 (int n)) = n" by (intro le_nat_of_nat) simp
  with n show ?thesis by (simp add: bytes_word_def signed_of_nat signed_take_bit_int_eq_self)
qed

lemma get_path_well:
  assumes "c_in s = Some (le_bytes 4 (int (length path))) # Some path # ds"
    and "path \<noteq> []" and "length path < 2 ^ 31" and "\<And>v. mbs (path_read path) v \<noteq> -1"
  shows "get_path mbs s = (Ret (Inr (path_read path)), s\<lparr>c_in := ds\<rparr>)"
  using assms size_read [of "length path"] path_read [of path]
  by (simp add: get_path_def sock_read_def andthen_def bnd_def Let_def)

text \<open>
  C13. If the limits come as sixteen bytes, the length of the path and the path as a datagram each,
  and no call fails, \<open>run_child\<close> confines the process, starts python and returns the negated
  result of \<open>main.py\<close>; a limit of 0 stands for the default. The name python is given is the path
  without its last byte: the child puts the NUL there, and the parent sends none.
\<close>

theorem child_runs:
  assumes "goes_well ans" and "length lim = 16" and "path \<noteq> []" and "length path < 2 ^ 31"
    and "c_in s = [Some lim, Some (le_bytes 4 (int (length path))), Some path]"
    and "\<And>v. mbs (path_read path) v \<noteq> -1"
  shows "\<exists>s' made. run_child ans err mbs rules s = (Ret (Some (- ans (events s @ made))), s') \<and>
    events s' = events s @ made @ [Py_finalize] \<and>
    made = confinement rules (limit_or 209715200 (take 8 lim)) (limit_or 5 (drop 8 lim)) @
      python_run (path_read path) @ [Run_file ''main.py'']"
proof -
  let ?conf = "confinement rules (limit_or 209715200 (take 8 lim)) (limit_or 5 (drop 8 lim))"
  let ?t = "s\<lparr>c_in := [Some (le_bytes 4 (int (length path))), Some path], events := events s @ ?conf\<rparr>"
  have "get_path mbs ?t = (Ret (Inr (path_read path)), ?t\<lparr>c_in := []\<rparr>)"
    by (rule get_path_well) (use assms(3,4,6) in simp_all)
  then have "child_body ans err mbs rules s =
    (Ret (Inr (ans (events s @ ?conf @ python_run (path_read path) @ [Run_file ''main.py'']))),
     ?t\<lparr>c_in := [], events := events s @ ?conf @ python_run (path_read path) @ [Run_file ''main.py'']\<rparr>)"
    using child_confined_well [OF assms(1,5,2)] by (simp add: start_python_well [OF assms(1)])
  then show ?thesis by (simp add: run_child_def bnd_def act_def)
qed

text \<open>A system on which every call succeeds and \<open>main.py\<close> gives 3.\<close>

definition fair_system :: "child_event list \<Rightarrow> int" where
  "fair_system h = (if is_pointer (last h) then 1 else if last h = Run_file ''main.py'' then 3 else 0)"

lemma fair_system: "goes_well fair_system"
  by (simp add: goes_well_def fair_system_def is_pointer_def)

definition demo_path :: "byte list" where
  "demo_path = map byte_of_char ''/py''"

lemma demo_path: "path_read demo_path = ''/p''" "demo_path \<noteq> []" "length demo_path = 3"
  by (simp_all add: path_read_def demo_path_def cstr_def)

definition demo_child :: "byte list list \<Rightarrow> child" where
  "demo_child ds = \<lparr>events = [], c_in = map Some (replicate 16 0 # ds)\<rparr>"

theorem child_runs_witness:
  "\<exists>s'. run_child fair_system (\<lambda>_. 0) (\<lambda>_ _. 2) [] (demo_child [le_bytes 4 3, demo_path]) =
     (Ret (Some (- 3)), s') \<and> Set_program_name ''/p'' \<in> set (events s')"
proof -
  let ?s = "demo_child [le_bytes 4 3, demo_path]"
  have "c_in ?s = [Some (replicate 16 0), Some (le_bytes 4 (int (length demo_path))), Some demo_path]"
    and "events ?s = []"
    by (simp_all add: demo_child_def demo_path)
  from child_runs [OF fair_system _ _ _ this(1), of "\<lambda>_ _. 2" "\<lambda>_. 0" "[]"] this(2)
  obtain s' made where "run_child fair_system (\<lambda>_. 0) (\<lambda>_ _. 2) [] ?s = (Ret (Some (- fair_system made)), s')"
    "events s' = made @ [Py_finalize]" and m: "\<exists>conf. made = conf @ python_run ''/p'' @ [Run_file ''main.py'']"
    by (auto simp: demo_path)
  moreover from m have "fair_system made = 3" by (auto simp: fair_system_def is_pointer_def)
  moreover from m have "Set_program_name ''/p'' \<in> set made" by (auto simp: python_run_def)
  ultimately show ?thesis by simp
qed

text \<open>
  C38. The parent sends the length and the path in one datagram. The child reads the length, which
  drops the rest of the datagram, and then waits for bytes that are gone: it ends up confined, with
  no code of python run, and never goes on.
\<close>

theorem path_never_received:
  assumes "goes_well ans" and "length lim = 16" and "0 < get_string_len jc out"
    and "get_string_len jc out < 2 ^ 31" and "c_in s = [Some lim, Some (path_dgram jc out)]"
  shows "\<exists>s'. run_child ans err mbs rules s = (Ret None, s') \<and> c_in s' = [] \<and>
    events s' = events s @
      confinement rules (limit_or 209715200 (take 8 lim)) (limit_or 5 (drop 8 lim))"
proof -
  have d: "take 4 (path_dgram jc out) = le_bytes 4 (int (get_string_len jc out))"
    "4 \<le> length (path_dgram jc out)"
    by (simp_all add: path_dgram_def Let_def)
  show ?thesis
    using child_confined_well [OF assms(1,5,2)] d size_read [OF assms(3,4)] assms(3)
    by (simp add: run_child_def get_path_def sock_read_def andthen_def bnd_def Let_def)
qed

theorem path_never_received_witness:
  "\<exists>s'. run_child fair_system (\<lambda>_. 0) (\<lambda>_ _. 2) []
      (demo_child [path_dgram (json_c_with (\<lambda>_. JNull)) (JString ''/py'')]) = (Ret None, s') \<and>
    Py_initialize \<notin> set (events s')"
proof -
  let ?d = "path_dgram (json_c_with (\<lambda>_. JNull)) (JString ''/py'')"
  have "c_in (demo_child [?d]) = [Some (replicate 16 0), Some ?d]" "events (demo_child [?d]) = []"
    by (simp_all add: demo_child_def)
  with path_never_received [OF fair_system _ _ _ this(1), of "\<lambda>_. 0" "\<lambda>_ _. 2" "[]"] show ?thesis
    by (auto simp: confinement_def json_c_with_def)
qed

end
