(* ===== verification/Sandbox.thy ===== *)
theory Sandbox
  imports Prelude
begin

text \<open>
  \<open>sandbox.c\<close>: \<open>main\<close>, which drops the privileges of its caller and splits into the parent and the
  child, and \<open>sigchld_handler\<close>, which ends the parent when the child has ended.
\<close>

section \<open>The process\<close>

text \<open>
  The real, effective and saved ids, and what the descriptors refer to: something the creator of the
  process opened, or an end of the socket pair.
\<close>

datatype descr = Creator nat | Sock_parent | Sock_child

record proc =
  ruid :: int
  euid :: int
  suid :: int
  rgid :: int
  egid :: int
  sgid :: int
  descrs :: "nat \<Rightarrow> descr option"
  is_child :: bool
  sigchld_set :: bool

abbreviation (input) "PIPEIN \<equiv> (3::nat)"
abbreviation (input) "PIPEOUT \<equiv> (4::nat)"

definition close_fd :: "nat \<Rightarrow> proc \<Rightarrow> proc" where
  "close_fd fd s = s\<lparr>descrs := (descrs s)(fd := None)\<rparr>"

definition dup2_fd :: "nat \<Rightarrow> nat \<Rightarrow> proc \<Rightarrow> proc" where
  "dup2_fd old new s = s\<lparr>descrs := (descrs s)(new := descrs s old)\<rparr>"

definition socket_pair :: "nat \<Rightarrow> nat \<Rightarrow> proc \<Rightarrow> proc" where
  "socket_pair sv0 sv1 s = s\<lparr>descrs := (descrs s)(sv0 := Some Sock_parent, sv1 := Some Sock_child)\<rparr>"

definition set_uids :: "int \<Rightarrow> proc \<Rightarrow> proc" where
  "set_uids u s = s\<lparr>ruid := u, euid := u, suid := u\<rparr>"

definition set_gids :: "int \<Rightarrow> proc \<Rightarrow> proc" where
  "set_gids g s = s\<lparr>rgid := g, egid := g, sgid := g\<rparr>"

section \<open>main\<close>

text \<open>
  The calls that may fail; which do, and with which errno, is a parameter. Each that succeeds has
  its effect on the process. The descriptors of the pair are parameters too, and what \<open>fork\<close>
  returns, so that a run is one of the child or one of the parent.
\<close>

datatype main_call =
    Getresuid
  | Getresgid
  | Setresuid int
  | Setresgid int
  | Socketpair
  | Sigaction
  | Fork
  | Close nat
  | Dup2 nat nat

datatype ended = Returned int | Into_child | Into_parent int nat

definition or_return ::
  "(main_call \<Rightarrow> int option) \<Rightarrow> main_call \<Rightarrow> (proc \<Rightarrow> proc) \<Rightarrow> (proc \<Rightarrow> ended \<times> proc) \<Rightarrow>
   proc \<Rightarrow> ended \<times> proc" where
  "or_return err c eff k s = (case err c of Some e \<Rightarrow> (Returned (- e), s) | None \<Rightarrow> k (eff s))"

definition become_child ::
  "(main_call \<Rightarrow> int option) \<Rightarrow> nat \<Rightarrow> nat \<Rightarrow> proc \<Rightarrow> ended \<times> proc" where
  "become_child err sv0 sv1 =
    or_return err (Close sv0) (close_fd sv0)
    (or_return err (Close PIPEIN) (close_fd PIPEIN)
    (or_return err (Close PIPEOUT) (close_fd PIPEOUT) (\<lambda>s.
      if sv1 \<noteq> 3
      then or_return err (Dup2 sv1 3) (dup2_fd sv1 3)
             (\<lambda>s. (Into_child, (close_fd sv1 s)\<lparr>is_child := True\<rparr>)) s
      else (Into_child, s\<lparr>is_child := True\<rparr>))))"

definition become_parent :: "int \<Rightarrow> nat \<Rightarrow> nat \<Rightarrow> proc \<Rightarrow> ended \<times> proc" where
  "become_parent pid sv0 sv1 s = (Into_parent pid sv0, (close_fd sv1 s)\<lparr>is_child := False\<rparr>)"

definition sandbox_main ::
  "(main_call \<Rightarrow> int option) \<Rightarrow> nat \<Rightarrow> nat \<Rightarrow> int \<Rightarrow> proc \<Rightarrow> ended \<times> proc" where
  "sandbox_main err sv0 sv1 pid s =
    (if descrs s PIPEIN = None then (Returned 1, s)
     else if descrs s PIPEOUT = None then (Returned 1, s)
     else
       or_return err Getresuid id (or_return err Getresgid id (\<lambda>s.
       if euid s = 0 \<or> egid s = 0 then (Returned 1, s)
       else
         or_return err (Setresuid (euid s)) (set_uids (euid s))
         (or_return err (Setresgid (egid s)) (set_gids (egid s))
         (or_return err Socketpair (socket_pair sv0 sv1)
         (or_return err Sigaction (\<lambda>s. s\<lparr>sigchld_set := True\<rparr>)
         (or_return err Fork id (\<lambda>s.
           if pid = 0 then become_child err sv0 sv1 s else become_parent pid sv0 sv1 s))))) s)) s)"

section \<open>sigchld_handler\<close>

text \<open>
  What \<open>waitpid\<close> has to report, one child after the other. \<open>exit\<close> ends the process; its creator is
  given the low eight bits of the argument.
\<close>

datatype wstatus = Exited int | Signaled int | Not_ended

fun reap :: "(wstatus list, unit) prog" where
  "reap [] = (Ret (), [])"
| "reap (Exited c # ws) = (Exit c, ws)"
| "reap (Signaled g # ws) = (Exit (- g), ws)"
| "reap (Not_ended # ws) = reap ws"

definition sigchld_handler :: "bool \<Rightarrow> (wstatus list, unit) prog" where
  "sigchld_handler child ws = (if child then (Ret (), []) else reap ws)"

definition exit_status :: "int \<Rightarrow> int" where
  "exit_status n = n mod 256"

definition creator_sees :: "wstatus list \<Rightarrow> int option" where
  "creator_sees ws =
    (case fst (sigchld_handler False ws) of Exit n \<Rightarrow> Some (exit_status n) | _ \<Rightarrow> None)"

section \<open>Runs\<close>

lemma or_return_iff:
  "(\<And>r. e \<noteq> Returned r) \<Longrightarrow>
   or_return err c eff k s = (e, s') \<longleftrightarrow> err c = None \<and> k (eff s) = (e, s')"
  by (auto simp: or_return_def split: option.split)

lemma main_runs:
  assumes "sandbox_main err sv0 sv1 pid s = (e, s')" and "\<And>r. e \<noteq> Returned r"
  shows "descrs s 3 \<noteq> None" "descrs s 4 \<noteq> None" "euid s \<noteq> 0" "egid s \<noteq> 0"
    "(if pid = 0 then become_child err sv0 sv1 else become_parent pid sv0 sv1)
      ((socket_pair sv0 sv1 (set_gids (egid s) (set_uids (euid s) s)))\<lparr>sigchld_set := True\<rparr>) = (e, s')"
  using assms unfolding sandbox_main_def
  by (auto simp: or_return_iff [OF assms(2)] set_uids_def split: if_splits)

lemma child_runs_iff:
  "become_child err sv0 sv1 s = (Into_child, s') \<Longrightarrow>
   s' = (if sv1 \<noteq> 3 then close_fd sv1 (dup2_fd sv1 3 (close_fd 4 (close_fd 3 (close_fd sv0 s))))
         else close_fd 4 (close_fd 3 (close_fd sv0 s)))\<lparr>is_child := True\<rparr>"
  by (auto simp: become_child_def or_return_iff split: if_splits)

lemma become_keeps_ids:
  assumes "(if pid = 0 then become_child err sv0 sv1 else become_parent pid sv0 sv1) s = (e, s')"
  shows "ruid s' = ruid s \<and> euid s' = euid s \<and> suid s' = suid s \<and>
    rgid s' = rgid s \<and> egid s' = egid s \<and> sgid s' = sgid s"
  using assms
  by (auto simp: become_child_def become_parent_def or_return_def close_fd_def dup2_fd_def
      split: if_splits option.splits)

section \<open>Properties\<close>

text \<open>
  C11. Whenever \<open>main\<close> goes on to run the sandbox or its parent, the process is not root and cannot
  become its caller again: its three user ids are the effective one it was started with, its three
  group ids likewise, and neither is 0.
\<close>

theorem never_root:
  assumes "sandbox_main err sv0 sv1 pid s = (e, s')" and "\<And>r. e \<noteq> Returned r"
  shows "euid s \<noteq> 0 \<and> ruid s' = euid s \<and> euid s' = euid s \<and> suid s' = euid s \<and>
    egid s \<noteq> 0 \<and> rgid s' = egid s \<and> egid s' = egid s \<and> sgid s' = egid s"
  using main_runs [OF assms] become_keeps_ids [OF main_runs(5) [OF assms]]
  by (simp add: socket_pair_def set_gids_def set_uids_def)

text \<open>A set-user-id program of user 7, started by user 5 with the two pipes.\<close>

definition demo_proc :: proc where
  "demo_proc = \<lparr>ruid = 5, euid = 7, suid = 7, rgid = 5, egid = 5, sgid = 5,
     descrs = (\<lambda>fd. if fd \<le> 4 then Some (Creator fd) else None), is_child = False, sigchld_set = False\<rparr>"

lemmas main_simps = sandbox_main_def or_return_def become_child_def become_parent_def close_fd_def
  dup2_fd_def socket_pair_def set_uids_def set_gids_def demo_proc_def

theorem never_root_witness:
  "\<exists>s'. sandbox_main (\<lambda>_. None) 5 6 0 demo_proc = (Into_child, s') \<and> ruid s' = 7 \<and> rgid s' = 5"
proof -
  obtain s' where run: "sandbox_main (\<lambda>_. None) 5 6 0 demo_proc = (Into_child, s')"
    by (simp add: main_simps)
  from never_root [OF this] have "ruid s' = euid demo_proc \<and> rgid s' = egid demo_proc" by simp
  with run show ?thesis by (simp add: demo_proc_def)
qed

text \<open>
  C12. The sandboxed process gets the socket at descriptor 3, no descriptor of the pipes to the
  creator and none of the parent's end; every other descriptor the creator left open it keeps.
\<close>

theorem child_descriptors:
  assumes "sandbox_main err sv0 sv1 0 s = (Into_child, s')"
    and "descrs s sv0 = None" and "descrs s sv1 = None" and "sv0 \<noteq> sv1"
  shows "descrs s' = (descrs s)(3 := Some Sock_child, 4 := None) \<and> is_child s'"
proof -
  have "sv0 \<notin> {3, 4}" "sv1 \<notin> {3, 4}" using main_runs(1,2) [OF assms(1)] assms(2,3) by auto
  moreover have "become_child err sv0 sv1
      ((socket_pair sv0 sv1 (set_gids (egid s) (set_uids (euid s) s)))\<lparr>sigchld_set := True\<rparr>) = (Into_child, s')"
    using main_runs(5) [OF assms(1)] by simp
  note child_runs_iff [OF this]
  ultimately show ?thesis using assms(2-4)
    by (auto simp: close_fd_def dup2_fd_def socket_pair_def set_gids_def set_uids_def fun_eq_iff)
qed

theorem child_descriptors_witness:
  "\<exists>s'. sandbox_main (\<lambda>_. None) 5 6 0 demo_proc = (Into_child, s') \<and>
    descrs s' 3 = Some Sock_child \<and> descrs s' 4 = None \<and> descrs s' 2 = Some (Creator 2)"
proof -
  obtain s' where run: "sandbox_main (\<lambda>_. None) 5 6 0 demo_proc = (Into_child, s')"
    by (simp add: main_simps)
  from child_descriptors [OF this] have "descrs s' = (descrs demo_proc)(3 := Some Sock_child, 4 := None)"
    by (simp add: demo_proc_def)
  with run show ?thesis by (simp add: demo_proc_def)
qed

text \<open>
  The creator is told how the child ended: an exit status as it was, a signal as its negated
  number in eight bits. It cannot tell a child killed by the signal \<open>g\<close> from one that exited with
  \<open>256 - g\<close>, which is what the sandbox's own \<open>exit (- errno)\<close> gives.
\<close>

theorem creator_sees_end:
  assumes "0 \<le> c" and "c < 256" and "0 < g" and "g < 128" and "set ws \<subseteq> {Not_ended}"
  shows "creator_sees (ws @ Exited c # rest) = Some c \<and>
    creator_sees (ws @ Signaled g # rest) = Some (256 - g) \<and>
    (creator_sees (ws @ Exited c # rest) = creator_sees (ws @ Signaled g # rest) \<longleftrightarrow> c = 256 - g)"
proof -
  have r: "reap (ws @ more) = reap more" for more
    using assms(5) by (induction ws) auto
  have "(- g) mod 256 = 256 - g"
    using assms(3,4) by (simp add: zmod_zminus1_eq_if)
  then show ?thesis
    using assms(1,2) by (auto simp: creator_sees_def sigchld_handler_def exit_status_def r)
qed

theorem creator_sees_end_witness:
  "creator_sees [Not_ended, Exited 225] = creator_sees [Not_ended, Signaled 31]"
  using creator_sees_end [of 225 31 "[Not_ended]" "[]"] by simp

end
