(* ===== verification/Spec2Isabelle.thy ===== *)
theory Spec2Isabelle
  imports Dirents Mmap Preload Trap Links Child Sandbox
begin

text \<open>
  A model of the sandbox for Python programs (the C sources under \<open>src/\<close>), and what can be proved
  of it.

  \<^bold>\<open>The program.\<close> Three processes. The overall parent (PHP, not modelled) starts \<open>main\<close> with two
  pipes; \<open>main\<close> gives up its privileges and splits. The child confines itself with resource limits
  and a filter of system calls, starts python, and handles what the filter traps in a signal handler.
  The parent builds a virtual file system and serves the child's requests over a datagram socket.
  Whatever is not decided locally is sent to the overall parent over the pipes, as JSON-RPC.

  \<^bold>\<open>The parts, and the theories that model them.\<close>
  \<^item> \<open>Prelude\<close>: the result of running C code (\<open>Ret\<close>, \<open>Exit\<close>, or a fault: a null pointer, an access out
    of bounds, an unset variable), sequencing, C strings, little-endian bytes, bounded writes; the locale
    \<open>frame\<close> of the relations between the states before and after that hold of a program if they hold
    of its steps.
  \<^item> \<open>Base64\<close>: \<open>base64decode\<close> of \<open>sblibc.c\<close>, with its table; equal to a specification over bit streams,
    and inverse to the encoder.
  \<^item> \<open>Json\<close>, \<open>Rpc\<close>: JSON values; \<open>writejson\<close>, \<open>readjson\<close> and \<open>trampoline\<close> of \<open>sblibc.c\<close>. The library
    json-c is the record \<open>json_c\<close> of its functions, with what its manual says of them in \<open>json_c_ok\<close>.
  \<^item> \<open>Syscalls\<close>: the tables of \<open>sblibc.c\<close> and the two searches in them.
  \<^item> \<open>Forward\<close>, \<open>Data\<close>, \<open>Dirents\<close>, \<open>Mmap\<close>: the system calls of \<open>sbio.c\<close>. \<open>Forward\<close> has those whose
    reply is a code, through the locale \<open>rpc_call\<close>; \<open>Data\<close> those that fetch data; \<open>Dirents\<close> the
    directory records and \<open>poll\<close>; \<open>Mmap\<close> the mapping of files over a kernel that is a parameter.
  \<^item> \<open>Vfs\<close>, \<open>Tree\<close>, \<open>Access\<close>: \<open>build_tree\<close>, \<open>get_node\<close> and \<open>open_node\<close> of \<open>sandbox-parent.c\<close> over an
    explicit store of nodes. \<open>Tree\<close> shows that the store represents the description and that lookup
    finds the entry; \<open>Access\<close> is about filters, checks and descriptors.
  \<^item> \<open>Protocol\<close>: the child's \<open>open\<close> of \<open>sbio.c\<close> and how \<open>run_parent\<close> takes its arguments apart.
  \<^item> \<open>Parent\<close>, \<open>Runs\<close>: \<open>run_parent\<close>: start-up, one turn of the loop (\<open>serve\<close>), and the relation \<open>served\<close>
    of the states that turns and arriving messages lead to, with its invariant (locale
    \<open>parent_frame\<close>). \<open>Links\<close>: in all those states the links between the nodes lead to allocated nodes.
  \<^item> \<open>Seccomp\<close>: the rules and the signal handler of \<open>sandbox-child.c\<close>; libseccomp is a parameter with
    the meaning its manual gives. \<open>Trap\<close>: a trapped \<open>open\<close> from the registers to the reply and back.
  \<^item> \<open>Child\<close>: \<open>run_child\<close> as the sequence of the calls it makes; what they answer is a parameter.
  \<^item> \<open>Sandbox\<close>: \<open>main\<close> and \<open>sigchld_handler\<close> of \<open>sandbox.c\<close>.
  \<^item> \<open>Preload\<close>: \<open>libsbpreload.c\<close>, through the locale \<open>packed_passwd\<close>.
  \<^item> This theory: properties that need the child and the parent, or the filter and \<open>mmap\<close>.

  \<^bold>\<open>Correspondence.\<close> Definitions have the names of the C functions; a system call \<open>x\<close> of \<open>sbio.c\<close> is
  \<open>sb_x\<close>. State is a record extended from part to part: \<open>rpc\<close> (pipes and errno), \<open>vfs\<close> (store,
  descriptors), \<open>parent\<close> (socket and header). Integers of the sources that wrap are words; JSON
  integers are unbounded and clamped where json-c clamps them. A \<open>char\<close> is a byte.

  \<^bold>\<open>Bounds and fuel.\<close> \<open>build_tree\<close> takes fuel for the depth of the description, one more than the size
  of the JSON value, which bounds the depth. The loop of \<open>mmap\<close> ends because every turn has read
  something; \<open>get_node\<close> ends because every question about the working directory consumes a line of
  input. A read that waits for ever is the value \<open>None\<close> or \<open>Waiting\<close>.

  \<^bold>\<open>Where the source does not compile.\<close> Two statements of \<open>sandbox-parent.c\<close> name a member and a
  variable that do not exist (\<open>fds[2].flags\<close>, \<open>newnodw\<close>); the model has what is evidently meant.

  \<^bold>\<open>Not modelled.\<close> Failing allocations of memory; debug output; what python and the overall parent do;
  the registers of i386; changes of the kernel's file system between two calls; the operations on
  nodes that \<open>sbcontext.h\<close> declares and no file defines.
\<close>

section \<open>The mapping of files under the filter\<close>

text \<open>The system call behind each call \<open>mmap\<close> makes: its name and its registers.\<close>

definition system_call :: "mm_call \<Rightarrow> string \<times> 64 word list" where
  "system_call c =
    (case c of
       C_mmap addr len prot flags \<Rightarrow> (''mmap'', [addr, len, word_of_int prot, scast flags, - 1, 0])
     | C_lseek fd offset \<Rightarrow> (''lseek'', [word_of_int fd, word_of_int offset, 0, 0, 0, 0])
     | C_read fd buf count \<Rightarrow> (''read'', [word_of_int fd, buf, word_of_nat count, 0, 0, 0])
     | C_mprotect addr len prot \<Rightarrow> (''mprotect'', [addr, len, word_of_int prot, 0, 0, 0])
     | C_munmap addr len \<Rightarrow> (''munmap'', [addr, len, 0, 0, 0, 0]))"

lemma scast_flags: "(scast f :: 64 word) AND 0x22 = 0x22 \<longleftrightarrow> f AND 0x22 = (0x22 :: 32 word)"
proof -
  have up: "sint (scast x :: 64 word) = sint x" for x :: "32 word"
    by (rule sint_up_scast) (simp add: is_up)
  have "(scast (0x22 :: 32 word) :: 64 word) = 0x22" by simp
  then have "(scast f :: 64 word) AND 0x22 = scast (f AND 0x22)" by (metis signed_and_eq)
  moreover have "(scast x :: 64 word) = 0x22 \<longleftrightarrow> x = 0x22" for x :: "32 word"
    using up [of x] up [of "0x22"] by (metis \<open>scast (0x22 :: 32 word) = 0x22\<close> signed_word_eqI)
  ultimately show ?thesis by simp
qed

lemma mmap_calls:
  assumes "reads_at_most k" and "calls (snd (sb_mmap k addr len prot flags fd offset s)) = calls s @ tr"
    and "c \<in> set tr"
  shows "flags AND (MAP_SHARED OR MAP_GROWSDOWN OR MAP_STACK) = 0 \<and>
    (c = C_mmap addr len 3 (flags OR MAP_ANONYMOUS) \<or> (\<exists>off. c = C_lseek fd off) \<or>
     (\<exists>p n. c = C_read fd p n) \<or> (\<exists>m. c = C_mprotect m len prot) \<or> (\<exists>m. c = C_munmap m len))"
  using mmap_trace [OF assms(1), of addr len prot flags fd offset s] assms(2,3)
  by (auto simp: Let_def split: if_splits sum.splits) blast+

text \<open>
  C15. Mapping a file in a confined process. Of the calls the handler makes underneath, the filter
  lets the changes of protection and the unmapping through, the mapping exactly if a private one was
  asked for, the positioning never and the reading only for the socket: these two come back into the
  handler and go to the overall parent.
\<close>

theorem mmap_under_filter:
  assumes "seccomp_documented allows" and "reads_at_most k"
    and "calls (snd (sb_mmap k addr len prot flags fd offset s)) = calls s @ tr" and "c \<in> set tr"
    and "(name, args) = system_call c"
  shows "allows (sb_rules False pid) name args \<longleftrightarrow>
    name \<in> {''mprotect'', ''munmap''} \<or> name = ''mmap'' \<and> flags AND MAP_PRIVATE \<noteq> 0 \<or>
    name = ''read'' \<and> word_of_int fd = (3 :: 64 word)"
proof -
  note a = documented [OF assms(1)] sb_rules_def
  consider "c = C_mmap addr len 3 (flags OR MAP_ANONYMOUS)"
      "flags AND (MAP_SHARED OR MAP_GROWSDOWN OR MAP_STACK) = 0" |
    "\<exists>off. c = C_lseek fd off" | "\<exists>p n. c = C_read fd p n" |
    "(\<exists>m. c = C_mprotect m len prot) \<or> (\<exists>m. c = C_munmap m len)"
    using mmap_calls [OF assms(2-4)] by blast
  then show ?thesis
  proof cases
    case 1
    then show ?thesis
      using assms(5) anonymous_flags [OF 1(2)]
      by (simp add: a system_call_def scast_flags)
  next
    case 2
    then show ?thesis using assms(5) by (elim exE) (simp add: a system_call_def)
  next
    case 3
    then show ?thesis using assms(5) by (elim exE) (simp add: a system_call_def)
  next
    case 4
    then show ?thesis using assms(5) by (elim disjE exE) (simp_all add: a system_call_def)
  qed
qed

theorem mmap_under_filter_witness:
  "\<not> manual_seccomp (sb_rules False 9) ''mmap'' [0, 6, 3, 0x20, - 1, 0] \<and>
   calls (snd (sb_mmap ((demo_kernel [])\<lparr>k_mmap := \<lambda>_. Inl 12\<rparr>) 0 6 5 0 9 1
     \<lparr>calls = [], page = [], mm_errno = 0\<rparr>)) = [C_mmap 0 6 3 0x20]"
proof -
  let ?k = "(demo_kernel [])\<lparr>k_mmap := \<lambda>_. Inl 12\<rparr>"
  have k: "reads_at_most ?k" using demo_kernel_reads by (simp add: reads_at_most_def)
  have run: "calls (snd (sb_mmap ?k 0 6 5 0 9 1 \<lparr>calls = [], page = [], mm_errno = 0\<rparr>)) =
      calls \<lparr>calls = [], page = [], mm_errno = 0\<rparr> @ [C_mmap 0 6 3 0x20]"
    by (simp add: sb_mmap_def)
  have "(''mmap'', [0, 6, 3, 0x20, - 1, 0]) = system_call (C_mmap 0 6 3 0x20)"
    by (simp add: system_call_def)
  from mmap_under_filter [OF manual_seccomp k run _ this, of 9] run show ?thesis by simp
qed

section \<open>The two halves of start-up\<close>

text \<open>
  C14. What the parent sends at start-up is not what the child reads. The limits are three 32-bit
  words on one side and two 64-bit words on the other: the child gets 12 bytes for 16, gives up
  before it has limited, filtered or started anything, and ends with -12, which the creator of the
  sandbox sees as status 244.
\<close>

theorem start_up_mismatch:
  fixes p :: "'a parent_scheme"
  assumes "start_up jc fs junk unset send_ok p = (Ret (Inr ()), p')" and "3 \<le> length (fd_table p)"
    and "sock_out p = []" and "c_in c = map Some (sock_out p')"
  shows "\<exists>c'. run_child ans err mbs rules c = (Ret (Some (- 12)), c') \<and>
    events c' = events c @ [Py_finalize] \<and> creator_sees [Exited (exit_status (- 12))] = Some 244"
proof -
  obtain mem cpu out where "sock_out p' = [limits_dgram mem cpu unset, path_dgram jc out]"
    "length (limits_dgram mem cpu unset) = 12"
    using start_up_handshake [OF assms(1,2)] assms(3) by auto
  with assms(4) show ?thesis
    by (simp add: run_child_def child_body_def get_limits_def sock_read_def andthen_def bnd_def
        goto_cleanup_def act_def creator_sees_def sigchld_handler_def exit_status_def)
qed

theorem start_up_mismatch_witness:
  "\<exists>c'. run_child fair_system (\<lambda>_. 0) (\<lambda>_ _. 2) []
      \<lparr>events = [], c_in = map Some (sock_out (snd (start_up (json_c_with start_replies) demo_fs
        (\<lambda>_. zero_node) 7 (\<lambda>_. True) starting_parent)))\<rparr> = (Ret (Some (- 12)), c') \<and>
    events c' = [Py_finalize]"
proof -
  obtain p' where run: "start_up (json_c_with start_replies) demo_fs (\<lambda>_. zero_node) 7 (\<lambda>_. True)
      starting_parent = (Ret (Inr ()), p')"
    using start_up_runs by (metis prod.collapse)
  have "3 \<le> length (fd_table starting_parent)" "sock_out starting_parent = []"
    by (simp_all add: starting_parent_def waiting_parent_def vfs.defs boot_def)
  from start_up_mismatch [OF run this, of "\<lparr>events = [], c_in = map Some (sock_out p')\<rparr>"
      fair_system "\<lambda>_. 0" "\<lambda>_ _. 2" "[]"]
  show ?thesis by (auto simp: run)
qed

end
